(* ===== verification/Go_Prelude.thy ===== *)
theory Go_Prelude
  imports Main "HOL-Library.AList" "HOL-Library.List_Lexorder" "HOL-Library.Char_ord"
begin

text \<open>
  What every component of the model shares.  A Go string is a sequence of bytes, so it is an
  Isabelle \<open>string\<close> (a list of 8-bit characters); the functions of the packages \<open>strings\<close>,
  \<open>encoding/hex\<close> and \<open>fmt\<close> that the program calls are defined here on bytes.  A Go map is an
  association list with distinct keys, whose order stands for the iteration order the runtime
  picks: a theorem about every such list holds for every iteration order.  An error is a value
  of \<open>go_error\<close>, and a function that returns \<open>(T, error)\<close> returns \<open>go_error + T\<close>.
\<close>

named_theorems go_string_simps \<open>evaluation of string functions on closed arguments\<close>
named_theorems go_map_simps \<open>lookup after the operations on Go maps\<close>
named_theorems res_splits \<open>case splits on results\<close>

section \<open>Errors and results\<close>

text \<open>
  \<open>ErrMsg\<close> is \<open>fmt.Errorf\<close> or \<open>errors.New\<close> with the text of the source, \<open>ErrFmt\<close> is
  \<open>fmt.Errorf\<close> with a format that has verbs for strings and its arguments, \<open>ErrWrap\<close> is
  \<open>fmt.Errorf("text: %w", err)\<close>.  The two sentinels are the variables \<open>ErrSecretNotFound\<close> and
  \<open>ErrInvalidKey\<close> of the vault; \<open>ErrNoRows\<close> is \<open>sql.ErrNoRows\<close>, \<open>ErrUnique\<close> a violated
  primary key, \<open>ErrDriver\<close> any other failure of the database driver, \<open>ErrDecode\<close> an error of
  a decoder (JSON, base64) and \<open>ErrIO\<close> an error of the operating system.  \<open>ErrPanic\<close> is not a value:
  it stands for a run-time panic, which ends the program, and \<open>err_wrap\<close> passes it on as it is.
\<close>

datatype go_error =
    ErrMsg string
  | ErrFmt string "string list"
  | ErrWrap string go_error
  | ErrSecretNotFound
  | ErrInvalidKey
  | ErrNoRows
  | ErrUnique
  | ErrDriver
  | ErrDecode
  | ErrIO
  | ErrPanic

type_synonym 'a res = "go_error + 'a"

definition err_wrap :: "string \<Rightarrow> go_error \<Rightarrow> go_error" where
  "err_wrap text e = (if e = ErrPanic then ErrPanic else ErrWrap text e)"

lemmas [res_splits] = sum.splits option.splits if_splits prod.splits

fun is_ok :: "'a res \<Rightarrow> bool" where
  "is_ok (Inr _) = True"
| "is_ok (Inl _) = False"

lemma is_ok_iff: "is_ok r \<longleftrightarrow> (\<exists>x. r = Inr x)"
  by (cases r) auto

section \<open>Package strings\<close>

subsection \<open>Prefixes, suffixes, search\<close>

fun has_prefix :: "string \<Rightarrow> string \<Rightarrow> bool" where
  "has_prefix s [] = True"
| "has_prefix [] (p # ps) = False"
| "has_prefix (c # s) (p # ps) = (c = p \<and> has_prefix s ps)"

definition has_suffix :: "string \<Rightarrow> string \<Rightarrow> bool" where
  "has_suffix s p = has_prefix (rev s) (rev p)"

definition trim_prefix :: "string \<Rightarrow> string \<Rightarrow> string" where
  "trim_prefix s p = (if has_prefix s p then drop (length p) s else s)"

definition trim_suffix :: "string \<Rightarrow> string \<Rightarrow> string" where
  "trim_suffix s p = (if has_suffix s p then take (length s - length p) s else s)"

text \<open>\<open>strings.Index\<close>: the first position of \<open>p\<close> in \<open>s\<close>, \<open>None\<close> for \<open>-1\<close>.\<close>

fun str_index :: "string \<Rightarrow> string \<Rightarrow> nat option" where
  "str_index [] p = (if p = [] then Some 0 else None)"
| "str_index (c # s) p =
     (if has_prefix (c # s) p then Some 0 else map_option Suc (str_index s p))"

definition str_contains :: "string \<Rightarrow> string \<Rightarrow> bool" where
  "str_contains s p = (str_index s p \<noteq> None)"

lemma has_prefix_iff: "has_prefix s p \<longleftrightarrow> (\<exists>t. s = p @ t)"
  by (induction s p rule: has_prefix.induct) auto

lemma has_prefix_append [simp]: "has_prefix (p @ t) p"
  by (auto simp: has_prefix_iff)

lemma has_suffix_iff: "has_suffix s p \<longleftrightarrow> (\<exists>t. s = t @ p)"
  by (auto simp: has_suffix_def has_prefix_iff) (metis rev_append rev_rev_ident)

lemma trim_prefix_append [simp]: "trim_prefix (p @ s) p = s"
  by (simp add: trim_prefix_def)

lemma str_index_Some:
  "str_index s p = Some i \<Longrightarrow> \<exists>a b. s = a @ p @ b \<and> length a = i"
proof (induction s arbitrary: i)
  case Nil
  then show ?case by (auto split: if_splits)
next
  case (Cons c s)
  show ?case
  proof (cases "has_prefix (c # s) p")
    case True
    with Cons.prems show ?thesis by (auto simp: has_prefix_iff)
  next
    case False
    with Cons.prems obtain j where "str_index s p = Some j" and i: "i = Suc j"
      by (auto simp: map_option_case split: option.splits)
    then obtain a b where "s = a @ p @ b" "length a = j"
      using Cons.IH by blast
    with i have "c # s = (c # a) @ p @ b \<and> length (c # a) = i" by simp
    then show ?thesis by blast
  qed
qed

subsection \<open>Splitting and joining\<close>

text \<open>\<open>strings.Split(s, sep)\<close> for a separator of one byte; \<open>strings.SplitN\<close> for any
  nonempty separator and \<open>n > 0\<close>.\<close>

fun split_char :: "char \<Rightarrow> string \<Rightarrow> string list" where
  "split_char c [] = [[]]"
| "split_char c (x # xs) =
     (if x = c then [] # split_char c xs
      else (case split_char c xs of
              [] \<Rightarrow> [[x]]
            | p # ps \<Rightarrow> (x # p) # ps))"

fun split_n :: "nat \<Rightarrow> string \<Rightarrow> string \<Rightarrow> string list" where
  "split_n 0 sep s = []"
| "split_n (Suc 0) sep s = [s]"
| "split_n (Suc (Suc n)) sep s =
     (case str_index s sep of
        None \<Rightarrow> [s]
      | Some i \<Rightarrow> take i s # split_n (Suc n) sep (drop (i + length sep) s))"

fun join_with :: "string \<Rightarrow> string list \<Rightarrow> string" where
  "join_with sep [] = []"
| "join_with sep [s] = s"
| "join_with sep (s # t # ss) = s @ sep @ join_with sep (t # ss)"

lemma split_char_not_Nil [simp]: "split_char c s \<noteq> []"
  by (induction s) (auto split: list.splits)

lemma split_char_none: "c \<notin> set s \<Longrightarrow> split_char c s = [s]"
  by (induction s) auto

lemma split_char_append:
  "c \<notin> set p \<Longrightarrow> split_char c (p @ c # s) = p # split_char c s"
  by (induction p) auto

lemma split_char_parts: "p \<in> set (split_char c s) \<Longrightarrow> c \<notin> set p"
proof (induction s arbitrary: p)
  case Nil
  then show ?case by simp
next
  case (Cons x xs)
  then show ?case
    by (cases "split_char c xs") (auto split: if_splits)
qed

lemma join_split_char: "join_with [c] (split_char c s) = s"
proof (induction s)
  case Nil
  then show ?case by simp
next
  case (Cons x xs)
  obtain p ps where eq: "split_char c xs = p # ps"
    using split_char_not_Nil by (metis list.exhaust)
  from Cons eq show ?case
    by (cases ps) auto
qed

subsection \<open>White space\<close>

text \<open>
  \<open>strings.TrimSpace\<close> removes the leading and trailing runes with the Unicode property
  White\_Space.  \<open>space_len a s\<close> is the number of bytes of such a rune at the front of \<open>s\<close>,
  0 when there is none: one byte for the six ASCII spaces, two for U+0085 and U+00A0, three for
  U+1680, U+2000 to U+200A, U+2028, U+2029, U+202F, U+205F and U+3000.  No byte of these
  encodings but the first is the start of a rune, so matching them at the end of the string,
  byte by byte, is what decoding the last rune does.
\<close>

definition ascii_space :: "char \<Rightarrow> bool" where
  "ascii_space c \<longleftrightarrow> c \<in> {CHR 0x09, CHR 0x0A, CHR 0x0B, CHR 0x0C, CHR 0x0D, CHR 0x20}"

definition space2 :: "char \<Rightarrow> char \<Rightarrow> bool" where
  "space2 a b \<longleftrightarrow> a = CHR 0xC2 \<and> (b = CHR 0x85 \<or> b = CHR 0xA0)"

definition space3 :: "char \<Rightarrow> char \<Rightarrow> char \<Rightarrow> bool" where
  "space3 a b c \<longleftrightarrow>
     (a = CHR 0xE1 \<and> b = CHR 0x9A \<and> c = CHR 0x80) \<or>
     (a = CHR 0xE2 \<and> b = CHR 0x80 \<and>
        ((128 \<le> (of_char c :: nat) \<and> (of_char c :: nat) \<le> 138) \<or>
         c \<in> {CHR 0xA8, CHR 0xA9, CHR 0xAF})) \<or>
     (a = CHR 0xE2 \<and> b = CHR 0x81 \<and> c = CHR 0x9F) \<or>
     (a = CHR 0xE3 \<and> b = CHR 0x80 \<and> c = CHR 0x80)"

fun space_len :: "string \<Rightarrow> nat" where
  "space_len (a # b # c # s) =
     (if ascii_space a then 1 else if space2 a b then 2 else if space3 a b c then 3 else 0)"
| "space_len [a, b] = (if ascii_space a then 1 else if space2 a b then 2 else 0)"
| "space_len [a] = (if ascii_space a then 1 else 0)"
| "space_len [] = 0"

text \<open>The same on the reversed string: a rune of white space that ends the string.\<close>

fun space_len_rev :: "string \<Rightarrow> nat" where
  "space_len_rev (c # b # a # s) =
     (if ascii_space c then 1 else if space2 b c then 2 else if space3 a b c then 3 else 0)"
| "space_len_rev [b, a] = (if ascii_space b then 1 else if space2 a b then 2 else 0)"
| "space_len_rev [a] = (if ascii_space a then 1 else 0)"
| "space_len_rev [] = 0"

function trim_left :: "string \<Rightarrow> string" where
  "trim_left s = (if space_len s = 0 then s else trim_left (drop (space_len s) s))"
  by pat_completeness auto
termination
proof (relation "measure length", goal_cases)
  case (2 s)
  then show ?case by (cases s) auto
qed simp

function trim_rev :: "string \<Rightarrow> string" where
  "trim_rev s = (if space_len_rev s = 0 then s else trim_rev (drop (space_len_rev s) s))"
  by pat_completeness auto
termination
proof (relation "measure length", goal_cases)
  case (2 s)
  then show ?case by (cases s) auto
qed simp

declare trim_left.simps [simp del] trim_rev.simps [simp del]

definition trim_right :: "string \<Rightarrow> string" where
  "trim_right s = rev (trim_rev (rev s))"

definition trim_space :: "string \<Rightarrow> string" where
  "trim_space s = trim_right (trim_left s)"

text \<open>\<open>strings.TrimSpace(s) == ""\<close>, the check the services make on their arguments.\<close>

definition blank :: "string \<Rightarrow> bool" where
  "blank s \<longleftrightarrow> trim_space s = []"

lemmas space_defs = ascii_space_def space2_def space3_def

lemma trim_left_fix: "space_len s = 0 \<Longrightarrow> trim_left s = s"
  by (simp add: trim_left.simps)

lemma trim_rev_fix: "space_len_rev s = 0 \<Longrightarrow> trim_rev s = s"
  by (simp add: trim_rev.simps)

lemma space_len_trim_left [simp]: "space_len (trim_left s) = 0"
proof (induction s rule: trim_left.induct)
  case (1 s)
  then show ?case by (cases "space_len s = 0") (auto simp: trim_left.simps [of s])
qed

lemma space_len_rev_trim_rev [simp]: "space_len_rev (trim_rev s) = 0"
proof (induction s rule: trim_rev.induct)
  case (1 s)
  then show ?case by (cases "space_len_rev s = 0") (auto simp: trim_rev.simps [of s])
qed

lemma trim_rev_suffix: "\<exists>u. s = u @ trim_rev s"
proof (induction s rule: trim_rev.induct)
  case (1 s)
  show ?case
  proof (cases "space_len_rev s = 0")
    case True
    then show ?thesis by (simp add: trim_rev_fix)
  next
    case False
    with "1.IH" obtain u where u: "drop (space_len_rev s) s = u @ trim_rev (drop (space_len_rev s) s)"
      by blast
    from False have "trim_rev s = trim_rev (drop (space_len_rev s) s)"
      by (simp add: trim_rev.simps [of s])
    with u have "s = (take (space_len_rev s) s @ u) @ trim_rev s"
      by (metis append.assoc append_take_drop_id)
    then show ?thesis by blast
  qed
qed

lemma trim_right_prefix: "\<exists>u. s = trim_right s @ u"
proof -
  obtain u where "rev s = u @ trim_rev (rev s)"
    using trim_rev_suffix by blast
  then have "s = trim_right s @ rev u"
    unfolding trim_right_def by (metis rev_append rev_rev_ident)
  then show ?thesis by blast
qed

text \<open>White space at the front stays white space when more bytes follow.\<close>

lemma space_len_append: "space_len s \<noteq> 0 \<Longrightarrow> space_len (s @ t) \<noteq> 0"
  by (cases s rule: space_len.cases; cases t; cases "tl t") (auto split: if_splits)

lemma trim_space_idem [simp]: "trim_space (trim_space s) = trim_space s"
proof -
  obtain u where u: "trim_left s = trim_space s @ u"
    unfolding trim_space_def using trim_right_prefix by blast
  have "space_len (trim_space s) = 0"
    using space_len_append [of "trim_space s" u] u by (metis space_len_trim_left)
  then have left: "trim_left (trim_space s) = trim_space s"
    by (rule trim_left_fix)
  have "space_len_rev (rev (trim_space s)) = 0"
    by (simp add: trim_space_def trim_right_def)
  with left show ?thesis
    by (simp add: trim_space_def [of "trim_space s"] trim_right_def trim_rev_fix)
qed

lemma blank_Nil [simp]: "blank []"
  by (simp add: blank_def trim_space_def trim_right_def trim_left_fix trim_rev_fix)

lemma blank_trim_space [simp]: "blank (trim_space s) \<longleftrightarrow> blank s"
  by (simp add: blank_def)

lemma trim_space_fix: "space_len s = 0 \<Longrightarrow> space_len_rev (rev s) = 0 \<Longrightarrow> trim_space s = s"
  by (simp add: trim_space_def trim_right_def trim_left_fix trim_rev_fix)

text \<open>No white space has a visible ASCII byte in it, so a string with such a byte is not blank.\<close>

definition visible :: "char \<Rightarrow> bool" where
  "visible c \<longleftrightarrow> 33 \<le> (of_char c :: nat) \<and> (of_char c :: nat) < 127"

lemma visible_not_space:
  assumes "visible c"
  shows "\<not> ascii_space c" "\<not> space2 a c" "\<not> space2 c a" "\<not> space3 a b c" "\<not> space3 a c b" "\<not> space3 c a b"
  using assms by (auto simp: visible_def space_defs)

lemma visible_kept:
  assumes "visible c"
  shows "c \<in> set s \<Longrightarrow> c \<in> set (drop (space_len s) s)"
    and "c \<in> set s \<Longrightarrow> c \<in> set (drop (space_len_rev s) s)"
  using visible_not_space [OF assms]
  by (cases s rule: space_len.cases; auto)+

lemma visible_trim_left: "visible c \<Longrightarrow> c \<in> set s \<Longrightarrow> c \<in> set (trim_left s)"
proof (induction s rule: trim_left.induct)
  case (1 s)
  show ?case
  proof (cases "space_len s = 0")
    case False
    from "1.IH" [OF False "1.prems"(1) visible_kept(1) [OF "1.prems"]] False show ?thesis
      by (simp add: trim_left.simps [of s])
  qed (simp add: trim_left_fix "1.prems")
qed

lemma visible_trim_rev: "visible c \<Longrightarrow> c \<in> set s \<Longrightarrow> c \<in> set (trim_rev s)"
proof (induction s rule: trim_rev.induct)
  case (1 s)
  show ?case
  proof (cases "space_len_rev s = 0")
    case False
    from "1.IH" [OF False "1.prems"(1) visible_kept(2) [OF "1.prems"]] False show ?thesis
      by (simp add: trim_rev.simps [of s])
  qed (simp add: trim_rev_fix "1.prems")
qed

lemma visible_not_blank: "visible c \<Longrightarrow> c \<in> set s \<Longrightarrow> \<not> blank s"
  using visible_trim_rev [of c "rev (trim_left s)"] visible_trim_left [of c s]
  by (auto simp: blank_def trim_space_def trim_right_def)

lemma not_blank_head:
  assumes "space_len s = 0" and "s \<noteq> []" and "space_len_rev (rev s) = 0"
  shows "\<not> blank s"
  using assms by (simp add: blank_def trim_space_fix)


subsection \<open>Lower case\<close>

text \<open>
  \<open>strings.ToLower\<close>.  ASCII letters are mapped.  Of the other runes, U+0130 and U+212A (the
  Kelvin sign) are the two whose lower case is ASCII (\<open>i\<close> and \<open>k\<close>); every other one is mapped
  to a rune that is not ASCII, and its bytes are kept here.  The program compares the result
  with ASCII words only, for which this makes no difference.
\<close>

definition lower_char :: "char \<Rightarrow> char" where
  "lower_char c = (let n = of_char c :: nat in if 65 \<le> n \<and> n \<le> 90 then char_of (n + 32) else c)"

fun to_lower :: "string \<Rightarrow> string" where
  "to_lower (a # b # c # s) =
     (if a = CHR 0xC4 \<and> b = CHR 0xB0 then CHR ''i'' # to_lower (c # s)
      else if a = CHR 0xE2 \<and> b = CHR 0x84 \<and> c = CHR 0xAA then CHR ''k'' # to_lower s
      else lower_char a # to_lower (b # c # s))"
| "to_lower [a, b] =
     (if a = CHR 0xC4 \<and> b = CHR 0xB0 then ''i'' else [lower_char a, lower_char b])"
| "to_lower [a] = [lower_char a]"
| "to_lower [] = []"

subsection \<open>Numbers and bytes as text\<close>

text \<open>\<open>%d\<close> of \<open>fmt\<close>, and \<open>hex.EncodeToString\<close>.\<close>

definition digit_char :: "nat \<Rightarrow> char" where
  "digit_char d = char_of (48 + d)"

fun dec_nat :: "nat \<Rightarrow> string" where
  "dec_nat n = (if n < 10 then [digit_char n] else dec_nat (n div 10) @ [digit_char (n mod 10)])"

declare dec_nat.simps [simp del]

definition dec_int :: "int \<Rightarrow> string" where
  "dec_int i = (if i < 0 then CHR ''-'' # dec_nat (nat (- i)) else dec_nat (nat i))"

definition is_digit :: "char \<Rightarrow> bool" where
  "is_digit c \<longleftrightarrow> 48 \<le> (of_char c :: nat) \<and> (of_char c :: nat) \<le> 57"

definition digit_val :: "char \<Rightarrow> nat" where
  "digit_val c = of_char c - 48"

definition dec_val :: "string \<Rightarrow> nat" where
  "dec_val s = foldl (\<lambda>a c. 10 * a + digit_val c) 0 s"

definition hex_digit :: "nat \<Rightarrow> char" where
  "hex_digit n = (if n < 10 then char_of (48 + n) else char_of (87 + n))"

definition hex_byte :: "char \<Rightarrow> string" where
  "hex_byte c = (let n = of_char c :: nat in [hex_digit (n div 16), hex_digit (n mod 16)])"

definition hex_encode :: "string \<Rightarrow> string" where
  "hex_encode s = concat (map hex_byte s)"

lemma digit_char_val [simp]: "d < 10 \<Longrightarrow> digit_val (digit_char d) = d"
  by (simp add: digit_val_def digit_char_def)

lemma digit_char_is_digit [simp]: "d < 10 \<Longrightarrow> is_digit (digit_char d)"
  by (simp add: is_digit_def digit_char_def)

lemma digit_char_literals [simp]:
  "digit_char 0 = CHR ''0''" "digit_char (Suc 0) = CHR ''1''" "digit_char 2 = CHR ''2''"
  "digit_char 3 = CHR ''3''" "digit_char 4 = CHR ''4''" "digit_char 5 = CHR ''5''"
  "digit_char 6 = CHR ''6''" "digit_char 7 = CHR ''7''" "digit_char 8 = CHR ''8''"
  "digit_char 9 = CHR ''9''" "digit_char (Suc (Suc 0)) = CHR ''2''"
  by (simp_all add: digit_char_def char_of_eq_iff)

lemma dec_nat_digits: "c \<in> set (dec_nat n) \<Longrightarrow> is_digit c"
proof (induction n rule: dec_nat.induct)
  case (1 n)
  show ?case
  proof (cases "n < 10")
    case True
    with "1.prems" show ?thesis by (simp add: dec_nat.simps [of n])
  next
    case False
    with "1.prems" have "c \<in> set (dec_nat (n div 10)) \<or> c = digit_char (n mod 10)"
      by (auto simp: dec_nat.simps [of n])
    with False "1.IH" show ?thesis by auto
  qed
qed

lemma dec_nat_not_Nil [simp]: "dec_nat n \<noteq> []"
  by (subst dec_nat.simps) simp

lemma dec_val_dec_nat [simp]: "dec_val (dec_nat n) = n"
proof (induction n rule: dec_nat.induct)
  case (1 n)
  then show ?case
    by (cases "n < 10") (auto simp: dec_nat.simps [of n] dec_val_def)
qed

lemma dec_nat_inject [simp]: "dec_nat m = dec_nat n \<longleftrightarrow> m = n"
  by (metis dec_val_dec_nat)

text \<open>The text of a number has no leading zero.\<close>

lemma dec_nat_hd: "n \<noteq> 0 \<Longrightarrow> hd (dec_nat n) \<noteq> CHR ''0''"
proof (induction n rule: dec_nat.induct)
  case (1 n)
  show ?case
  proof (cases "n < 10")
    case True
    have "digit_val (digit_char n) \<noteq> digit_val (CHR ''0'')"
      using True "1.prems" by (simp add: digit_val_def [of "CHR ''0''"])
    then have "digit_char n \<noteq> CHR ''0''" by metis
    with True show ?thesis by (simp add: dec_nat.simps [of n])
  next
    case False
    then have "n div 10 \<noteq> 0" by auto
    with False "1.IH" show ?thesis by (simp add: dec_nat.simps [of n])
  qed
qed

lemma length_hex_encode [simp]: "length (hex_encode s) = 2 * length s"
  by (induction s) (auto simp: hex_encode_def hex_byte_def Let_def)

lemma hex_digit_inj: "m < 16 \<Longrightarrow> n < 16 \<Longrightarrow> hex_digit m = hex_digit n \<Longrightarrow> m = n"
  by (auto simp: hex_digit_def split: if_splits dest: arg_cong [where f = "of_char :: char \<Rightarrow> nat"])

lemma hex_byte_inject [simp]: "hex_byte c = hex_byte d \<longleftrightarrow> c = d"
proof
  assume "hex_byte c = hex_byte d"
  then have "hex_digit (of_char c div 16) = hex_digit (of_char d div 16)"
    and "hex_digit (of_char c mod 16) = hex_digit (of_char d mod 16)"
    by (simp_all add: hex_byte_def Let_def)
  then have "(of_char c :: nat) div 16 = of_char d div 16" "(of_char c :: nat) mod 16 = of_char d mod 16"
    by (simp_all add: hex_digit_inj less_mult_imp_div_less)
  then have "(of_char c :: nat) = of_char d"
    by (metis div_mult_mod_eq)
  then show "c = d" by simp
qed simp

lemma hex_encode_inject [simp]: "hex_encode s = hex_encode t \<longleftrightarrow> s = t"
proof (induction s arbitrary: t)
  case Nil
  then show ?case by (cases t) (auto simp: hex_encode_def hex_byte_def Let_def)
next
  case (Cons c s)
  have two: "length (hex_byte c) = 2" for c by (simp add: hex_byte_def Let_def)
  show ?case
  proof (cases t)
    case Nil
    then show ?thesis by (simp add: hex_encode_def hex_byte_def Let_def)
  next
    case (Cons d u)
    with Cons.IH [of u] show ?thesis by (simp add: hex_encode_def two)
  qed
qed

section \<open>Maps\<close>

text \<open>
  \<open>map_of m k\<close> is \<open>v, ok := m[k]\<close>, \<open>AList.update k v m\<close> is \<open>m[k] = v\<close>, \<open>AList.delete k m\<close> is
  \<open>delete(m, k)\<close> and \<open>length m\<close> is \<open>len(m)\<close>.  \<open>map_wf\<close> says that no key occurs twice; the
  operations keep it.
\<close>

type_synonym ('k, 'v) gomap = "('k \<times> 'v) list"

definition map_wf :: "('k, 'v) gomap \<Rightarrow> bool" where
  "map_wf m \<longleftrightarrow> distinct (map fst m)"

definition gm_put :: "'k \<Rightarrow> 'v \<Rightarrow> ('k, 'v) gomap \<Rightarrow> ('k, 'v) gomap" where
  "gm_put = AList.update"

definition gm_del :: "'k \<Rightarrow> ('k, 'v) gomap \<Rightarrow> ('k, 'v) gomap" where
  "gm_del = AList.delete"

lemma map_wf_Nil [simp]: "map_wf []"
  by (simp add: map_wf_def)

lemma map_wf_put [simp]: "map_wf m \<Longrightarrow> map_wf (gm_put k v m)"
  by (simp add: map_wf_def gm_put_def distinct_update)

lemma map_wf_del [simp]: "map_wf m \<Longrightarrow> map_wf (gm_del k m)"
  by (simp add: map_wf_def gm_del_def distinct_delete)

lemma map_of_put [simp, go_map_simps]: "map_of (gm_put k v m) = (map_of m)(k \<mapsto> v)"
  by (simp add: gm_put_def update_conv')

lemma map_of_del [simp, go_map_simps]: "map_of (gm_del k m) = (map_of m)(k := None)"
  by (simp add: gm_del_def delete_conv')

lemma map_wf_pair: "map_wf m \<Longrightarrow> (k, v) \<in> set m \<longleftrightarrow> map_of m k = Some v"
  by (simp add: map_wf_def)

lemma keys_put [simp]: "fst ` set (gm_put k v m) = insert k (fst ` set m)"
  by (simp add: gm_put_def dom_map_of_conv_image_fst [symmetric] update_conv')

lemma keys_del [simp]: "fst ` set (gm_del k m) = fst ` set m - {k}"
  by (simp add: gm_del_def dom_map_of_conv_image_fst [symmetric] delete_conv')

lemma map_of_keys_set: "set (map fst m) = dom (map_of m)"
  by (simp add: dom_map_of_conv_image_fst)

section \<open>The environment\<close>

text \<open>\<open>os.Getenv\<close>: a variable that is not set is the empty string.\<close>

type_synonym environ = "string \<Rightarrow> string"

section \<open>Time\<close>

text \<open>
  \<open>time.Now()\<close> is an argument of the functions that call it: the nanoseconds since the Unix
  epoch.  \<open>t.Unix()\<close> counts whole seconds and rounds towards minus infinity.
\<close>

type_synonym go_time = int

definition ns_per_s :: int where
  "ns_per_s = 1000000000"

definition unix :: "go_time \<Rightarrow> int" where
  "unix t = t div ns_per_s"

lemma unix_mono: "t \<le> t' \<Longrightarrow> unix t \<le> unix t'"
  by (simp add: unix_def ns_per_s_def zdiv_mono1)

end
