(* ===== verification/Go_Client.thy ===== *)
theory Go_Client
  imports Go_Prelude
begin

text \<open>
  Requests that the program sends (\<open>net/http\<close> as a client).  The network is not part of the program:
  what building or sending a request does is an argument of the functions that do it.
\<close>

record out_request =
  out_method :: string
  out_url :: string
  out_headers :: "(string \<times> string) list"
  out_body :: string

text \<open>\<open>send\<close> builds and sends one request over a state \<open>'w\<close> and gives the status of the answer, or the
  error of building or sending it.\<close>

type_synonym 'w http_send = "out_request \<Rightarrow> 'w \<Rightarrow> nat res \<times> 'w"

text \<open>Where the two errors are told apart and the body of the answer is read: \<open>new_request\<close> is the
  error of \<open>http.NewRequest\<close> for a method and a URL, \<open>client_do\<close> the exchange.\<close>

record 'w http_client =
  new_request :: "string \<Rightarrow> string \<Rightarrow> go_error option"
  client_do :: "out_request \<Rightarrow> 'w \<Rightarrow> (nat \<times> string) res \<times> 'w"

end
