(* ===== verification/Go_Base64.thy ===== *)
theory Go_Base64
  imports Go_Prelude
begin

text \<open>
  Package \<open>encoding/base64\<close> as the program uses it: \<open>StdEncoding\<close> (padded, for the secrets of
  the vault) and \<open>RawURLEncoding\<close> (unpadded, for the three parts of a token).  The decoder drops
  carriage returns and line feeds wherever they stand and ignores the bits that a last, partial
  group leaves over, as Go's decoder does when it is not strict.  What the two encodings share is
  proved once, in a locale over the alphabet.
\<close>

definition std_alphabet :: string where
  "std_alphabet = ''ABCDEFGHIJKLMNOPQRSTUVWXYZabcdefghijklmnopqrstuvwxyz0123456789+/''"

definition url_alphabet :: string where
  "url_alphabet = ''ABCDEFGHIJKLMNOPQRSTUVWXYZabcdefghijklmnopqrstuvwxyz0123456789-_''"

fun find_index :: "'a \<Rightarrow> 'a list \<Rightarrow> nat option" where
  "find_index a [] = None"
| "find_index a (x # xs) = (if x = a then Some 0 else map_option Suc (find_index a xs))"

lemma find_index_nth: "distinct xs \<Longrightarrow> i < length xs \<Longrightarrow> find_index (xs ! i) xs = Some i"
proof (induction xs arbitrary: i)
  case Nil
  then show ?case by simp
next
  case (Cons x xs)
  then show ?case by (cases i) auto
qed

lemma find_index_Some: "find_index a xs = Some i \<Longrightarrow> i < length xs \<and> xs ! i = a"
  by (induction xs arbitrary: i) (auto split: if_splits)

section \<open>Encoding and decoding\<close>

fun b64_enc :: "string \<Rightarrow> bool \<Rightarrow> string \<Rightarrow> string" where
  "b64_enc al pad [] = []"
| "b64_enc al pad [a] =
     (let n = of_char a * 16 in
      [al ! (n div 64), al ! (n mod 64)] @ (if pad then ''=='' else []))"
| "b64_enc al pad [a, b] =
     (let n = (of_char a * 256 + of_char b) * 4 in
      [al ! (n div 4096), al ! (n div 64 mod 64), al ! (n mod 64)] @ (if pad then ''='' else []))"
| "b64_enc al pad (a # b # c # s) =
     (let n = (of_char a * 256 + of_char b) * 256 + of_char c in
      [al ! (n div 262144), al ! (n div 4096 mod 64), al ! (n div 64 mod 64), al ! (n mod 64)]
      @ b64_enc al pad s)"

definition dec2 :: "string \<Rightarrow> char \<Rightarrow> char \<Rightarrow> string option" where
  "dec2 al w x =
     (case (find_index w al, find_index x al) of
        (Some i, Some j) \<Rightarrow> Some [char_of ((i * 64 + j) div 16)]
      | _ \<Rightarrow> None)"

definition dec3 :: "string \<Rightarrow> char \<Rightarrow> char \<Rightarrow> char \<Rightarrow> string option" where
  "dec3 al w x y =
     (case (find_index w al, find_index x al, find_index y al) of
        (Some i, Some j, Some k) \<Rightarrow>
          (let n = (i * 64 + j) * 64 + k in Some [char_of (n div 1024), char_of (n div 4)])
      | _ \<Rightarrow> None)"

definition dec4 :: "string \<Rightarrow> char \<Rightarrow> char \<Rightarrow> char \<Rightarrow> char \<Rightarrow> string option" where
  "dec4 al w x y z =
     (case (find_index w al, find_index x al, find_index y al, find_index z al) of
        (Some i, Some j, Some k, Some l) \<Rightarrow>
          (let n = ((i * 64 + j) * 64 + k) * 64 + l in
           Some [char_of (n div 65536), char_of (n div 256), char_of n])
      | _ \<Rightarrow> None)"

fun b64_groups :: "string \<Rightarrow> bool \<Rightarrow> string \<Rightarrow> string option" where
  "b64_groups al pad [] = Some []"
| "b64_groups al pad (w # x # y # z # s) =
     (if pad \<and> z = CHR ''='' then
        (if s \<noteq> [] then None
         else if y = CHR ''='' then dec2 al w x else dec3 al w x y)
      else (case dec4 al w x y z of
              None \<Rightarrow> None
            | Some d \<Rightarrow> map_option (\<lambda>r. d @ r) (b64_groups al pad s)))"
| "b64_groups al pad [w, x, y] = (if pad then None else dec3 al w x y)"
| "b64_groups al pad [w, x] = (if pad then None else dec2 al w x)"
| "b64_groups al pad [w] = None"

definition b64_dec :: "string \<Rightarrow> bool \<Rightarrow> string \<Rightarrow> string option" where
  "b64_dec al pad s =
     b64_groups al pad (filter (\<lambda>c. c \<noteq> CHR 0x0A \<and> c \<noteq> CHR 0x0D) s)"

definition std_encode :: "string \<Rightarrow> string" where
  "std_encode = b64_enc std_alphabet True"

definition std_decode :: "string \<Rightarrow> string option" where
  "std_decode = b64_dec std_alphabet True"

definition url_encode :: "string \<Rightarrow> string" where
  "url_encode = b64_enc url_alphabet False"

definition url_decode :: "string \<Rightarrow> string option" where
  "url_decode = b64_dec url_alphabet False"

section \<open>The round trip, for any alphabet\<close>

lemma div_64_steps:
  fixes n :: nat
  shows "n div 4096 = n div 64 div 64" and "n div 262144 = n div 64 div 64 div 64"
  by (simp_all add: div_mult2_eq [symmetric])

lemma byte_steps:
  fixes m c :: nat
  assumes "c < 256"
  shows "(m * 256 + c) div 256 = m" and "(m * 256 + c) mod 256 = c"
  using assms by simp_all

lemma group4_arith:
  fixes a b c :: nat
  assumes "a < 256" "b < 256" "c < 256"
  defines "n \<equiv> (a * 256 + b) * 256 + c"
  shows "n div 262144 < 64"
    and "((n div 262144 * 64 + n div 4096 mod 64) * 64 + n div 64 mod 64) * 64 + n mod 64 = n"
    and "n div 65536 = a" "n div 256 mod 256 = b" "n mod 256 = c"
proof -
  show "n mod 256 = c" "n div 256 mod 256 = b"
    unfolding n_def byte_steps [OF assms(3)] by (rule refl, rule byte_steps [OF assms(2)])
  have "n div 65536 = n div 256 div 256"
    by (simp add: div_mult2_eq [symmetric])
  then show "n div 65536 = a"
    unfolding n_def byte_steps [OF assms(3)] byte_steps [OF assms(2)] .
  show "((n div 262144 * 64 + n div 4096 mod 64) * 64 + n div 64 mod 64) * 64 + n mod 64 = n"
    by (simp only: div_64_steps div_mult_mod_eq)
  have "n < 262144 * 64"
    using assms(1-3) by (simp add: n_def)
  then show "n div 262144 < 64"
    by (simp add: less_mult_imp_div_less mult.commute)
qed

lemma group3_arith:
  fixes a b :: nat
  assumes "a < 256" "b < 256"
  defines "n \<equiv> (a * 256 + b) * 4"
  shows "n div 4096 < 64"
    and "(n div 4096 * 64 + n div 64 mod 64) * 64 + n mod 64 = n"
    and "n div 1024 = a" "n div 4 mod 256 = b"
proof -
  have n4: "n div 4 = a * 256 + b"
    by (simp add: n_def)
  have "n div 1024 = n div 4 div 256"
    by (simp add: div_mult2_eq [symmetric])
  with n4 assms(1,2) show "n div 1024 = a"
    by (simp add: byte_steps)
  from n4 assms(1,2) show "n div 4 mod 256 = b"
    by (simp add: byte_steps)
  show "(n div 4096 * 64 + n div 64 mod 64) * 64 + n mod 64 = n"
    by (simp only: div_64_steps div_mult_mod_eq)
  have "n < 4096 * 64"
    using assms(1,2) by (simp add: n_def)
  then show "n div 4096 < 64"
    by (simp add: less_mult_imp_div_less mult.commute)
qed

lemma group2_arith:
  fixes a :: nat
  assumes "a < 256"
  shows "a * 16 div 64 < 64" and "(a * 16 div 64 * 64 + a * 16 mod 64) div 16 = a"
  using assms by simp (simp only: div_mult_mod_eq nonzero_mult_div_cancel_right)

lemma triples_induct:
  assumes "P []" and "\<And>a. P [a]" and "\<And>a b. P [a, b]"
    and "\<And>a b c s. P s \<Longrightarrow> P (a # b # c # s)"
  shows "P s"
  using assms
  by induction_schema (pat_completeness, lexicographic_order)

text \<open>A byte read off the low end of a number.\<close>

lemma char_of_byte: "(n :: nat) mod 256 = of_char c \<Longrightarrow> char_of n = c"
  by (metis char_of_mod_256 char_of_char)

locale b64_alphabet =
  fixes al :: string
  assumes len: "length al = 64"
    and dist: "distinct al"
    and no_pad: "CHR ''='' \<notin> set al"
    and no_nl: "CHR 0x0A \<notin> set al" "CHR 0x0D \<notin> set al"
begin

lemma digit_back: "n < 64 \<Longrightarrow> find_index (al ! n) al = Some n"
  using find_index_nth [OF dist] len by simp

lemma digit_mem: "n < 64 \<Longrightarrow> al ! n \<in> set al"
  using len by simp

lemma digit_not_pad: "n < 64 \<Longrightarrow> al ! n \<noteq> CHR ''=''"
  using digit_mem no_pad by metis

lemma dec4_digits:
  fixes n :: nat
  assumes "n div 262144 < 64"
  shows "dec4 al (al ! (n div 262144)) (al ! (n div 4096 mod 64)) (al ! (n div 64 mod 64))
           (al ! (n mod 64)) = Some [char_of (n div 65536), char_of (n div 256), char_of n]"
proof -
  have "((n div 262144 * 64 + n div 4096 mod 64) * 64 + n div 64 mod 64) * 64 + n mod 64 = n"
    by (simp only: div_64_steps div_mult_mod_eq)
  with assms show ?thesis by (simp add: dec4_def Let_def digit_back)
qed

lemma groups_enc: "b64_groups al pad (b64_enc al pad s) = Some s"
proof (induction s rule: triples_induct)
  case 1
  show ?case by simp
next
  case (2 a)
  note g = group2_arith [OF nat_of_char_less_256 [of a]]
  show ?case
    using g by (simp add: Let_def dec2_def digit_back digit_not_pad)
next
  case (3 a b)
  note g = group3_arith [OF nat_of_char_less_256 [of a] nat_of_char_less_256 [of b]]
  have "char_of ((of_char a * 256 + of_char b) * 4 div 4 :: nat) = b"
    by (rule char_of_byte, rule g(4))
  with g show ?case
    by (simp add: Let_def dec3_def digit_back digit_not_pad)
next
  case (4 a b c s)
  note g = group4_arith [OF nat_of_char_less_256 [of a]
      nat_of_char_less_256 [of b] nat_of_char_less_256 [of c]]
  let ?n = "(of_char a * 256 + of_char b) * 256 + of_char c :: nat"
  have "char_of (?n div 65536) = a"
    by (subst g(3)) simp_all
  moreover have "char_of (?n div 256) = b"
    by (rule char_of_byte, rule g(4))
  moreover have "char_of ?n = c"
    by (rule char_of_byte, rule g(5))
  ultimately have bytes: "char_of (?n div 65536) = a" "char_of (?n div 256) = b" "char_of ?n = c"
    by blast+
  have "dec4 al (al ! (?n div 262144)) (al ! (?n div 4096 mod 64)) (al ! (?n div 64 mod 64))
          (al ! (?n mod 64)) = Some [a, b, c]"
    unfolding dec4_digits [OF g(1)] bytes by (rule refl)
  then show ?case
    using 4 by (simp add: Let_def digit_not_pad)
qed

lemma enc_chars: "c \<in> set (b64_enc al pad s) \<Longrightarrow> c \<in> set al \<or> c = CHR ''=''"
proof (induction s rule: triples_induct)
  case 1
  then show ?case by simp
next
  case (2 a)
  with group2_arith(1) [OF nat_of_char_less_256 [of a]] show ?case
    by (auto simp: Let_def digit_mem split: if_splits)
next
  case (3 a b)
  with group3_arith(1) [OF nat_of_char_less_256 [of a] nat_of_char_less_256 [of b]] show ?case
    by (auto simp: Let_def digit_mem split: if_splits)
next
  case (4 a b c s)
  with group4_arith(1) [OF nat_of_char_less_256 [of a]
      nat_of_char_less_256 [of b] nat_of_char_less_256 [of c]] show ?case
    by (auto simp: Let_def digit_mem split: if_splits)
qed

lemma enc_chars_raw: "c \<in> set (b64_enc al False s) \<Longrightarrow> c \<in> set al"
proof (induction s rule: triples_induct)
  case 1
  then show ?case by simp
next
  case (2 a)
  with group2_arith(1) [OF nat_of_char_less_256 [of a]] show ?case
    by (auto simp: Let_def digit_mem)
next
  case (3 a b)
  with group3_arith(1) [OF nat_of_char_less_256 [of a] nat_of_char_less_256 [of b]] show ?case
    by (auto simp: Let_def digit_mem)
next
  case (4 a b c s)
  with group4_arith(1) [OF nat_of_char_less_256 [of a]
      nat_of_char_less_256 [of b] nat_of_char_less_256 [of c]] show ?case
    by (auto simp: Let_def digit_mem)
qed

text \<open>Decoding what was encoded gives the bytes back.\<close>

lemma roundtrip: "b64_dec al pad (b64_enc al pad s) = Some s"
proof -
  have "c \<noteq> CHR 0x0A \<and> c \<noteq> CHR 0x0D" if "c \<in> set (b64_enc al pad s)" for c
    using enc_chars [OF that] no_nl by auto
  then have "filter (\<lambda>c. c \<noteq> CHR 0x0A \<and> c \<noteq> CHR 0x0D) (b64_enc al pad s) = b64_enc al pad s"
    by (simp add: filter_id_conv)
  then show ?thesis
    by (simp add: b64_dec_def groups_enc)
qed

lemma enc_inject: "b64_enc al pad s = b64_enc al pad t \<longleftrightarrow> s = t"
  by (metis groups_enc option.inject)

end

section \<open>The two encodings of the program\<close>

interpretation std: b64_alphabet std_alphabet
  by unfold_locales (code_simp+)

interpretation url: b64_alphabet url_alphabet
  by unfold_locales (code_simp+)

lemma std_roundtrip [simp]: "std_decode (std_encode s) = Some s"
  by (simp add: std_decode_def std_encode_def std.roundtrip)

lemma url_roundtrip [simp]: "url_decode (url_encode s) = Some s"
  by (simp add: url_decode_def url_encode_def url.roundtrip)

lemma url_encode_inject [simp]: "url_encode s = url_encode t \<longleftrightarrow> s = t"
  by (simp add: url_encode_def url.enc_inject)

lemma url_encode_no_dot [simp]: "CHR ''.'' \<notin> set (url_encode s)"
proof
  assume "CHR ''.'' \<in> set (url_encode s)"
  then have "CHR ''.'' \<in> set url_alphabet"
    unfolding url_encode_def by (rule url.enc_chars_raw)
  then show False by (simp add: url_alphabet_def)
qed

end
