(* ===== verification/Go_Json.thy ===== *)
theory Go_Json
  imports Go_Prelude
begin

text \<open>
  Package \<open>encoding/json\<close> as the token code uses it: \<open>Marshal\<close> of a map from strings to strings
  and integers (\<open>json_marshal\<close>), and \<open>Unmarshal\<close> into \<open>map[string]interface{}\<close> or any value
  (\<open>json_parse\<close>).  The reader is a scanner over bytes that gives tokens, then a pushdown
  machine over the tokens, like the \<open>parseState\<close> stack of Go's scanner, so nesting is not a
  recursion and nothing runs out of fuel.  The theorem at the end is the round trip: what
  \<open>Marshal\<close> writes, \<open>Unmarshal\<close> reads back, with invalid UTF-8 replaced by U+FFFD and integers
  below \<open>2 ^ 53\<close> exact.
\<close>

section \<open>Runes\<close>

text \<open>
  \<open>rune_len s\<close> is the width of the valid UTF-8 encoding at the front of \<open>s\<close>, 0 when there is
  none (\<open>utf8.DecodeRune\<close> gives \<open>RuneError\<close> of width 1 there).
\<close>

definition cont_byte :: "char \<Rightarrow> bool" where
  "cont_byte c \<longleftrightarrow> (let n = of_char c :: nat in 128 \<le> n \<and> n \<le> 191)"

definition rune2 :: "char \<Rightarrow> char \<Rightarrow> bool" where
  "rune2 a b \<longleftrightarrow> (let m = of_char a :: nat in 194 \<le> m \<and> m \<le> 223) \<and> cont_byte b"

definition rune3 :: "char \<Rightarrow> char \<Rightarrow> char \<Rightarrow> bool" where
  "rune3 a b c \<longleftrightarrow>
     (let m = of_char a :: nat; n = of_char b :: nat in
        (m = 224 \<and> 160 \<le> n \<and> n \<le> 191) \<or>
        ((225 \<le> m \<and> m \<le> 236 \<or> m = 238 \<or> m = 239) \<and> 128 \<le> n \<and> n \<le> 191) \<or>
        (m = 237 \<and> 128 \<le> n \<and> n \<le> 159)) \<and> cont_byte c"

definition rune4 :: "char \<Rightarrow> char \<Rightarrow> char \<Rightarrow> char \<Rightarrow> bool" where
  "rune4 a b c d \<longleftrightarrow>
     (let m = of_char a :: nat; n = of_char b :: nat in
        (m = 240 \<and> 144 \<le> n \<and> n \<le> 191) \<or>
        (241 \<le> m \<and> m \<le> 243 \<and> 128 \<le> n \<and> n \<le> 191) \<or>
        (m = 244 \<and> 128 \<le> n \<and> n \<le> 143)) \<and> cont_byte c \<and> cont_byte d"

definition ascii :: "char \<Rightarrow> bool" where
  "ascii c \<longleftrightarrow> (of_char c :: nat) < 128"

fun rune_len :: "string \<Rightarrow> nat" where
  "rune_len (a # b # c # d # s) =
     (if ascii a then 1 else if rune2 a b then 2 else if rune3 a b c then 3
      else if rune4 a b c d then 4 else 0)"
| "rune_len [a, b, c] = (if ascii a then 1 else if rune2 a b then 2 else if rune3 a b c then 3 else 0)"
| "rune_len [a, b] = (if ascii a then 1 else if rune2 a b then 2 else 0)"
| "rune_len [a] = (if ascii a then 1 else 0)"
| "rune_len [] = 0"

lemma rune_len_le: "rune_len s \<le> length s"
  by (cases s rule: rune_len.cases) auto

lemma rune_len_ascii: "ascii a \<Longrightarrow> rune_len (a # s) = 1"
  by (cases "a # s" rule: rune_len.cases) auto

lemma rune_len_2: "\<not> ascii a \<Longrightarrow> rune2 a b \<Longrightarrow> rune_len (a # b # s) = 2"
  by (cases "a # b # s" rule: rune_len.cases) auto

lemma rune_len_3: "\<not> ascii a \<Longrightarrow> \<not> rune2 a b \<Longrightarrow> rune3 a b c \<Longrightarrow> rune_len (a # b # c # s) = 3"
  by (cases "a # b # c # s" rule: rune_len.cases) auto

lemma rune_len_take: "rune_len s \<noteq> 0 \<Longrightarrow> rune_len (take (rune_len s) s @ t) = rune_len s"
  by (cases s rule: rune_len.cases)
    (auto simp: rune_len_ascii rune_len_2 rune_len_3 split: if_splits)

lemma rune_len_ge2: "rune_len (c # s) \<noteq> 0 \<Longrightarrow> \<not> ascii c \<Longrightarrow> 2 \<le> rune_len (c # s)"
  by (cases "c # s" rule: rune_len.cases) (auto split: if_splits)

text \<open>The text with every invalid byte replaced by the encoding of U+FFFD.\<close>

definition fffd :: string where
  "fffd = [CHR 0xEF, CHR 0xBF, CHR 0xBD]"

function to_valid :: "string \<Rightarrow> string" where
  "to_valid [] = []"
| "to_valid (c # s) =
     (if ascii c then c # to_valid s
      else if rune_len (c # s) = 0 then fffd @ to_valid s
      else take (rune_len (c # s)) (c # s) @ to_valid (drop (rune_len (c # s)) (c # s)))"
  by pat_completeness auto
termination
  by (relation "measure length") auto

lemma to_valid_ascii: "list_all ascii s \<Longrightarrow> to_valid s = s"
  by (induction s) auto

section \<open>Writing\<close>

text \<open>The escapes of \<open>Marshal\<close>, which escapes for HTML as well.\<close>

definition bslash :: char where "bslash = CHR 0x5C"
definition dquote :: char where "dquote = CHR 0x22"

lemmas json_chars = bslash_def dquote_def

definition esc_ascii :: "char \<Rightarrow> string" where
  "esc_ascii c =
     (if c = dquote \<or> c = bslash then [bslash, c]
      else if c = CHR 0x08 then [bslash, CHR ''b'']
      else if c = CHR 0x0C then [bslash, CHR ''f'']
      else if c = CHR 0x0A then [bslash, CHR ''n'']
      else if c = CHR 0x0D then [bslash, CHR ''r'']
      else if c = CHR 0x09 then [bslash, CHR ''t'']
      else if (of_char c :: nat) < 32 \<or> c \<in> {CHR ''<'', CHR ''>'', CHR ''&''}
        then [bslash, CHR ''u'', CHR ''0'', CHR ''0''] @ hex_byte c
      else [c])"

function json_esc :: "string \<Rightarrow> string" where
  "json_esc [] = []"
| "json_esc (c # s) =
     (if ascii c then esc_ascii c @ json_esc s
      else if rune_len (c # s) = 0 then bslash # ''ufffd'' @ json_esc s
      else if take 3 (c # s) = [CHR 0xE2, CHR 0x80, CHR 0xA8]
        then bslash # ''u2028'' @ json_esc (drop 3 (c # s))
      else if take 3 (c # s) = [CHR 0xE2, CHR 0x80, CHR 0xA9]
        then bslash # ''u2029'' @ json_esc (drop 3 (c # s))
      else take (rune_len (c # s)) (c # s) @ json_esc (drop (rune_len (c # s)) (c # s)))"
  by pat_completeness auto
termination
  by (relation "measure length") auto

definition json_quote :: "string \<Rightarrow> string" where
  "json_quote s = dquote # json_esc s @ [dquote]"

datatype jval = VStr string | VInt int

fun json_enc :: "jval \<Rightarrow> string" where
  "json_enc (VStr s) = json_quote s"
| "json_enc (VInt i) = dec_int i"

fun json_members :: "(string \<times> jval) list \<Rightarrow> string" where
  "json_members [] = []"
| "json_members [(k, v)] = json_quote k @ CHR '':'' # json_enc v"
| "json_members ((k, v) # m # ms) =
     json_quote k @ CHR '':'' # json_enc v @ CHR '','' # json_members (m # ms)"

definition json_marshal :: "(string \<times> jval) list \<Rightarrow> string" where
  "json_marshal m = CHR ''{'' # json_members (sort_key fst m) @ ''}''"

section \<open>Reading: numbers\<close>

text \<open>
  A number is read as a float64: \<open>m * 10 ^ e\<close> rounded to the nearest \<open>q * 2 ^ k\<close> with
  \<open>q < 2 ^ 53\<close> (ties to even), \<open>None\<close> for a value above the largest float64, which
  \<open>Unmarshal\<close> reports as an error.
\<close>

fun bit_len :: "nat \<Rightarrow> nat" where
  "bit_len n = (if n = 0 then 0 else Suc (bit_len (n div 2)))"

declare bit_len.simps [simp del]

definition scaled :: "int \<Rightarrow> nat \<Rightarrow> nat \<Rightarrow> nat \<times> nat" where
  "scaled k num den = (if 0 \<le> k then (num, den * 2 ^ nat k) else (num * 2 ^ nat (- k), den))"

definition round_even :: "nat \<times> nat \<Rightarrow> nat" where
  "round_even p = (case p of (n, d) \<Rightarrow>
     let q = n div d; r = n mod d in
     if 2 * r > d \<or> (2 * r = d \<and> odd q) then Suc q else q)"

definition float_exp :: "nat \<Rightarrow> nat \<Rightarrow> int" where
  "float_exp num den =
     (let k0 = int (bit_len num) - int (bit_len den) - 53;
          k1 = (case scaled k0 num den of (n, d) \<Rightarrow> if 2 ^ 53 \<le> n div d then k0 + 1 else k0)
      in max (- 1074) k1)"

definition to_float :: "nat \<Rightarrow> int \<Rightarrow> (nat \<times> int) option" where
  "to_float m e =
     (let num = (if 0 \<le> e then m * 10 ^ nat e else m);
          den = (if 0 \<le> e then 1 else 10 ^ nat (- e)) in
      if num = 0 then Some (0, 0)
      else (let k = float_exp num den; q = round_even (scaled k num den) in
            if 971 < k \<or> (k = 971 \<and> 2 ^ 53 \<le> q) then None else Some (q, k)))"

text \<open>
  \<open>int64(f)\<close> drops the fraction.  For a value outside int64 the language leaves the result to
  the implementation; the model takes that of gc on amd64, the least int64.
\<close>

definition float_trunc :: "nat \<times> int \<Rightarrow> nat" where
  "float_trunc f = (case f of (q, k) \<Rightarrow> if 0 \<le> k then q * 2 ^ nat k else q div 2 ^ nat (- k))"

definition float_int64 :: "bool \<Rightarrow> nat \<times> int \<Rightarrow> int" where
  "float_int64 neg f =
     (let v = (if neg then - int (float_trunc f) else int (float_trunc f)) in
      if - (2 ^ 63) \<le> v \<and> v < 2 ^ 63 then v else - (2 ^ 63))"

text \<open>The number grammar: the text after the sign, with its value and what follows it.\<close>

definition lex_frac :: "string \<Rightarrow> (string \<times> string) option" where
  "lex_frac s =
     (case s of
        c # r \<Rightarrow>
          if c = CHR ''.'' then
            (if takeWhile is_digit r = [] then None else Some (takeWhile is_digit r, dropWhile is_digit r))
          else Some ([], s)
      | [] \<Rightarrow> Some ([], s))"

definition lex_digits :: "string \<Rightarrow> (nat \<times> string) option" where
  "lex_digits s =
     (if takeWhile is_digit s = [] then None
      else Some (dec_val (takeWhile is_digit s), dropWhile is_digit s))"

definition lex_exp :: "string \<Rightarrow> (int \<times> string) option" where
  "lex_exp s =
     (case s of
        c # r \<Rightarrow>
          if c = CHR ''e'' \<or> c = CHR ''E'' then
            (case r of
               d # r' \<Rightarrow>
                 if d = CHR ''+'' then map_option (\<lambda>(n, t). (int n, t)) (lex_digits r')
                 else if d = CHR ''-'' then map_option (\<lambda>(n, t). (- int n, t)) (lex_digits r')
                 else map_option (\<lambda>(n, t). (int n, t)) (lex_digits r)
             | [] \<Rightarrow> None)
          else Some (0, s)
      | [] \<Rightarrow> Some (0, s))"

definition lex_int :: "string \<Rightarrow> (string \<times> string) option" where
  "lex_int s =
     (case s of
        c # r \<Rightarrow>
          if c = CHR ''0'' then Some ([c], r)
          else if is_digit c then Some (takeWhile is_digit s, dropWhile is_digit s)
          else None
      | [] \<Rightarrow> None)"

definition lex_unsigned :: "string \<Rightarrow> ((nat \<times> int) \<times> string) option" where
  "lex_unsigned s =
     (case lex_int s of None \<Rightarrow> None | Some (ds, s1) \<Rightarrow>
      (case lex_frac s1 of None \<Rightarrow> None | Some (fs, s2) \<Rightarrow>
       (case lex_exp s2 of None \<Rightarrow> None | Some (e, s3) \<Rightarrow>
          Some ((dec_val (ds @ fs), e - int (length fs)), s3))))"


lemma lex_unsigned_shorter:
  assumes "lex_unsigned s = Some (v, t)"
  shows "length t < length s"
proof -
  have drop: "length (dropWhile is_digit x) \<le> length x" for x :: string
    by (rule length_dropWhile_le)
  have dig: "length u \<le> length x" if "lex_digits x = Some (n, u)" for x n u
    using that drop [of x] by (auto simp: lex_digits_def split: if_splits)
  have i: "length u < length x" if "lex_int x = Some (ds, u)" for x ds u
  proof -
    obtain c r where "x = c # r" using \<open>lex_int x = Some (ds, u)\<close>
      by (auto simp: lex_int_def split: list.splits)
    with that drop [of r] show ?thesis
      by (auto simp: lex_int_def split: if_splits)
  qed
  have f: "length u \<le> length x" if "lex_frac x = Some (ds, u)" for x ds u
    using that drop [of "tl x"] by (auto simp: lex_frac_def split: list.splits if_splits)
  have e: "length u \<le> length x" if "lex_exp x = Some (n, u)" for x n u
    using that by (auto simp: lex_exp_def split: list.splits if_splits dest: dig)
  from assms show ?thesis
    by (auto simp: lex_unsigned_def split: option.splits prod.splits dest!: i f e)
qed

section \<open>Reading: strings\<close>

definition hex_val :: "char \<Rightarrow> nat option" where
  "hex_val c =
     (let n = of_char c :: nat in
      if 48 \<le> n \<and> n \<le> 57 then Some (n - 48)
      else if 97 \<le> n \<and> n \<le> 102 then Some (n - 87)
      else if 65 \<le> n \<and> n \<le> 70 then Some (n - 55)
      else None)"

fun hex4 :: "string \<Rightarrow> (nat \<times> string) option" where
  "hex4 (a # b # c # d # s) =
     (case (hex_val a, hex_val b, hex_val c, hex_val d) of
        (Some i, Some j, Some k, Some l) \<Rightarrow> Some (((i * 16 + j) * 16 + k) * 16 + l, s)
      | _ \<Rightarrow> None)"
| "hex4 _ = None"

text \<open>\<open>utf8.EncodeRune\<close> of a code point that is not a surrogate.\<close>

definition utf8_enc :: "nat \<Rightarrow> string" where
  "utf8_enc u =
     (if u < 128 then [char_of u]
      else if u < 2048 then [char_of (192 + u div 64), char_of (128 + u mod 64)]
      else if u < 65536 then
        [char_of (224 + u div 4096), char_of (128 + u div 64 mod 64), char_of (128 + u mod 64)]
      else
        [char_of (240 + u div 262144), char_of (128 + u div 4096 mod 64),
         char_of (128 + u div 64 mod 64), char_of (128 + u mod 64)])"

text \<open>The code unit \<open>u\<close> just read and what follows it: the bytes it stands for, and the rest.
  A high surrogate takes a low one after it; any other surrogate is U+FFFD.\<close>

definition low_half :: "string \<Rightarrow> (nat \<times> string) option" where
  "low_half s =
     (case s of
        a # b # r \<Rightarrow>
          if a = bslash \<and> b = CHR ''u'' then
            (case hex4 r of
               Some (v, t) \<Rightarrow> if 56320 \<le> v \<and> v \<le> 57343 then Some (v, t) else None
             | None \<Rightarrow> None)
          else None
      | _ \<Rightarrow> None)"

definition code_unit :: "nat \<Rightarrow> string \<Rightarrow> string \<times> string" where
  "code_unit u r =
     (if 55296 \<le> u \<and> u \<le> 57343 then
        (if u \<le> 56319 then
           (case low_half r of
              Some (v, t) \<Rightarrow> (utf8_enc (65536 + (u - 55296) * 1024 + (v - 56320)), t)
            | None \<Rightarrow> (fffd, r))
         else (fffd, r))
      else (utf8_enc u, r))"

definition simple_escape :: "char \<Rightarrow> char option" where
  "simple_escape e =
     (if e = dquote \<or> e = bslash \<or> e = CHR ''/'' then Some e
      else if e = CHR ''b'' then Some (CHR 0x08)
      else if e = CHR ''f'' then Some (CHR 0x0C)
      else if e = CHR ''n'' then Some (CHR 0x0A)
      else if e = CHR ''r'' then Some (CHR 0x0D)
      else if e = CHR ''t'' then Some (CHR 0x09)
      else None)"

text \<open>One escape after its backslash: the bytes it stands for, and the rest.\<close>

fun lex_escape :: "string \<Rightarrow> (string \<times> string) option" where
  "lex_escape [] = None"
| "lex_escape (e # r) =
     (case simple_escape e of
        Some c \<Rightarrow> Some ([c], r)
      | None \<Rightarrow>
          if e = CHR ''u'' then
            (case hex4 r of None \<Rightarrow> None | Some (u, r') \<Rightarrow> Some (code_unit u r'))
          else None)"

lemma hex4_shorter: "hex4 s = Some (u, t) \<Longrightarrow> length t < length s"
  by (cases s rule: hex4.cases) (auto split: option.splits)

lemma low_half_shorter: "low_half s = Some (v, t) \<Longrightarrow> length t < length s"
  by (auto simp: low_half_def split: list.splits if_splits option.splits dest!: hex4_shorter)

lemma code_unit_le: "code_unit u r = (p, t) \<Longrightarrow> length t \<le> length r"
  by (auto simp: code_unit_def split: if_splits option.splits dest!: low_half_shorter)

lemma lex_escape_shorter: "lex_escape s = Some (p, t) \<Longrightarrow> length t < length s"
  by (cases s) (auto split: option.splits if_splits dest!: hex4_shorter code_unit_le)

text \<open>The text of a string after its opening quote: its value, and what follows the closing one.\<close>

definition emit :: "string \<Rightarrow> (string \<times> string) option \<Rightarrow> (string \<times> string) option" where
  "emit p x = map_option (\<lambda>(v, r). (p @ v, r)) x"

function lex_str :: "string \<Rightarrow> (string \<times> string) option" where
  "lex_str [] = None"
| "lex_str (c # s) =
     (if c = dquote then Some ([], s)
      else if c = bslash then
        (case lex_escape s of None \<Rightarrow> None | Some (p, r) \<Rightarrow> emit p (lex_str r))
      else if (of_char c :: nat) < 32 then None
      else if ascii c then emit [c] (lex_str s)
      else if rune_len (c # s) = 0 then emit fffd (lex_str s)
      else emit (take (rune_len (c # s)) (c # s)) (lex_str (drop (rune_len (c # s)) (c # s))))"
  by pat_completeness auto
termination
  by (relation "measure length") (auto dest!: lex_escape_shorter)

declare lex_str.simps(2) [simp del]

lemma lex_str_shorter: "lex_str s = Some (v, t) \<Longrightarrow> length t < length s"
proof (induction s arbitrary: v t rule: lex_str.induct)
  case 1
  then show ?case by simp
next
  case (2 c s)
  have "length x \<le> length s" if "x = drop (rune_len (c # s)) (c # s)" "rune_len (c # s) \<noteq> 0" for x
    using that by simp
  with 2 show ?case
    by (fastforce simp: lex_str.simps(2) emit_def split: if_splits option.splits prod.splits
        dest!: lex_escape_shorter)
qed

section \<open>Reading: tokens\<close>

datatype jtok = TObj | TObjEnd | TArr | TArrEnd | TColon | TComma
  | TStr string | TNum bool nat int | TTrue | TFalse | TNull

definition json_space :: "char \<Rightarrow> bool" where
  "json_space c \<longleftrightarrow> c \<in> {CHR 0x20, CHR 0x09, CHR 0x0A, CHR 0x0D}"

definition punct :: "char \<Rightarrow> jtok option" where
  "punct c =
     (if c = CHR ''{'' then Some TObj else if c = CHR ''}'' then Some TObjEnd
      else if c = CHR ''['' then Some TArr else if c = CHR '']'' then Some TArrEnd
      else if c = CHR '':'' then Some TColon else if c = CHR '','' then Some TComma else None)"

text \<open>One token that is not a space: its value and what follows it.\<close>

definition lex_tok :: "string \<Rightarrow> (jtok \<times> string) option" where
  "lex_tok s =
     (case s of [] \<Rightarrow> None
      | c # r \<Rightarrow>
          (case punct c of
             Some t \<Rightarrow> Some (t, r)
           | None \<Rightarrow>
               if c = dquote then map_option (\<lambda>(v, t). (TStr v, t)) (lex_str r)
               else if c = CHR ''-'' then
                 map_option (\<lambda>((m, e), t). (TNum True m e, t)) (lex_unsigned r)
               else if is_digit c then
                 map_option (\<lambda>((m, e), t). (TNum False m e, t)) (lex_unsigned s)
               else if has_prefix s ''true'' then Some (TTrue, drop 4 s)
               else if has_prefix s ''false'' then Some (TFalse, drop 5 s)
               else if has_prefix s ''null'' then Some (TNull, drop 4 s)
               else None))"

lemma lex_tok_shorter: "lex_tok s = Some (t, r) \<Longrightarrow> length r < length s"
  by (cases s)
    (auto simp: lex_tok_def split: if_splits option.splits
      dest!: lex_str_shorter lex_unsigned_shorter)

function json_lex :: "string \<Rightarrow> jtok list option" where
  "json_lex [] = Some []"
| "json_lex (c # s) =
     (if json_space c then json_lex s
      else (case lex_tok (c # s) of
              None \<Rightarrow> None
            | Some (t, r) \<Rightarrow> map_option (\<lambda>ts. t # ts) (json_lex r)))"
  by pat_completeness auto
termination
  by (relation "measure length") (auto dest!: lex_tok_shorter)

declare json_lex.simps(2) [simp del]


section \<open>Reading: values\<close>

text \<open>
  \<open>jraw\<close> is a value as it is written: the members of an object in the order of the text, repeated
  keys included, and a number as sign, digits and exponent.  \<open>json\<close> is the value \<open>interface{}\<close> holds
  after \<open>Unmarshal\<close>: a number is the float64 it was rounded to (sign, and \<open>q * 2 ^ k\<close>), an object is
  a map, in which a repeated key overwrites.
\<close>

datatype jraw =
    RNull | RBool bool | RNum bool nat int | RStr string
  | RArr "jraw list" | RObj "(string \<times> jraw) list"

datatype json =
    JNull | JBool bool | JNum bool "nat \<times> int" | JStr string
  | JArr "json list" | JObj "(string \<times> json) list"

text \<open>Where the machine stands: it wants a value; a value or the end of an array; a key or the
  end of an object; a key; a colon; or it has just read a value.  A frame is an array with its
  elements so far (last first), or an object with its members so far and the key being read.\<close>

datatype jmode =
    Want | WantOrEnd | KeyOrEnd | Key "(string \<times> jraw) list"
  | Colon "(string \<times> jraw) list" string | After jraw

datatype jframe = FArr "jraw list" | FObj "(string \<times> jraw) list" string

type_synonym jstate = "jmode \<times> jframe list"

definition max_nesting :: nat where
  "max_nesting = 10000"

definition want_step :: "jframe list \<Rightarrow> jtok \<Rightarrow> jstate option" where
  "want_step fs t =
     (case t of
        TObj \<Rightarrow> if length fs < max_nesting then Some (KeyOrEnd, fs) else None
      | TArr \<Rightarrow> if length fs < max_nesting then Some (WantOrEnd, fs) else None
      | TStr s \<Rightarrow> Some (After (RStr s), fs)
      | TNum neg m e \<Rightarrow> Some (After (RNum neg m e), fs)
      | TTrue \<Rightarrow> Some (After (RBool True), fs)
      | TFalse \<Rightarrow> Some (After (RBool False), fs)
      | TNull \<Rightarrow> Some (After RNull, fs)
      | _ \<Rightarrow> None)"

definition after_step :: "jraw \<Rightarrow> jframe list \<Rightarrow> jtok \<Rightarrow> jstate option" where
  "after_step v fs t =
     (case fs of
        [] \<Rightarrow> None
      | FArr vs # fs' \<Rightarrow>
          (case t of
             TComma \<Rightarrow> Some (Want, FArr (v # vs) # fs')
           | TArrEnd \<Rightarrow> Some (After (RArr (rev (v # vs))), fs')
           | _ \<Rightarrow> None)
      | FObj ms k # fs' \<Rightarrow>
          (case t of
             TComma \<Rightarrow> Some (Key (ms @ [(k, v)]), fs')
           | TObjEnd \<Rightarrow> Some (After (RObj (ms @ [(k, v)])), fs')
           | _ \<Rightarrow> None))"

fun jstep :: "jstate \<Rightarrow> jtok \<Rightarrow> jstate option" where
  "jstep (Want, fs) t = want_step fs t"
| "jstep (WantOrEnd, fs) t =
     (if t = TArrEnd then Some (After (RArr []), fs) else want_step (FArr [] # fs) t)"
| "jstep (KeyOrEnd, fs) t =
     (case t of TObjEnd \<Rightarrow> Some (After (RObj []), fs) | TStr k \<Rightarrow> Some (Colon [] k, fs) | _ \<Rightarrow> None)"
| "jstep (Key ms, fs) t = (case t of TStr k \<Rightarrow> Some (Colon ms k, fs) | _ \<Rightarrow> None)"
| "jstep (Colon ms k, fs) t = (if t = TColon then Some (Want, FObj ms k # fs) else None)"
| "jstep (After v, fs) t = after_step v fs t"

fun jrun :: "jstate \<Rightarrow> jtok list \<Rightarrow> jraw option" where
  "jrun st [] = (case st of (After v, []) \<Rightarrow> Some v | _ \<Rightarrow> None)"
| "jrun st (t # ts) = (case jstep st t of None \<Rightarrow> None | Some st' \<Rightarrow> jrun st' ts)"

definition raw_parse :: "string \<Rightarrow> jraw option" where
  "raw_parse s = (case json_lex s of None \<Rightarrow> None | Some ts \<Rightarrow> jrun (Want, []) ts)"

text \<open>The value in \<open>interface{}\<close>; a number beyond float64 is an error.\<close>

fun raw_value :: "jraw \<Rightarrow> json option" where
  "raw_value RNull = Some JNull"
| "raw_value (RBool b) = Some (JBool b)"
| "raw_value (RNum neg m e) = map_option (JNum neg) (to_float m e)"
| "raw_value (RStr s) = Some (JStr s)"
| "raw_value (RArr vs) = map_option JArr (those (map raw_value vs))"
| "raw_value (RObj ms) =
     map_option (\<lambda>l. JObj (fold (\<lambda>(k, v). gm_put k v) l []))
       (those (map (\<lambda>(k, v). map_option (Pair k) (raw_value v)) ms))"

definition json_parse :: "string \<Rightarrow> json option" where
  "json_parse s = Option.bind (raw_parse s) raw_value"

text \<open>\<open>json.Unmarshal\<close> into \<open>map[string]interface{}\<close>: \<open>null\<close> leaves the map nil.\<close>

definition unmarshal_map :: "string \<Rightarrow> (string \<times> json) list option" where
  "unmarshal_map s =
     (case json_parse s of
        Some (JObj ms) \<Rightarrow> Some ms
      | Some JNull \<Rightarrow> Some []
      | _ \<Rightarrow> None)"

section \<open>Round trip: strings\<close>

lemma emit_emit [simp]: "emit p (emit q x) = emit (p @ q) x"
  by (cases x) (auto simp: emit_def)

lemma emit_Some [simp]: "emit p (Some (v, r)) = Some (p @ v, r)"
  by (simp add: emit_def)

lemma hex_val_hex_digit [simp]: "n < 16 \<Longrightarrow> hex_val (hex_digit n) = Some n"
  by (simp add: hex_val_def hex_digit_def Let_def)

lemma hex4_byte: "hex4 (CHR ''0'' # CHR ''0'' # hex_byte c @ t) = Some (of_char c, t)"
  by (simp add: hex_byte_def Let_def hex_val_def [of "CHR ''0''"] less_mult_imp_div_less
      div_mult_mod_eq)

lemma code_unit_ascii: "ascii c \<Longrightarrow> code_unit (of_char c) t = ([c], t)"
  by (simp add: code_unit_def utf8_enc_def ascii_def)

lemma lex_str_esc_ascii:
  assumes "ascii c"
  shows "lex_str (esc_ascii c @ t) = emit [c] (lex_str t)"
proof -
  let ?simple = "c \<in> {dquote, bslash, CHR 0x08, CHR 0x0C, CHR 0x0A, CHR 0x0D, CHR 0x09}"
  let ?code = "(of_char c :: nat) < 32 \<or> c \<in> {CHR ''<'', CHR ''>'', CHR ''&''}"
  consider (simple) ?simple | (code) "\<not> ?simple" ?code | (plain) "\<not> ?simple" "\<not> ?code"
    by blast
  then show ?thesis
  proof cases
    case simple
    then show ?thesis
      by (elim insertE) (simp_all add: esc_ascii_def lex_str.simps(2) simple_escape_def json_chars)
  next
    case code
    then have "esc_ascii c = [bslash, CHR ''u'', CHR ''0'', CHR ''0''] @ hex_byte c"
      by (simp only: esc_ascii_def insert_iff de_Morgan_disj simp_thms if_False if_True)
    moreover have "lex_escape (CHR ''u'' # CHR ''0'' # CHR ''0'' # hex_byte c @ t) = Some ([c], t)"
      using assms by (simp add: simple_escape_def json_chars hex4_byte code_unit_ascii)
    ultimately show ?thesis
      by (simp add: lex_str.simps(2) json_chars)
  next
    case plain
    then have "esc_ascii c = [c]"
      by (simp only: esc_ascii_def insert_iff de_Morgan_disj simp_thms if_False if_True)
    with assms plain show ?thesis by (simp add: lex_str.simps(2))
  qed
qed

lemma lex_str_rune:
  assumes "\<not> ascii (hd r)" and "rune_len r = length r" and "r \<noteq> []"
  shows "lex_str (r @ t) = emit r (lex_str t)"
proof -
  obtain c s where r: "r = c # s" using assms(3) by (cases r) auto
  have n: "rune_len (c # s @ t) = Suc (length s)"
    using rune_len_take [of r t] assms(2) r by simp
  have "c \<noteq> dquote" "c \<noteq> bslash" "\<not> (of_char c :: nat) < 32"
    using assms(1) r by (auto simp: ascii_def json_chars)
  with n assms(1) r show ?thesis by (simp add: lex_str.simps(2))
qed

text \<open>The three escapes for runes that are not ASCII.\<close>

lemma utf8_enc_seps:
  "utf8_enc 65533 = fffd"
  "utf8_enc 8232 = [CHR 0xE2, CHR 0x80, CHR 0xA8]"
  "utf8_enc 8233 = [CHR 0xE2, CHR 0x80, CHR 0xA9]"
  by (simp_all add: utf8_enc_def fffd_def char_of_eq_iff)

lemma lex_str_u:
  "lex_str (bslash # CHR ''u'' # CHR ''f'' # CHR ''f'' # CHR ''f'' # CHR ''d'' # t) =
     emit fffd (lex_str t)"
  "lex_str (bslash # CHR ''u'' # CHR ''2'' # CHR ''0'' # CHR ''2'' # CHR ''8'' # t) =
     emit [CHR 0xE2, CHR 0x80, CHR 0xA8] (lex_str t)"
  "lex_str (bslash # CHR ''u'' # CHR ''2'' # CHR ''0'' # CHR ''2'' # CHR ''9'' # t) =
     emit [CHR 0xE2, CHR 0x80, CHR 0xA9] (lex_str t)"
  by (simp_all add: lex_str.simps(2) json_chars simple_escape_def hex_val_def code_unit_def
      utf8_enc_seps)

lemma rune_len_line_sep:
  "rune_len (CHR 0xE2 # CHR 0x80 # CHR 0xA8 # t) = 3"
  "rune_len (CHR 0xE2 # CHR 0x80 # CHR 0xA9 # t) = 3"
  by (simp_all add: rune_len_3 ascii_def rune2_def rune3_def cont_byte_def)

text \<open>A string written by \<open>Marshal\<close> is read back, whatever follows it.\<close>

lemma lex_str_esc: "lex_str (json_esc s @ dquote # t) = Some (to_valid s, t)"
proof (induction s rule: json_esc.induct)
  case 1
  then show ?case by (simp add: lex_str.simps(2))
next
  case (2 c s)
  let ?n = "rune_len (c # s)"
  consider (asc) "ascii c" | (bad) "\<not> ascii c" "?n = 0"
    | (ls) "\<not> ascii c" "?n \<noteq> 0" "take 3 (c # s) = [CHR 0xE2, CHR 0x80, CHR 0xA8]"
    | (ps) "\<not> ascii c" "?n \<noteq> 0" "take 3 (c # s) = [CHR 0xE2, CHR 0x80, CHR 0xA9]"
    | (rune) "\<not> ascii c" "?n \<noteq> 0" "take 3 (c # s) \<noteq> [CHR 0xE2, CHR 0x80, CHR 0xA8]"
        "take 3 (c # s) \<noteq> [CHR 0xE2, CHR 0x80, CHR 0xA9]"
    by blast
  then show ?case
  proof cases
    case asc
    with 2 show ?thesis by (simp add: lex_str_esc_ascii)
  next
    case bad
    with 2 show ?thesis by (simp add: lex_str_u)
  next
    case ls
    then obtain t' where "c # s = CHR 0xE2 # CHR 0x80 # CHR 0xA8 # t'"
      by (metis append_take_drop_id append_Cons append_Nil)
    with 2 ls show ?thesis by (simp add: lex_str_u rune_len_line_sep)
  next
    case ps
    then obtain t' where "c # s = CHR 0xE2 # CHR 0x80 # CHR 0xA9 # t'"
      by (metis append_take_drop_id append_Cons append_Nil)
    with 2 ps show ?thesis by (simp add: lex_str_u rune_len_line_sep)
  next
    case rune
    let ?r = "take ?n (c # s)"
    have "rune_len ?r = ?n" using rune_len_take [of "c # s" "[]"] rune by simp
    then have len: "rune_len ?r = length ?r" using rune_len_le [of "c # s"] by simp
    have hd: "\<not> ascii (hd ?r)" and ne: "?r \<noteq> []" using rune by (auto simp: hd_take)
    have "lex_str (?r @ json_esc (drop ?n (c # s)) @ dquote # t) =
        emit ?r (lex_str (json_esc (drop ?n (c # s)) @ dquote # t))"
      by (rule lex_str_rune [OF hd len ne])
    moreover have "lex_str (json_esc (drop ?n (c # s)) @ dquote # t) =
        Some (to_valid (drop ?n (c # s)), t)"
      using 2(5) rune by blast
    moreover have "json_esc (c # s) = ?r @ json_esc (drop ?n (c # s))"
      by (simp only: json_esc.simps(2) rune if_False)
    moreover have "to_valid (c # s) = ?r @ to_valid (drop ?n (c # s))"
      by (simp only: to_valid.simps(2) rune if_False)
    ultimately show ?thesis by (simp only: emit_Some append_assoc)
  qed
qed


section \<open>Round trip: numbers\<close>

definition ends_number :: "string \<Rightarrow> bool" where
  "ends_number t \<longleftrightarrow>
     (case t of [] \<Rightarrow> True
      | c # _ \<Rightarrow> \<not> is_digit c \<and> c \<noteq> CHR ''.'' \<and> c \<noteq> CHR ''e'' \<and> c \<noteq> CHR ''E'')"

lemma dec_nat_span:
  assumes "ends_number t"
  shows "takeWhile is_digit (dec_nat n @ t) = dec_nat n"
    and "dropWhile is_digit (dec_nat n @ t) = t"
proof -
  have all: "\<forall>c\<in>set (dec_nat n). is_digit c" using dec_nat_digits by blast
  have "takeWhile is_digit t = []" "dropWhile is_digit t = t"
    using assms by (cases t; simp add: ends_number_def)+
  with all show "takeWhile is_digit (dec_nat n @ t) = dec_nat n"
    and "dropWhile is_digit (dec_nat n @ t) = t"
    by (simp_all add: takeWhile_append dropWhile_append)
qed

lemma lex_int_dec_nat:
  assumes "ends_number t"
  shows "lex_int (dec_nat n @ t) = Some (dec_nat n, t)"
proof (cases "n = 0")
  case True
  then show ?thesis
    by (simp add: dec_nat.simps [of 0] digit_char_def lex_int_def char_of_eq_iff)
next
  case False
  obtain c r where dn: "dec_nat n = c # r" using dec_nat_not_Nil by (cases "dec_nat n") auto
  then have "c \<noteq> CHR ''0''" "is_digit c"
    using dec_nat_hd [OF False] dec_nat_digits [of c n] by auto
  with dn dec_nat_span [OF assms, of n] show ?thesis by (simp add: lex_int_def)
qed

lemma lex_unsigned_dec_nat:
  assumes "ends_number t"
  shows "lex_unsigned (dec_nat n @ t) = Some ((n, 0), t)"
proof -
  have "lex_frac t = Some ([], t)" "lex_exp t = Some (0, t)"
    using assms by (cases t; simp add: ends_number_def lex_frac_def lex_exp_def)+
  then show ?thesis by (simp add: lex_unsigned_def lex_int_dec_nat [OF assms])
qed

lemma bit_len_0_1 [simp]: "bit_len 0 = 0" "bit_len (Suc 0) = 1"
  by (simp_all add: bit_len.simps [of 0] bit_len.simps [of "Suc 0"])

lemma bit_len_bounds: "0 < n \<Longrightarrow> 0 < bit_len n \<and> 2 ^ (bit_len n - 1) \<le> n \<and> n < 2 ^ bit_len n"
proof (induction n rule: bit_len.induct)
  case (1 n)
  show ?case
  proof (cases "n = 1")
    case True
    then show ?thesis by simp
  next
    case False
    with "1.prems" have "0 < n div 2" by auto
    with "1.IH" "1.prems" have "0 < bit_len (n div 2)"
      "2 ^ (bit_len (n div 2) - 1) \<le> n div 2" "n div 2 < 2 ^ bit_len (n div 2)" by auto
    moreover have "bit_len n = Suc (bit_len (n div 2))"
      using "1.prems" by (simp add: bit_len.simps [of n])
    moreover obtain b where "bit_len (n div 2) = Suc b"
      using calculation(1) by (cases "bit_len (n div 2)") auto
    moreover have "2 * c \<le> n \<and> n < 4 * c" if "c \<le> n div 2" "n div 2 < 2 * c" for c :: nat
      using that by linarith
    ultimately show ?thesis by simp
  qed
qed

lemma round_even_1 [simp]: "round_even (m, 1) = m"
  by (simp add: round_even_def)

text \<open>An integer below \<open>2 ^ 53\<close> is read exactly.\<close>

lemma to_float_exact:
  assumes "n < 2 ^ 53"
  shows "\<exists>f. to_float n 0 = Some f \<and> float_trunc f = n"
proof (cases "n = 0")
  case True
  then show ?thesis by (simp add: to_float_def float_trunc_def)
next
  case False
  define b where "b = bit_len n"
  have b: "0 < b" "2 ^ (b - 1) \<le> n"
    using bit_len_bounds [of n] False by (simp_all add: b_def)
  have "(2 :: nat) ^ (b - 1) < 2 ^ 53" using b(2) assms by linarith
  then have "b - 1 < 53" by (rule power_less_imp_less_exp [rotated]) simp
  then have b53: "b \<le> 53" by simp
  have "(2 :: nat) ^ 53 = 2 ^ (b - 1) * 2 ^ (54 - b)"
    using b(1) b53 by (simp add: power_add [symmetric])
  also have "\<dots> \<le> n * 2 ^ (54 - b)" using b(2) by simp
  finally have big: "2 ^ 53 \<le> n * 2 ^ (54 - b)" .
  have neg: "nat (54 - int b) = 54 - b" using b53 by simp
  have k: "float_exp n 1 = int b - 53"
    using big b53 b(1) by (simp add: float_exp_def b_def [symmetric] scaled_def Let_def neg)
  have q: "round_even (scaled (int b - 53) n 1) = n * 2 ^ (53 - b)"
  proof (cases "b = 53")
    case True
    then show ?thesis by (simp add: scaled_def round_even_def)
  next
    case False
    then have "nat (53 - int b) = 53 - b" using b53 by simp
    with False b53 show ?thesis by (simp add: scaled_def round_even_def)
  qed
  have "to_float n 0 = Some (n * 2 ^ (53 - b), int b - 53)"
    using \<open>n \<noteq> 0\<close> b53 by (simp add: to_float_def Let_def k [unfolded One_nat_def] q [unfolded One_nat_def])
  moreover have "float_trunc (n * 2 ^ (53 - b), int b - 53) = n"
  proof (cases "b = 53")
    case True
    then show ?thesis by (simp add: float_trunc_def)
  next
    case False
    then have "nat (53 - int b) = 53 - b" using b53 by simp
    with False b53 show ?thesis by (simp add: float_trunc_def)
  qed
  ultimately show ?thesis by blast
qed

section \<open>Round trip: objects\<close>

fun jval_tok :: "jval \<Rightarrow> jtok" where
  "jval_tok (VStr s) = TStr (to_valid s)"
| "jval_tok (VInt i) = TNum (i < 0) (nat \<bar>i\<bar>) 0"

text \<open>What a written value is read back as.\<close>

fun jval_json :: "jval \<Rightarrow> json" where
  "jval_json (VStr s) = JStr (to_valid s)"
| "jval_json (VInt i) = JNum (i < 0) (the (to_float (nat \<bar>i\<bar>) 0))"

fun jval_ok :: "jval \<Rightarrow> bool" where
  "jval_ok (VStr s) = True"
| "jval_ok (VInt i) = (\<bar>i\<bar> < 2 ^ 53)"

fun member_toks :: "(string \<times> jval) list \<Rightarrow> jtok list" where
  "member_toks [] = []"
| "member_toks [(k, v)] = [TStr (to_valid k), TColon, jval_tok v]"
| "member_toks ((k, v) # m # ms) =
     TStr (to_valid k) # TColon # jval_tok v # TComma # member_toks (m # ms)"

lemma float_int64_exact:
  assumes "\<bar>i\<bar> < 2 ^ 53"
  shows "float_int64 (i < 0) (the (to_float (nat \<bar>i\<bar>) 0)) = i"
proof -
  have "nat \<bar>i\<bar> < 2 ^ 53" using assms by (simp add: nat_less_iff)
  then obtain f where "to_float (nat \<bar>i\<bar>) 0 = Some f" "float_trunc f = nat \<bar>i\<bar>"
    using to_float_exact by blast
  moreover have "i < 2 ^ 63" "- (2 ^ 63) \<le> i" using assms by (auto simp: abs_less_iff)
  ultimately show ?thesis by (auto simp: float_int64_def Let_def)
qed

lemma json_lex_punct:
  "punct c = Some t \<Longrightarrow> json_lex (c # s) = map_option (\<lambda>ts. t # ts) (json_lex s)"
  by (auto simp: json_lex.simps(2) lex_tok_def json_space_def punct_def split: if_splits)

lemma json_lex_quote:
  "json_lex (json_quote k @ s) = map_option (\<lambda>ts. TStr (to_valid k) # ts) (json_lex s)"
  by (simp add: json_quote_def json_lex.simps(2) lex_tok_def json_space_def punct_def
      json_chars(2) lex_str_esc [unfolded json_chars(2)])

lemma json_lex_dec_nat:
  assumes "ends_number t"
  shows "json_lex (dec_nat n @ t) = map_option (\<lambda>ts. TNum False n 0 # ts) (json_lex t)"
proof -
  obtain c r where dn: "dec_nat n = c # r" using dec_nat_not_Nil by (cases "dec_nat n") auto
  then have d: "is_digit c" using dec_nat_digits [of c n] by simp
  then have "punct c = None" "\<not> json_space c" "c \<noteq> dquote" "c \<noteq> CHR ''-''"
    by (auto simp: is_digit_def punct_def json_space_def json_chars)
  with d dn lex_unsigned_dec_nat [OF assms, of n] show ?thesis
    by (simp add: json_lex.simps(2) lex_tok_def)
qed

lemma json_lex_enc:
  assumes "ends_number t"
  shows "json_lex (json_enc v @ t) = map_option (\<lambda>ts. jval_tok v # ts) (json_lex t)"
proof (cases v)
  case (VStr s)
  then show ?thesis by (simp add: json_lex_quote)
next
  case (VInt i)
  show ?thesis
  proof (cases "i < 0")
    case True
    with VInt lex_unsigned_dec_nat [OF assms, of "nat (- i)"] show ?thesis
      by (simp add: dec_int_def json_lex.simps(2) lex_tok_def json_space_def punct_def json_chars)
  next
    case False
    with VInt json_lex_dec_nat [OF assms, of "nat i"] show ?thesis
      by (simp add: dec_int_def)
  qed
qed

lemma ends_number_sep [simp]: "ends_number (CHR '','' # s)" "ends_number (CHR ''}'' # s)"
  by (simp_all add: ends_number_def is_digit_def)

lemma punct_simps [simp]:
  "punct (CHR ''{'') = Some TObj" "punct (CHR ''}'') = Some TObjEnd"
  "punct (CHR '':'') = Some TColon" "punct (CHR '','') = Some TComma"
  by (simp_all add: punct_def)

lemma json_lex_members:
  "json_lex (json_members ms @ CHR ''}'' # s) =
     map_option (\<lambda>ts. member_toks ms @ TObjEnd # ts) (json_lex s)"
  by (induction ms rule: json_members.induct)
    (simp_all add: json_lex_quote json_lex_enc json_lex_punct option.map_comp comp_def)

fun jval_raw :: "jval \<Rightarrow> jraw" where
  "jval_raw (VStr s) = RStr (to_valid s)"
| "jval_raw (VInt i) = RNum (i < 0) (nat \<bar>i\<bar>) 0"

abbreviation raw_members :: "(string \<times> jval) list \<Rightarrow> (string \<times> jraw) list" where
  "raw_members ms \<equiv> map (\<lambda>(k, v). (to_valid k, jval_raw v)) ms"

lemma want_step_val: "want_step fs (jval_tok v) = Some (After (jval_raw v), fs)"
  by (cases v) (simp_all add: want_step_def)

abbreviation put_members :: "(string \<times> jval) list \<Rightarrow> (string \<times> json) list \<Rightarrow> (string \<times> json) list" where
  "put_members ms acc \<equiv> fold (\<lambda>(k, v). gm_put (to_valid k) (jval_json v)) ms acc"

lemma jrun_members:
  "ms \<noteq> [] \<Longrightarrow>
     jrun (Key acc, []) (member_toks ms @ [TObjEnd]) = Some (RObj (acc @ raw_members ms))"
  by (induction ms arbitrary: acc rule: json_members.induct)
    (simp_all add: want_step_val after_step_def)

lemma jrun_object: "jrun (Want, []) (TObj # member_toks ms @ [TObjEnd]) = Some (RObj (raw_members ms))"
proof (cases ms)
  case Nil
  then show ?thesis by (simp add: want_step_def max_nesting_def)
next
  case (Cons m ms')
  then obtain k ts where toks: "member_toks ms = TStr k # ts"
    by (cases m; cases ms') auto
  have "jrun (Want, []) (TObj # member_toks ms @ [TObjEnd]) = jrun (Key [], []) (member_toks ms @ [TObjEnd])"
    by (simp add: want_step_def max_nesting_def toks)
  with jrun_members Cons show ?thesis by simp
qed

lemma those_map_Some: "those (map (\<lambda>x. Some (f x)) xs) = Some (map f xs)"
  by (induction xs) simp_all

lemma raw_value_val: "jval_ok v \<Longrightarrow> raw_value (jval_raw v) = Some (jval_json v)"
proof (cases v)
  case (VInt i)
  assume "jval_ok v"
  with VInt have "nat \<bar>i\<bar> < 2 ^ 53" by (simp add: nat_less_iff)
  then obtain f where "to_float (nat \<bar>i\<bar>) 0 = Some f"
    using to_float_exact by blast
  with VInt show ?thesis by simp
qed simp

lemma raw_value_members:
  assumes "list_all (jval_ok \<circ> snd) ms"
  shows "raw_value (RObj (raw_members ms)) = Some (JObj (put_members ms []))"
proof -
  have "map (\<lambda>(k, v). map_option (Pair k) (raw_value v)) (raw_members ms) =
      map (\<lambda>p. Some (to_valid (fst p), jval_json (snd p))) ms"
    using assms by (induction ms) (auto simp: raw_value_val)
  then show ?thesis
    by (simp add: those_map_Some fold_map comp_def split_beta' del: map_map)
qed

text \<open>Reading what \<open>Marshal\<close> wrote.\<close>

theorem json_parse_marshal:
  assumes "list_all (jval_ok \<circ> snd) m"
  shows "json_parse (json_marshal m) = Some (JObj (put_members (sort_key fst m) []))"
proof -
  have "list_all (jval_ok \<circ> snd) (sort_key fst m)"
    using assms by (simp add: list_all_iff)
  then show ?thesis
    by (simp add: json_parse_def raw_parse_def json_marshal_def json_lex_punct json_lex_members
        jrun_object raw_value_members del: raw_value.simps jrun.simps)
qed

lemma map_of_put_members:
  "map_of (put_members ms acc) =
     map_of acc ++ map_of (rev (map (\<lambda>(k, v). (to_valid k, jval_json v)) ms))"
  by (induction ms arbitrary: acc) (auto simp: map_add_def fun_eq_iff split: option.splits)

text \<open>Keys in ASCII and distinct: each member is found under its key.\<close>

lemma map_of_same_set:
  "distinct (map fst xs) \<Longrightarrow> distinct (map fst ys) \<Longrightarrow> set xs = set ys \<Longrightarrow> map_of xs = map_of ys"
  by (simp add: map_of_inject_set)

lemma lookup_marshal:
  assumes "list_all (jval_ok \<circ> snd) m" and "list_all (list_all ascii \<circ> fst) m"
    and "distinct (map fst m)"
  shows "\<exists>ms. unmarshal_map (json_marshal m) = Some ms \<and>
     (\<forall>k. map_of ms k = map_option jval_json (map_of m k))"
proof -
  let ?ms = "sort_key fst m"
  have keys: "map (\<lambda>(k, v). (to_valid k, jval_json v)) ?ms = map (\<lambda>(k, v). (k, jval_json v)) ?ms"
    using assms(2) by (auto simp: list_all_iff to_valid_ascii)
  have dist: "distinct (map fst (map (\<lambda>(k, v). (k, jval_json v)) ?ms))"
    using assms(3) by (simp add: comp_def case_prod_beta distinct_map inj_on_def)
  have perm: "map_of ?ms = map_of m"
    using assms(3) by (intro map_of_same_set) (simp_all add: distinct_map)
  have rev: "map_of (rev (map (\<lambda>(k, v). (k, jval_json v)) ?ms)) = map_of (map (\<lambda>(k, v). (k, jval_json v)) ?ms)"
    using dist by (intro map_of_same_set) (simp_all add: rev_map [symmetric])
  have "map_of (put_members ?ms []) k = map_option jval_json (map_of m k)" for k
    by (simp add: map_of_put_members keys rev map_of_map perm)
  moreover have "unmarshal_map (json_marshal m) = Some (put_members ?ms [])"
    by (simp add: unmarshal_map_def json_parse_marshal [OF assms(1)])
  ultimately show ?thesis by blast
qed

end
