(* ===== verification/Go_Time.thy ===== *)
theory Go_Time
  imports Go_Prelude
begin

text \<open>
  The calendar of package \<open>time\<close>, for the one layout the program uses to make identifiers,
  \<open>Format("20060102150405")\<close>.  Years are counted in cycles of 400, 100, 4 and 1, as the package
  does it.  The lemmas show that these texts order as the times do, for years of four digits.
\<close>

section \<open>The date of a day\<close>

text \<open>Days before the given year, counted from year 1 as 0.\<close>

definition days_before :: "int \<Rightarrow> int" where
  "days_before y = 365 * y + y div 4 - y div 100 + y div 400"

text \<open>The year (again from 0) and the day of the year of a day.\<close>

definition year_day :: "int \<Rightarrow> int \<times> int" where
  "year_day d =
     (let a = d div 146097; r = d mod 146097;
          b = min 3 (r div 36524); r1 = r - 36524 * b;
          c = r1 div 1461; r2 = r1 mod 1461;
          e = min 3 (r2 div 365)
      in (400 * a + 100 * b + 4 * c + e, r2 - 365 * e))"

definition leap :: "int \<Rightarrow> bool" where
  "leap year \<longleftrightarrow> year mod 4 = 0 \<and> (year mod 100 \<noteq> 0 \<or> year mod 400 = 0)"

definition month_lengths :: "bool \<Rightarrow> int list" where
  "month_lengths lp = [31, if lp then 29 else 28, 31, 30, 31, 30, 31, 31, 30, 31, 30, 31]"

fun month_day :: "int \<Rightarrow> int list \<Rightarrow> int \<Rightarrow> int \<times> int" where
  "month_day m [] d = (m, d + 1)"
| "month_day m (l # ls) d = (if d < l then (m, d + 1) else month_day (m + 1) ls (d - l))"

text \<open>Year, month, day, hour, minute and second of a number of seconds since 1970.\<close>

definition civil :: "int \<Rightarrow> int \<times> int \<times> int \<times> int \<times> int \<times> int" where
  "civil t =
     (case year_day (t div 86400 + 719162) of (y, yd) \<Rightarrow>
        (case month_day 1 (month_lengths (leap (y + 1))) yd of (mo, d) \<Rightarrow>
           let s = t mod 86400 in (y + 1, mo, d, s div 3600, s div 60 mod 60, s mod 60)))"

text \<open>\<open>appendInt(b, n, width)\<close>.\<close>

definition pad_int :: "nat \<Rightarrow> int \<Rightarrow> string" where
  "pad_int w n =
     (let ds = dec_nat (nat \<bar>n\<bar>) in
      (if n < 0 then ''-'' else []) @ replicate (w - length ds) (CHR ''0'') @ ds)"

definition stamp :: "int \<Rightarrow> string" where
  "stamp t =
     (case civil t of (y, mo, d, h, mi, s) \<Rightarrow>
        pad_int 4 y @ pad_int 2 mo @ pad_int 2 d @ pad_int 2 h @ pad_int 2 mi @ pad_int 2 s)"

section \<open>Days and dates correspond\<close>

lemma days_before_cycle:
  assumes "0 \<le> b" "b \<le> 3" "0 \<le> c" "c \<le> 24" "0 \<le> e" "e \<le> 3"
  shows "days_before (400 * a + 100 * b + 4 * c + e) = 146097 * a + 36524 * b + 1461 * c + 365 * e"
proof -
  have "(400 * a + 100 * b + 4 * c + e) div 4 = 100 * a + 25 * b + c" using assms by linarith
  moreover have "(400 * a + 100 * b + 4 * c + e) div 100 = 4 * a + b" using assms by linarith
  moreover have "(400 * a + 100 * b + 4 * c + e) div 400 = a" using assms by linarith
  ultimately show ?thesis by (simp add: days_before_def)
qed

lemma year_day_parts:
  obtains a b c e where "fst (year_day d) = 400 * a + 100 * b + 4 * c + e"
    "0 \<le> b" "b \<le> 3" "0 \<le> c" "c \<le> 24" "0 \<le> e" "e \<le> 3" "0 \<le> snd (year_day d)"
    "d = 146097 * a + 36524 * b + 1461 * c + 365 * e + snd (year_day d)"
    "e < 3 \<Longrightarrow> snd (year_day d) < 365" "snd (year_day d) < 366"
    "c = 24 \<Longrightarrow> b < 3 \<Longrightarrow> snd (year_day d) < 365"
proof -
  define a r where "a = d div 146097" and "r = d mod 146097"
  define b r1 where "b = min 3 (r div 36524)" and "r1 = r - 36524 * b"
  define c r2 where "c = r1 div 1461" and "r2 = r1 mod 1461"
  define e where "e = min 3 (r2 div 365)"
  have yd: "year_day d = (400 * a + 100 * b + 4 * c + e, r2 - 365 * e)"
    by (simp add: year_day_def Let_def a_def r_def b_def r1_def c_def r2_def e_def)
  have d: "d = 146097 * a + r" and r: "0 \<le> r" "r < 146097" by (simp_all add: a_def r_def)
  have b: "0 \<le> b" "b \<le> 3" using r by (simp_all add: b_def pos_imp_zdiv_nonneg_iff)
  have r1: "0 \<le> r1" "r1 \<le> 36524" "b < 3 \<Longrightarrow> r1 < 36524"
    using r unfolding r1_def b_def min_def by (auto split: if_splits)
  have c: "0 \<le> c" "c \<le> 24" using r1 by (auto simp: c_def pos_imp_zdiv_nonneg_iff)
  have rc: "r1 = 1461 * c + r2" and r2: "0 \<le> r2" "r2 < 1461" by (simp_all add: c_def r2_def)
  have e: "0 \<le> e" "e \<le> 3" "0 \<le> r2 - 365 * e" "r2 - 365 * e < 366" "e < 3 \<Longrightarrow> r2 - 365 * e < 365"
    using r2 unfolding e_def min_def by (auto simp: pos_imp_zdiv_nonneg_iff split: if_splits)
  show ?thesis
  proof (rule that [of a b c e])
    show "c = 24 \<Longrightarrow> b < 3 \<Longrightarrow> snd (year_day d) < 365"
      using r1(3) rc e(5) e(1,2) yd by (cases "e < 3") auto
  qed (use yd d b c e rc r1_def in auto)
qed

lemma year_day_days: "days_before (fst (year_day d)) + snd (year_day d) = d"
  by (rule year_day_parts [of d]) (simp add: days_before_cycle)

lemma year_day_bound:
  "0 \<le> snd (year_day d) \<and> snd (year_day d) < days_before (fst (year_day d) + 1) - days_before (fst (year_day d))"
proof (rule year_day_parts [of d])
  fix a b c e
  assume y: "fst (year_day d) = 400 * a + 100 * b + 4 * c + e"
    and r: "0 \<le> b" "b \<le> 3" "0 \<le> c" "c \<le> 24" "0 \<le> e" "e \<le> 3"
    and n: "0 \<le> snd (year_day d)" "e < 3 \<Longrightarrow> snd (year_day d) < 365" "snd (year_day d) < 366"
    "c = 24 \<Longrightarrow> b < 3 \<Longrightarrow> snd (year_day d) < 365"
  have db: "days_before (fst (year_day d)) = 146097 * a + 36524 * b + 1461 * c + 365 * e"
    using y r by (simp add: days_before_cycle)
  consider "e < 3" | "e = 3" "c < 24" | "e = 3" "c = 24" "b < 3" | "e = 3" "c = 24" "b = 3"
    using r by linarith
  then have "days_before (fst (year_day d) + 1) - days_before (fst (year_day d)) > snd (year_day d)"
  proof cases
    case 1
    with y r days_before_cycle [of b c "e + 1" a] db n show ?thesis by (simp add: add.assoc)
  next
    case 2
    with y r days_before_cycle [of b "c + 1" 0 a] db n show ?thesis by (simp add: add.assoc)
  next
    case 3
    with y r days_before_cycle [of "b + 1" 0 0 a] db n show ?thesis by (simp add: add.assoc)
  next
    case 4
    with y r days_before_cycle [of 0 0 0 "a + 1"] db n show ?thesis by (simp add: add.assoc)
  qed
  with n show ?thesis by simp
qed

lemma days_before_mono:
  assumes "x \<le> y"
  shows "days_before x \<le> days_before y"
  using assms
proof (induction y rule: int_ge_induct)
  case (step y)
  have "y div 4 \<le> (y + 1) div 4" "y div 400 \<le> (y + 1) div 400" by (simp_all add: zdiv_mono1)
  moreover have "(y + 1) div 100 \<le> y div 100 + 1"
    using zdiv_mono1 [of "y + 1" "y + 100" 100] by simp
  ultimately have "days_before y \<le> days_before (y + 1)"
    by (simp add: days_before_def distrib_left)
  with step show ?case by linarith
qed simp

text \<open>A later day has a later year, or the same year and a later day in it.\<close>

lemma year_day_mono:
  assumes "d < d'"
  shows "fst (year_day d) < fst (year_day d') \<or>
    fst (year_day d) = fst (year_day d') \<and> snd (year_day d) < snd (year_day d')"
proof (cases "fst (year_day d') < fst (year_day d)")
  case True
  then have "days_before (fst (year_day d') + 1) \<le> days_before (fst (year_day d))"
    by (simp add: days_before_mono)
  with year_day_days [of d] year_day_days [of d'] year_day_bound [of d] year_day_bound [of d'] assms
  show ?thesis by linarith
next
  case False
  with year_day_days [of d] year_day_days [of d'] assms show ?thesis by auto
qed

lemma month_day_mono:
  "d < d' \<Longrightarrow> fst (month_day m ls d) < fst (month_day m ls d') \<or>
     fst (month_day m ls d) = fst (month_day m ls d') \<and> snd (month_day m ls d) < snd (month_day m ls d')"
proof (induction ls arbitrary: m d d')
  case (Cons l ls)
  have ge: "m' \<le> fst (month_day m' ls x)" for m' x
  proof (induction ls arbitrary: m' x)
    case (Cons l ls)
    have "m' + 1 \<le> fst (month_day (m' + 1) ls (x - l))" by (rule Cons.IH)
    then show ?case by simp
  qed simp
  have "m < fst (month_day (m + 1) ls (d' - l))" using ge [of "m + 1" "d' - l"] by simp
  with Cons.IH [of "d - l" "d' - l" "m + 1"] Cons.prems show ?case by auto
qed simp

lemma month_day_range:
  "0 \<le> d \<Longrightarrow> d < sum_list ls \<Longrightarrow> \<forall>l \<in> set ls. l \<le> 31 \<Longrightarrow>
     m \<le> fst (month_day m ls d) \<and> fst (month_day m ls d) < m + int (length ls) \<and>
     1 \<le> snd (month_day m ls d) \<and> snd (month_day m ls d) \<le> 31"
proof (induction ls arbitrary: m d)
  case (Cons l ls)
  show ?case
  proof (cases "d < l")
    case False
    have "m + 1 \<le> fst (month_day (m + 1) ls (d - l)) \<and>
        fst (month_day (m + 1) ls (d - l)) < m + 1 + int (length ls) \<and>
        1 \<le> snd (month_day (m + 1) ls (d - l)) \<and> snd (month_day (m + 1) ls (d - l)) \<le> 31"
      using Cons.prems False by (intro Cons.IH) auto
    with False show ?thesis by simp
  qed (use Cons.prems in auto)
qed simp

section \<open>Texts\<close>

text \<open>For numbers of at most \<open>w\<close> digits, padding to \<open>w\<close> digits keeps the order.\<close>

fun fixed :: "nat \<Rightarrow> nat \<Rightarrow> string" where
  "fixed 0 n = []"
| "fixed (Suc w) n = fixed w (n div 10) @ [digit_char (n mod 10)]"

lemma length_fixed [simp]: "length (fixed w n) = w"
  by (induction w arbitrary: n) auto

lemma digit_char_less: "m < 10 \<Longrightarrow> n < 10 \<Longrightarrow> digit_char m < digit_char n \<longleftrightarrow> m < n"
  by (simp add: digit_char_def less_char_def)

lemma append_less_iff:
  fixes a b c d :: "'a :: linorder list"
  shows "length a = length c \<Longrightarrow> a @ b < c @ d \<longleftrightarrow> a < c \<or> a = c \<and> b < d"
proof (induction a c rule: list_induct2')
  case (4 x xs y ys)
  then show ?case by (auto simp: less_list_code)
qed auto

lemma mod_less_of_div_eq: "m < n \<Longrightarrow> m div 10 = n div 10 \<Longrightarrow> m mod 10 < n mod (10 :: nat)"
  by (metis add_less_cancel_left div_mult_mod_eq)

lemma fixed_less: "m < n \<Longrightarrow> n < 10 ^ w \<Longrightarrow> fixed w m < fixed w n"
proof (induction w arbitrary: m n)
  case (Suc w)
  consider (hi) "m div 10 < n div 10" | (lo) "m div 10 = n div 10" "m mod 10 < n mod 10"
    using Suc.prems(1) by (meson div_le_mono le_neq_implies_less less_imp_le mod_less_of_div_eq)
  then show ?case
  proof cases
    case hi
    have "n div 10 < 10 ^ w" using Suc.prems(2) by auto
    from Suc.IH [OF hi this] show ?thesis by (simp add: append_less_iff)
  next
    case lo
    have "digit_char (m mod 10) < digit_char (n mod 10)"
      using lo(2) by (subst digit_char_less) simp_all
    with lo(1) show ?thesis by (simp add: append_less_iff)
  qed
qed simp

lemma digit_char_0: "digit_char 0 = CHR ''0''"
  by code_simp

lemma fixed_dec_nat: "n < 10 ^ w \<Longrightarrow> 0 < w \<Longrightarrow> replicate (w - length (dec_nat n)) (CHR ''0'') @ dec_nat n = fixed w n \<and> length (dec_nat n) \<le> w"
proof (induction w arbitrary: n)
  case (Suc w)
  show ?case
  proof (cases "n < 10")
    case True
    have "fixed w 0 = replicate w (CHR ''0'')"
      by (induction w) (simp_all add: digit_char_0 replicate_append_same)
    with True have "fixed w (n div 10) = replicate w (CHR ''0'')" by simp
    with True show ?thesis by (simp add: dec_nat.simps [of n])
  next
    case False
    with Suc.prems have "n div 10 < 10 ^ w" "0 < w" by (auto intro: gr0I)
    with False Suc.IH [of "n div 10"] show ?thesis by (simp add: dec_nat.simps [of n])
  qed
qed simp

lemma pad_int_fixed: "0 \<le> n \<Longrightarrow> nat n < 10 ^ w \<Longrightarrow> 0 < w \<Longrightarrow> pad_int w n = fixed w (nat n)"
  using fixed_dec_nat [of "nat n" w] by (simp add: pad_int_def Let_def)

text \<open>The fields of a time are in their ranges, so the text has 14 digits.\<close>

definition year_ok :: "int \<Rightarrow> bool" where
  "year_ok t \<longleftrightarrow> 0 \<le> fst (civil t) \<and> fst (civil t) < 10000"

lemma month_lengths_sum:
  "sum_list (month_lengths lp) = (if lp then 366 else 365)" "\<forall>l \<in> set (month_lengths lp). l \<le> 31"
  "length (month_lengths lp) = 12"
  by (simp_all add: month_lengths_def)

lemma div_succ:
  fixes k y :: int
  assumes "1 < k"
  shows "(y + 1) div k = (if (y + 1) mod k = 0 then y div k + 1 else y div k)"
proof (cases "y mod k = k - 1")
  case True
  then have "y + 1 = k * (y div k + 1)"
    using mult_div_mod_eq [of k y] by (simp add: distrib_left)
  with assms show ?thesis by simp
next
  case False
  have "y mod k < k" "0 \<le> y mod k" using assms by simp_all
  with False have r: "0 \<le> y mod k + 1" "y mod k + 1 < k" by auto
  have "y + 1 = k * (y div k) + (y mod k + 1)"
    using mult_div_mod_eq [of k y] by simp
  with r have "(y + 1) div k = y div k" "(y + 1) mod k = y mod k + 1"
    by (metis int_div_pos_eq, metis int_mod_pos_eq)
  with \<open>0 \<le> y mod k\<close> show ?thesis by simp
qed

lemma year_sum:
  fixes a b c p q r y :: int
  shows "365 * (y + 1) + (a + p) - (b + q) + (c + r) - (365 * y + a - b + c) = 365 + p - q + r"
  by simp

lemma year_length: "days_before (y + 1) - days_before y = (if leap (y + 1) then 366 else 365)"
proof -
  have "(y + 1) mod 400 = 0 \<Longrightarrow> (y + 1) mod 100 = 0" "(y + 1) mod 100 = 0 \<Longrightarrow> (y + 1) mod 4 = 0"
    unfolding mod_eq_0_iff_dvd by (erule dvd_trans [rotated], simp)+
  moreover define P where "P k \<longleftrightarrow> (y + 1) mod k = 0" for k
  ultimately have P: "P 400 \<Longrightarrow> P 100" "P 100 \<Longrightarrow> P 4" by simp_all
  have q: "1 < k \<Longrightarrow> (y + 1) div k = y div k + (if P k then 1 else 0)" for k
    using div_succ by (simp add: P_def)
  have q4: "(y + 1) div 4 = y div 4 + (if P 4 then 1 else 0)" by (rule q) simp
  have q100: "(y + 1) div 100 = y div 100 + (if P 100 then 1 else 0)" by (rule q) simp
  have q400: "(y + 1) div 400 = y div 400 + (if P 400 then 1 else 0)" by (rule q) simp
  have "days_before (y + 1) - days_before y =
      365 + (if P 4 then 1 else 0) - (if P 100 then 1 else 0) + (if P 400 then 1 else 0)"
    unfolding days_before_def q4 q100 q400 by (rule year_sum)
  then have s: "days_before (y + 1) - days_before y =
      (if (P 4 \<and> (\<not> P 100 \<or> P 400)) then 366 else 365)"
    using P by (simp only:) (cases "P 4"; cases "P 100"; cases "P 400"; simp only: simp_thms if_True if_False; simp)
  have "leap (y + 1) \<longleftrightarrow> P 4 \<and> (\<not> P 100 \<or> P 400)"
    unfolding leap_def P_def by (rule refl)
  with s show ?thesis by metis
qed

lemma civil_date:
  "civil t = (fst (year_day (t div 86400 + 719162)) + 1,
     fst (month_day 1 (month_lengths (leap (fst (year_day (t div 86400 + 719162)) + 1)))
            (snd (year_day (t div 86400 + 719162)))),
     snd (month_day 1 (month_lengths (leap (fst (year_day (t div 86400 + 719162)) + 1)))
            (snd (year_day (t div 86400 + 719162)))),
     t mod 86400 div 3600, t mod 86400 div 60 mod 60, t mod 86400 mod 60)"
  by (simp add: civil_def Let_def split: prod.split)

lemma civil_ranges:
  assumes "civil t = (y, mo, d, h, mi, s)"
  shows "1 \<le> mo \<and> mo \<le> 12 \<and> 1 \<le> d \<and> d \<le> 31" and "0 \<le> h \<and> h < 24 \<and> 0 \<le> mi \<and> mi < 60 \<and> 0 \<le> s \<and> s < 60"
proof -
  let ?n = "t div 86400 + 719162"
  let ?ls = "month_lengths (leap (fst (year_day ?n) + 1))"
  have "0 \<le> snd (year_day ?n)" "snd (year_day ?n) < sum_list ?ls"
    using year_day_bound [of ?n] year_length [of "fst (year_day ?n)"]
    by (simp_all only: month_lengths_sum)
  from month_day_range [OF this month_lengths_sum(2), of 1] assms
  show "1 \<le> mo \<and> mo \<le> 12 \<and> 1 \<le> d \<and> d \<le> 31"
    by (auto simp: civil_date month_lengths_sum)
  define r where "r = t mod 86400"
  have r: "0 \<le> r" "r < 86400" by (simp_all add: r_def)
  have "h = r div 3600" "mi = r div 60 mod 60" "s = r mod 60"
    using assms by (simp_all add: civil_date r_def)
  moreover have "0 \<le> r div 3600" using r by (simp add: pos_imp_zdiv_nonneg_iff)
  moreover have "r div 3600 < 24" using r by linarith
  ultimately show "0 \<le> h \<and> h < 24 \<and> 0 \<le> mi \<and> mi < 60 \<and> 0 \<le> s \<and> s < 60" by simp
qed

text \<open>A later time has a later date, field by field.\<close>

fun lex_less :: "int list \<Rightarrow> int list \<Rightarrow> bool" where
  "lex_less (x # xs) (y # ys) \<longleftrightarrow> x < y \<or> x = y \<and> lex_less xs ys"
| "lex_less _ _ \<longleftrightarrow> False"

definition fields :: "int \<Rightarrow> int list" where
  "fields t = (case civil t of (y, mo, d, h, mi, s) \<Rightarrow> [y, mo, d, h, mi, s])"

lemma clock_split:
  fixes r r' :: int
  assumes "r < r'"
  shows "lex_less [r div 3600, r div 60 mod 60, r mod 60] [r' div 3600, r' div 60 mod 60, r' mod 60]"
proof -
  have e: "x div 3600 = x div 60 div 60" for x :: int by (simp add: div_mult2_eq [symmetric] zdiv_zmult2_eq)
  have q: "x div 60 < y div 60 \<or> x div 60 = y div 60 \<and> x mod 60 < y mod 60" if "x < y" for x y :: int
  proof -
    have "x div 60 \<le> y div 60" using that by (simp add: zdiv_mono1)
    moreover have "x mod 60 < y mod 60" if "x div 60 = y div 60"
      using that \<open>x < y\<close> by (metis add_less_cancel_left mult_div_mod_eq)
    ultimately show ?thesis by linarith
  qed
  from q [OF assms] q [of "r div 60" "r' div 60"] show ?thesis
    unfolding e lex_less.simps by metis
qed

definition day_fields :: "int \<Rightarrow> int list" where
  "day_fields n =
     (case year_day n of (y, yd) \<Rightarrow>
        (case month_day 1 (month_lengths (leap (y + 1))) yd of (mo, d) \<Rightarrow> [y + 1, mo, d]))"

definition clock_fields :: "int \<Rightarrow> int list" where
  "clock_fields r = [r div 3600, r div 60 mod 60, r mod 60]"

lemma fields_alt: "fields t = day_fields (t div 86400 + 719162) @ clock_fields (t mod 86400)"
  unfolding fields_def civil_def day_fields_def clock_fields_def Let_def
  by (simp only: split_beta append.simps fst_conv snd_conv)

lemma lex_less_append:
  "length xs = length ys \<Longrightarrow> lex_less (xs @ us) (ys @ vs) \<longleftrightarrow> lex_less xs ys \<or> xs = ys \<and> lex_less us vs"
  by (induction xs ys rule: list_induct2) auto

lemma day_fields_mono: "m < n \<Longrightarrow> lex_less (day_fields m) (day_fields n)"
  using year_day_mono [of m n]
    month_day_mono [of "snd (year_day m)" "snd (year_day n)" 1 "month_lengths (leap (fst (year_day n) + 1))"]
  by (auto simp: day_fields_def split_beta)

lemma fields_mono:
  assumes "t < t'"
  shows "lex_less (fields t) (fields t')"
proof -
  have len: "length (day_fields m) = length (day_fields n)" for m n
    by (simp add: day_fields_def split_beta)
  have "t div 86400 \<le> t' div 86400" using assms by (simp add: zdiv_mono1)
  then consider (day) "t div 86400 + 719162 < t' div 86400 + 719162" | (clock) "t div 86400 = t' div 86400"
    by linarith
  then show ?thesis
  proof cases
    case day
    from day_fields_mono [OF this] show ?thesis
      unfolding fields_alt lex_less_append [OF len] by blast
  next
    case clock
    then have "t mod 86400 < t' mod 86400"
      using assms by (metis add_less_cancel_left mult_div_mod_eq)
    from clock_split [OF this] clock show ?thesis
      unfolding fields_alt lex_less_append [OF len] clock_fields_def by (simp only: simp_thms)
  qed
qed

text \<open>The text of a time is the text of its fields, so later times have later texts.\<close>

definition widths :: "nat list" where
  "widths = [4, 2, 2, 2, 2, 2]"

definition fits :: "nat \<Rightarrow> int \<Rightarrow> bool" where
  "fits w n \<longleftrightarrow> 0 < w \<and> 0 \<le> n \<and> n < 10 ^ w"

lemma fits_nat: "fits w n \<Longrightarrow> nat n < 10 ^ w"
  by (simp add: fits_def nat_less_iff)

lemma stamp_fields: "stamp t = concat (map2 pad_int widths (fields t))"
  by (simp add: stamp_def fields_def widths_def split: prod.split)

lemma length_pad_int: "fits w n \<Longrightarrow> length (pad_int w n) = w"
  using fits_nat [of w n] by (simp add: fits_def pad_int_fixed)

lemma pad_int_less: "fits w m \<Longrightarrow> fits w n \<Longrightarrow> m < n \<Longrightarrow> pad_int w m < pad_int w n"
  using fits_nat [of w m] fits_nat [of w n] by (simp add: fits_def pad_int_fixed fixed_less)

lemma pad_fields_less:
  "list_all2 fits ws fs \<Longrightarrow> list_all2 fits ws gs \<Longrightarrow> lex_less fs gs \<Longrightarrow>
     concat (map2 pad_int ws fs) < concat (map2 pad_int ws gs)"
proof (induction ws arbitrary: fs gs)
  case (Cons w ws)
  then obtain f fs' g gs' where fg: "fs = f # fs'" "gs = g # gs'" and fit: "fits w f" "fits w g"
    and rest: "list_all2 fits ws fs'" "list_all2 fits ws gs'"
    by (auto simp: list_all2_Cons1)
  have len: "length (pad_int w f) = length (pad_int w g)" using fit by (simp add: length_pad_int)
  from Cons.prems(3) fg consider "f < g" | "f = g" "lex_less fs' gs'" by auto
  then show ?case
  proof cases
    case 1
    with pad_int_less [OF fit] show ?thesis by (simp add: fg append_less_iff [OF len])
  next
    case 2
    with Cons.IH [OF rest] show ?thesis by (simp add: fg append_less_iff [OF refl])
  qed
qed simp

lemma fields_fit: "year_ok t \<Longrightarrow> list_all2 fits widths (fields t)"
proof -
  obtain y mo d h mi s where c: "civil t = (y, mo, d, h, mi, s)" by (metis prod_cases6)
  assume "year_ok t"
  with c have "0 \<le> y" "y < 10000" by (simp_all add: year_ok_def)
  with civil_ranges [OF c] show ?thesis
    by (simp add: fields_def c widths_def fits_def)
qed

lemma stamp_mono: "t < t' \<Longrightarrow> year_ok t \<Longrightarrow> year_ok t' \<Longrightarrow> stamp t < stamp t'"
  unfolding stamp_fields by (intro pad_fields_less fields_fit fields_mono)

lemma length_stamp:
  assumes "year_ok t"
  shows "length (stamp t) = 14"
proof -
  have "list_all2 fits ws fs \<Longrightarrow> length (concat (map2 pad_int ws fs)) = sum_list ws" for ws fs
    by (induction ws fs rule: list_all2_induct) (simp_all add: length_pad_int)
  from this [OF fields_fit [OF assms]] show ?thesis
    by (simp add: stamp_fields widths_def)
qed

section \<open>RFC 3339\<close>

text \<open>\<open>Time.MarshalJSON\<close> of a UTC time: \<open>2006-01-02T15:04:05.999999999Z\<close> in quotes, and an error
  for a year that does not have four digits.\<close>

definition fraction_text :: "int \<Rightarrow> string" where
  "fraction_text ns =
     (if ns = 0 then [] else CHR ''.'' # rev (dropWhile (\<lambda>c. c = CHR ''0'') (rev (pad_int 9 ns))))"

definition rfc3339 :: "int \<Rightarrow> string" where
  "rfc3339 t =
     (case civil (t div 1000000000) of (y, mo, d, h, mi, s) \<Rightarrow>
        pad_int 4 y @ CHR ''-'' # pad_int 2 mo @ CHR ''-'' # pad_int 2 d @ CHR ''T'' # pad_int 2 h @
        CHR '':'' # pad_int 2 mi @ CHR '':'' # pad_int 2 s @ fraction_text (t mod 1000000000) @ ''Z'')"

definition time_json :: "int \<Rightarrow> string res" where
  "time_json t =
     (if year_ok (t div 1000000000) then Inr (CHR 0x22 # rfc3339 t @ [CHR 0x22])
      else Inl (ErrMsg ''Time.MarshalJSON: year outside of range [0,9999]''))"

end
