(* ===== verification/Hub_Provisioner.thy ===== *)
theory Hub_Provisioner
  imports Go_Client Go_Base64 Go_Json Go_Time
begin

text \<open>
  Deployment to the key-value store of the edge: \<open>packages/hub/internal/provisioner/provisioner.go\<close>.
  \<open>send\<close> is the HTTP client.
\<close>

section \<open>Requests\<close>

text \<open>The content is \<open>None\<close> for the nil slice, which is encoded as \<open>null\<close>.\<close>

record EdgeBundle =
  EKey :: string
  EContent :: "string option"
  EHash :: string
  EExpiresAt :: int

record prov_config =
  PKVURL :: string
  PKVToken :: string

text \<open>The zero value of \<open>time.Time\<close>, the first second of the year 1.\<close>

definition time_zero :: int where
  "time_zero = - 62135596800000000000"

definition edge_bundle_json :: "EdgeBundle \<Rightarrow> string res" where
  "edge_bundle_json b =
     (case time_json (EExpiresAt b) of
        Inl e \<Rightarrow> Inl e
      | Inr t \<Rightarrow>
          Inr (CHR ''{'' # json_quote ''key'' @ CHR '':'' # json_quote (EKey b) @ CHR '','' #
            json_quote ''content'' @ CHR '':'' #
              (case EContent b of None \<Rightarrow> ''null'' | Some c \<Rightarrow> json_quote (std_encode c)) @ CHR '','' #
            json_quote ''hash'' @ CHR '':'' # json_quote (EHash b) @ CHR '','' #
            json_quote ''expires_at'' @ CHR '':'' # t @ ''}''))"

definition put_request :: "prov_config \<Rightarrow> EdgeBundle \<Rightarrow> string \<Rightarrow> out_request" where
  "put_request cfg b data =
     \<lparr>out_method = ''PUT'', out_url = PKVURL cfg @ CHR ''/'' # EKey b,
      out_headers = [(''Authorization'', ''Bearer '' @ PKVToken cfg), (''Content-Type'', ''application/json'')],
      out_body = data\<rparr>"

definition delete_request :: "prov_config \<Rightarrow> string \<Rightarrow> out_request" where
  "delete_request cfg key =
     \<lparr>out_method = ''DELETE'', out_url = PKVURL cfg @ CHR ''/'' # key,
      out_headers = [(''Authorization'', ''Bearer '' @ PKVToken cfg)], out_body = []\<rparr>"

definition check_status :: "nat list \<Rightarrow> nat res \<Rightarrow> unit res" where
  "check_status accepted r =
     (case r of
        Inl e \<Rightarrow> Inl e
      | Inr code \<Rightarrow>
          if code \<in> set accepted then Inr ()
          else Inl (ErrMsg (''edge KV returned status '' @ dec_nat code)))"

definition uploadBundle :: "'w http_send \<Rightarrow> prov_config \<Rightarrow> EdgeBundle \<Rightarrow> 'w \<Rightarrow> unit res \<times> 'w" where
  "uploadBundle send cfg b w =
     (case edge_bundle_json b of
        Inl e \<Rightarrow> (Inl e, w)
      | Inr data \<Rightarrow> (case send (put_request cfg b data) w of (r, w') \<Rightarrow> (check_status [200, 201] r, w')))"

definition deleteBundle :: "'w http_send \<Rightarrow> prov_config \<Rightarrow> string \<Rightarrow> 'w \<Rightarrow> unit res \<times> 'w" where
  "deleteBundle send cfg key w =
     (case send (delete_request cfg key) w of (r, w') \<Rightarrow> (check_status [200, 404] r, w'))"

section \<open>The loops\<close>

text \<open>All three operations go through their arguments and return at the first error, wrapped in a
  text that names the argument.\<close>

fun until_error :: "('a \<Rightarrow> 'w \<Rightarrow> unit res \<times> 'w) \<Rightarrow> ('a \<Rightarrow> string) \<Rightarrow> 'a list \<Rightarrow> 'w \<Rightarrow> unit res \<times> 'w" where
  "until_error f name [] w = (Inr (), w)"
| "until_error f name (x # xs) w =
     (case f x w of
        (Inl e, w') \<Rightarrow> (Inl (ErrWrap (name x) e), w')
      | (Inr _, w') \<Rightarrow> until_error f name xs w')"

definition Provision :: "'w http_send \<Rightarrow> prov_config \<Rightarrow> EdgeBundle list \<Rightarrow> 'w \<Rightarrow> unit res \<times> 'w" where
  "Provision send cfg bundles =
     until_error (uploadBundle send cfg) (\<lambda>b. ''failed to provision bundle '' @ EKey b @ '': '') bundles"

text \<open>\<open>secrets\<close> is a map in the order of the loop.\<close>

definition secret_bundle :: "string \<Rightarrow> string \<times> string option \<Rightarrow> EdgeBundle" where
  "secret_bundle projectID p =
     \<lparr>EKey = projectID @ '':secrets:'' @ fst p, EContent = snd p, EHash = [], EExpiresAt = time_zero\<rparr>"

definition ProvisionSecrets ::
  "'w http_send \<Rightarrow> prov_config \<Rightarrow> string \<Rightarrow> (string, string option) gomap \<Rightarrow> 'w \<Rightarrow> unit res \<times> 'w" where
  "ProvisionSecrets send cfg projectID secrets =
     until_error (\<lambda>p. uploadBundle send cfg (secret_bundle projectID p))
       (\<lambda>p. ''failed to provision secret '' @ fst p @ '': '') secrets"

definition Invalidate :: "'w http_send \<Rightarrow> prov_config \<Rightarrow> string list \<Rightarrow> 'w \<Rightarrow> unit res \<times> 'w" where
  "Invalidate send cfg keys =
     until_error (deleteBundle send cfg) (\<lambda>k. ''failed to invalidate '' @ k @ '': '') keys"

section \<open>What is sent\<close>

text \<open>A client that answers by the request, and whose state is the list of the requests sent.\<close>

definition logged :: "(out_request \<Rightarrow> nat res) \<Rightarrow> out_request list http_send" where
  "logged answer r log = (answer r, log @ [r])"

text \<open>The arguments that are tried: those that succeed, and the first that does not.\<close>

definition tried :: "('a \<Rightarrow> unit res) \<Rightarrow> 'a list \<Rightarrow> 'a list" where
  "tried outcome xs = take (Suc (length (takeWhile (\<lambda>x. is_ok (outcome x)) xs))) xs"

definition first_failure :: "('a \<Rightarrow> unit res) \<Rightarrow> ('a \<Rightarrow> string) \<Rightarrow> 'a list \<Rightarrow> unit res" where
  "first_failure outcome name xs =
     (case dropWhile (\<lambda>x. is_ok (outcome x)) xs of
        [] \<Rightarrow> Inr () | x # _ \<Rightarrow> Inl (ErrWrap (name x) (projl (outcome x))))"

text \<open>When a step appends its requests to the log and its outcome does not depend on it, the loop
  sends the requests of the arguments tried.\<close>

lemma until_error_log:
  "until_error (\<lambda>x log. (outcome x, log @ sent x)) name xs log =
     (first_failure outcome name xs, log @ concat (map sent (tried outcome xs)))"
proof (induction xs arbitrary: log)
  case (Cons x xs)
  then show ?case
    by (cases "outcome x") (simp_all add: tried_def first_failure_def)
qed (simp add: tried_def first_failure_def)

definition upload_outcome :: "(out_request \<Rightarrow> nat res) \<Rightarrow> prov_config \<Rightarrow> EdgeBundle \<Rightarrow> unit res" where
  "upload_outcome answer cfg b =
     (case edge_bundle_json b of Inl e \<Rightarrow> Inl e | Inr data \<Rightarrow> check_status [200, 201] (answer (put_request cfg b data)))"

definition upload_sent :: "prov_config \<Rightarrow> EdgeBundle \<Rightarrow> out_request list" where
  "upload_sent cfg b = (case edge_bundle_json b of Inl e \<Rightarrow> [] | Inr data \<Rightarrow> [put_request cfg b data])"

lemma uploadBundle_logged:
  "uploadBundle (logged answer) cfg = (\<lambda>b log. (upload_outcome answer cfg b, log @ upload_sent cfg b))"
  by (auto simp: uploadBundle_def logged_def upload_outcome_def upload_sent_def fun_eq_iff split: sum.split)

definition delete_outcome :: "(out_request \<Rightarrow> nat res) \<Rightarrow> prov_config \<Rightarrow> string \<Rightarrow> unit res" where
  "delete_outcome answer cfg k = check_status [200, 404] (answer (delete_request cfg k))"

lemma deleteBundle_logged:
  "deleteBundle (logged answer) cfg = (\<lambda>k log. (delete_outcome answer cfg k, log @ [delete_request cfg k]))"
  by (auto simp: deleteBundle_def logged_def delete_outcome_def fun_eq_iff)

lemma time_zero_json: "\<exists>t. time_json time_zero = Inr t"
  unfolding is_ok_iff [symmetric] by code_simp

lemma secret_sent:
  "\<exists>data. edge_bundle_json (secret_bundle projectID p) = Inr data \<and>
     upload_sent cfg (secret_bundle projectID p) = [put_request cfg (secret_bundle projectID p) data]"
  using time_zero_json by (auto simp: edge_bundle_json_def secret_bundle_def upload_sent_def)

section \<open>Property\<close>

text \<open>
  Property C28.  A deployment stops at the first argument that fails: those before it have been sent and
  accepted, nothing after it is sent, and the error names it.  The same holds for the secrets of a
  project, each of which is sent to the address of \<open>project:secrets:key\<close>, and for keys that are
  invalidated.  An upload is accepted with status 200 or 201, a removal with 200 or 404.
\<close>
theorem provision_stops_at_first_error:
  "(Provision (logged answer) cfg bundles log =
     (first_failure (upload_outcome answer cfg) (\<lambda>b. ''failed to provision bundle '' @ EKey b @ '': '') bundles,
      log @ concat (map (upload_sent cfg) (tried (upload_outcome answer cfg) bundles)))) \<and>
   (fst (ProvisionSecrets (logged answer) cfg projectID secrets log) =
     first_failure (upload_outcome answer cfg \<circ> secret_bundle projectID)
       (\<lambda>p. ''failed to provision secret '' @ fst p @ '': '') secrets) \<and>
   (map out_url (snd (ProvisionSecrets (logged answer) cfg projectID secrets [])) =
     map (\<lambda>p. PKVURL cfg @ CHR ''/'' # projectID @ '':secrets:'' @ fst p)
       (tried (upload_outcome answer cfg \<circ> secret_bundle projectID) secrets)) \<and>
   (Invalidate (logged answer) cfg keys log =
     (first_failure (delete_outcome answer cfg) (\<lambda>k. ''failed to invalidate '' @ k @ '': '') keys,
      log @ map (delete_request cfg) (tried (delete_outcome answer cfg) keys))) \<and>
   (upload_outcome answer cfg b = Inr () \<longleftrightarrow>
     (\<exists>data. edge_bundle_json b = Inr data \<and> answer (put_request cfg b data) \<in> {Inr 200, Inr 201})) \<and>
   (delete_outcome answer cfg k = Inr () \<longleftrightarrow> answer (delete_request cfg k) \<in> {Inr 200, Inr 404})"
proof (intro conjI)
  have c: "concat (map (\<lambda>x. [f x]) xs) = map f xs" for f :: "'x \<Rightarrow> 'y" and xs by (induction xs) auto
  show "Provision (logged answer) cfg bundles log =
     (first_failure (upload_outcome answer cfg) (\<lambda>b. ''failed to provision bundle '' @ EKey b @ '': '') bundles,
      log @ concat (map (upload_sent cfg) (tried (upload_outcome answer cfg) bundles)))"
    by (simp add: Provision_def uploadBundle_logged until_error_log)
  have s: "ProvisionSecrets (logged answer) cfg projectID secrets l =
     (first_failure (upload_outcome answer cfg \<circ> secret_bundle projectID)
       (\<lambda>p. ''failed to provision secret '' @ fst p @ '': '') secrets,
      l @ concat (map (upload_sent cfg \<circ> secret_bundle projectID) (tried (upload_outcome answer cfg \<circ> secret_bundle projectID) secrets)))" for l
    using until_error_log [of "upload_outcome answer cfg \<circ> secret_bundle projectID" "upload_sent cfg \<circ> secret_bundle projectID"]
    by (simp add: ProvisionSecrets_def uploadBundle_logged)
  then show "fst (ProvisionSecrets (logged answer) cfg projectID secrets log) =
     first_failure (upload_outcome answer cfg \<circ> secret_bundle projectID)
       (\<lambda>p. ''failed to provision secret '' @ fst p @ '': '') secrets" by simp
  have "map out_url (upload_sent cfg (secret_bundle projectID p)) = [PKVURL cfg @ CHR ''/'' # projectID @ '':secrets:'' @ fst p]" for p
    using secret_sent [of projectID p cfg] by (auto simp: put_request_def secret_bundle_def)
  then show "map out_url (snd (ProvisionSecrets (logged answer) cfg projectID secrets [])) =
     map (\<lambda>p. PKVURL cfg @ CHR ''/'' # projectID @ '':secrets:'' @ fst p)
       (tried (upload_outcome answer cfg \<circ> secret_bundle projectID) secrets)"
    by (simp add: s map_concat comp_def c)
  show "Invalidate (logged answer) cfg keys log =
     (first_failure (delete_outcome answer cfg) (\<lambda>k. ''failed to invalidate '' @ k @ '': '') keys,
      log @ map (delete_request cfg) (tried (delete_outcome answer cfg) keys))"
    by (simp add: Invalidate_def deleteBundle_logged until_error_log c)
qed (auto simp: upload_outcome_def delete_outcome_def check_status_def split: sum.splits if_splits)

end
