(* ===== verification/Hub_Http.thy ===== *)
theory Hub_Http
  imports Go_Prelude
begin

text \<open>
  The HTTP side of the hub's handlers (\<open>net/http\<close>, and the router of \<open>api/router.go\<close>), at the
  level the handlers see it.  A request is what a handler reads of it: headers, query and URL
  parameters (\<open>[]\<close> where absent, as \<open>Get\<close> returns the empty string), the user the
  authentication stored in the context, and the outcome of decoding the body into the handler's
  request struct.  A reply is what a handler writes: \<open>http.Error\<close>, an encoded value, or the bare
  status 200.
\<close>

record 'b http_request =
  header :: "string \<Rightarrow> string"
  query :: "string \<Rightarrow> string"
  url_param :: "string \<Rightarrow> string"
  ctx_user :: "string option"
  body :: "'b res"

datatype 'b reply = HttpError nat go_error | HttpJson 'b | HttpOk

definition status_ok :: nat where "status_ok = 200"
definition status_bad_request :: nat where "status_bad_request = 400"
definition status_unauthorized :: nat where "status_unauthorized = 401"
definition status_not_found :: nat where "status_not_found = 404"
definition status_internal :: nat where "status_internal = 500"

lemmas status_defs = status_ok_def status_bad_request_def status_unauthorized_def
  status_not_found_def status_internal_def

fun reply_status :: "'b reply \<Rightarrow> nat" where
  "reply_status (HttpError n e) = n"
| "reply_status (HttpJson v) = status_ok"
| "reply_status HttpOk = status_ok"

text \<open>\<open>userIDFromContext\<close>: the empty string when the middleware stored no user.\<close>

definition user_id_from_context :: "'b http_request \<Rightarrow> string" where
  "user_id_from_context r = (case ctx_user r of Some u \<Rightarrow> u | None \<Rightarrow> [])"

definition with_user_id :: "string \<Rightarrow> 'b http_request \<Rightarrow> 'b http_request" where
  "with_user_id u r = r\<lparr>ctx_user := Some u\<rparr>"

lemma user_id_with_user [simp]: "user_id_from_context (with_user_id u r) = u"
  by (simp add: user_id_from_context_def with_user_id_def)

text \<open>The project a request is about: the trimmed header, as every project handler reads it.\<close>

definition project_header :: "'b http_request \<Rightarrow> string" where
  "project_header r = trim_space (header r ''X-Santokit-Project-ID'')"

end
