(* ===== verification/Hub_Config.thy ===== *)
theory Hub_Config
  imports Go_Prelude
begin

text \<open>
  \<open>packages/hub/internal/config/config.go\<close>: the hub's settings, read from the environment.
  \<open>env k\<close> is \<open>os.Getenv(k)\<close>, the empty string for an unset variable.
\<close>

record config =
  ServerAddr :: string
  DatabaseURL :: string
  JWTSecret :: string
  EncryptionKey :: string
  AtlasURL :: string
  KVURL :: string
  KVToken :: string

definition getEnv :: "environ \<Rightarrow> string \<Rightarrow> string \<Rightarrow> string" where
  "getEnv env key defaultValue = (if env key \<noteq> [] then env key else defaultValue)"

definition Load :: "environ \<Rightarrow> config" where
  "Load env =
     \<lparr>ServerAddr = getEnv env ''STK_HUB_ADDR'' '':8080'',
      DatabaseURL = getEnv env ''STK_DATABASE_URL'' ''postgres://localhost:5432/santokit?sslmode=disable'',
      JWTSecret = getEnv env ''STK_JWT_SECRET'' ''change-me-in-production'',
      EncryptionKey = getEnv env ''STK_ENCRYPTION_KEY'' ''32-byte-key-for-aes-256-gcm!!!!!'',
      AtlasURL = getEnv env ''STK_ATLAS_URL'' [],
      KVURL = getEnv env ''STK_KV_URL'' [],
      KVToken = getEnv env ''STK_KV_TOKEN'' []\<rparr>"

text \<open>The built-in key has the length that AES-256 needs, so a hub started with no environment
  has a usable vault.\<close>

lemma default_key_length: "length (EncryptionKey (Load (\<lambda>_. []))) = 32"
  by (simp add: Load_def getEnv_def)

lemma DatabaseURL_not_Nil: "DatabaseURL (Load env) \<noteq> []"
  by (simp add: Load_def getEnv_def)

end
