(* ===== verification/Sql_Store.thy ===== *)
theory Sql_Store
  imports Go_Json
begin

text \<open>
  \<open>packages/hub/internal/store/sqlstore/{store,rebind}.go\<close>: the relational store behind the
  hub.  A row type per \<open>CREATE TABLE\<close> of \<open>migrate\<close>, the tables as lists of rows in the order
  the engine returns them, and the SQL statements of the program as functions on the tables:
  an \<open>INSERT\<close> that violates the primary key is an error, \<open>ON CONFLICT DO UPDATE\<close> replaces the row,
  \<open>DELETE\<close> and \<open>SELECT\<close> filter.  The driver may refuse any statement: \<open>faults\<close> says, for the
  statements to come, which ones fail (none after the end of the list).  A transaction that
  fails at any point, or whose commit fails, leaves the tables as they were.
\<close>

section \<open>Tables\<close>

record manifest_row =
  mr_id :: string
  mr_project_id :: string
  mr_version :: string
  mr_bundles :: json
  mr_created_at :: go_time
  mr_created_by :: string

record secret_row =
  sr_project_id :: string
  sr_secret_key :: string
  sr_encrypted_value :: string

record config_row =
  cr_project_id :: string
  cr_databases :: string
  cr_auth :: string
  cr_storage :: string

record project_row =
  pr_id :: string
  pr_name :: string
  pr_description :: string
  pr_created_at :: go_time
  pr_updated_at :: go_time
  pr_team_id :: string
  pr_owner_id :: string
  pr_master_key :: string

record team_row =
  tr_id :: string
  tr_name :: string
  tr_created_at :: go_time

record member_row =
  me_team_id :: string
  me_user_id :: string
  me_email :: string
  me_role :: string

record personal_row =
  pe_user_id :: string
  pe_team_id :: string

record db_tables =
  registry_manifests :: "manifest_row list"
  vault_secrets :: "secret_row list"
  project_configs :: "config_row list"
  projects_tab :: "project_row list"
  teams_tab :: "team_row list"
  team_members :: "member_row list"
  personal_teams :: "personal_row list"

definition empty_tables :: db_tables where
  "empty_tables = \<lparr>registry_manifests = [], vault_secrets = [], project_configs = [],
     projects_tab = [], teams_tab = [], team_members = [], personal_teams = []\<rparr>"

section \<open>Primary keys\<close>

definition secret_pk :: "secret_row \<Rightarrow> string \<times> string" where
  "secret_pk r = (sr_project_id r, sr_secret_key r)"

definition member_pk :: "member_row \<Rightarrow> string \<times> string \<times> string" where
  "member_pk r = (me_team_id r, me_user_id r, me_email r)"

text \<open>No primary key occurs twice in any table.\<close>

definition tables_ok :: "db_tables \<Rightarrow> bool" where
  "tables_ok t \<longleftrightarrow>
     distinct (map mr_id (registry_manifests t)) \<and>
     distinct (map secret_pk (vault_secrets t)) \<and>
     distinct (map cr_project_id (project_configs t)) \<and>
     distinct (map pr_id (projects_tab t)) \<and>
     distinct (map tr_id (teams_tab t)) \<and>
     distinct (map member_pk (team_members t)) \<and>
     distinct (map pe_user_id (personal_teams t))"

lemma tables_ok_empty: "tables_ok empty_tables"
  by (simp add: tables_ok_def empty_tables_def)

section \<open>Statements on one table\<close>

definition insert_row :: "('r \<Rightarrow> 'k) \<Rightarrow> 'r \<Rightarrow> 'r list \<Rightarrow> 'r list res" where
  "insert_row pk r rs = (if pk r \<in> pk ` set rs then Inl ErrUnique else Inr (rs @ [r]))"

fun upsert_row :: "('r \<Rightarrow> 'k) \<Rightarrow> 'r \<Rightarrow> 'r list \<Rightarrow> 'r list" where
  "upsert_row pk r [] = [r]"
| "upsert_row pk r (x # xs) = (if pk x = pk r then r # xs else x # upsert_row pk r xs)"

definition delete_where :: "('r \<Rightarrow> bool) \<Rightarrow> 'r list \<Rightarrow> 'r list" where
  "delete_where P rs = filter (\<lambda>r. \<not> P r) rs"

definition select_where :: "('r \<Rightarrow> bool) \<Rightarrow> 'r list \<Rightarrow> 'r list" where
  "select_where P rs = filter P rs"

text \<open>\<open>QueryRow(...).Scan\<close>: the first row, or \<open>sql.ErrNoRows\<close>.\<close>

definition first_row :: "'r list \<Rightarrow> 'r res" where
  "first_row rs = (case rs of [] \<Rightarrow> Inl ErrNoRows | r # _ \<Rightarrow> Inr r)"

definition row_at :: "('r \<Rightarrow> 'k) \<Rightarrow> 'r list \<Rightarrow> 'k \<Rightarrow> 'r option" where
  "row_at pk rs k = map_of (map (\<lambda>r. (pk r, r)) rs) k"

lemma insert_row_ok:
  "insert_row pk r rs = Inr rs' \<Longrightarrow> distinct (map pk rs) \<Longrightarrow> distinct (map pk rs')"
  by (auto simp: insert_row_def split: if_splits)

lemma upsert_row_keys: "pk ` set (upsert_row pk r rs) = insert (pk r) (pk ` set rs)"
  by (induction rs) auto

lemma upsert_row_ok: "distinct (map pk rs) \<Longrightarrow> distinct (map pk (upsert_row pk r rs))"
  by (induction rs) (simp_all add: upsert_row_keys, metis)

lemma delete_where_ok: "distinct (map pk rs) \<Longrightarrow> distinct (map pk (delete_where P rs))"
  by (simp add: delete_where_def distinct_map_filter)

lemma row_at_upsert: "row_at pk (upsert_row pk r rs) = (row_at pk rs)(pk r \<mapsto> r)"
  by (induction rs) (auto simp: row_at_def fun_eq_iff)

lemma row_at_Some: "row_at pk rs k = Some r \<Longrightarrow> r \<in> set rs \<and> pk r = k"
  by (auto simp: row_at_def dest!: map_of_SomeD)

lemma row_at_iff: "distinct (map pk rs) \<Longrightarrow> row_at pk rs k = Some r \<longleftrightarrow> r \<in> set rs \<and> pk r = k"
  by (auto simp: row_at_def comp_def)

lemma row_at_None: "row_at pk rs k = None \<longleftrightarrow> k \<notin> pk ` set rs"
  by (auto simp: row_at_def map_of_eq_None_iff image_iff)

lemma row_at_insert:
  "insert_row pk r rs = Inr rs' \<Longrightarrow> row_at pk rs' = (row_at pk rs)(pk r \<mapsto> r)"
  by (auto simp: insert_row_def row_at_def fun_eq_iff map_add_def split: if_splits option.splits
      dest!: map_of_SomeD)

lemma row_at_delete:
  "row_at pk (delete_where (\<lambda>r. pk r = k) rs) = (row_at pk rs)(k := None)"
  by (induction rs) (auto simp: row_at_def delete_where_def fun_eq_iff)

text \<open>A query by primary key finds the row of the key.\<close>

lemma first_by_key:
  "first_row (select_where (\<lambda>r. pk r = k) rs) =
     (case row_at pk rs k of None \<Rightarrow> Inl ErrNoRows | Some r \<Rightarrow> Inr r)"
  by (induction rs) (auto simp: first_row_def select_where_def row_at_def)

section \<open>The connection\<close>

record db =
  tables :: db_tables
  faults :: "bool list"

type_synonym 'a db_op = "db \<Rightarrow> 'a res \<times> db"

text \<open>No statement to come will be refused.\<close>

definition db_healthy :: "db \<Rightarrow> bool" where
  "db_healthy d \<longleftrightarrow> True \<notin> set (faults d)"

definition next_fault :: "db \<Rightarrow> bool \<times> db" where
  "next_fault d =
     (case faults d of [] \<Rightarrow> (False, d) | f # fs \<Rightarrow> (f, d\<lparr>faults := fs\<rparr>))"

definition exec :: "(db_tables \<Rightarrow> ('a \<times> db_tables) res) \<Rightarrow> 'a db_op" where
  "exec q d =
     (case next_fault d of (f, d') \<Rightarrow>
        if f then (Inl ErrDriver, d')
        else (case q (tables d') of
                Inl e \<Rightarrow> (Inl e, d')
              | Inr (x, t) \<Rightarrow> (Inr x, d'\<lparr>tables := t\<rparr>)))"

text \<open>A query that only reads.\<close>

definition query_rows :: "(db_tables \<Rightarrow> 'a res) \<Rightarrow> 'a db_op" where
  "query_rows q = exec (\<lambda>t. case q t of Inl e \<Rightarrow> Inl e | Inr x \<Rightarrow> Inr (x, t))"

definition db_return :: "'a \<Rightarrow> 'a db_op" where
  "db_return x d = (Inr x, d)"

definition db_bind :: "'a db_op \<Rightarrow> ('a \<Rightarrow> 'b db_op) \<Rightarrow> 'b db_op" where
  "db_bind m k d = (case m d of (Inl e, d') \<Rightarrow> (Inl e, d') | (Inr x, d') \<Rightarrow> k x d')"

text \<open>\<open>BeginTx\<close>, the statements, \<open>Commit\<close>, with \<open>defer tx.Rollback()\<close>.\<close>

definition transaction :: "'a db_op \<Rightarrow> 'a db_op" where
  "transaction m d =
     (case next_fault d of (f, d1) \<Rightarrow>
        if f then (Inl ErrDriver, d1)
        else (case m d1 of
                (Inl e, d2) \<Rightarrow> (Inl e, d2\<lparr>tables := tables d\<rparr>)
              | (Inr x, d2) \<Rightarrow>
                  (case next_fault d2 of (g, d3) \<Rightarrow>
                     if g then (Inl ErrDriver, d3\<lparr>tables := tables d\<rparr>) else (Inr x, d3))))"

lemma next_fault_tables [simp]: "tables (snd (next_fault d)) = tables d"
  by (auto simp: next_fault_def split: list.splits)

lemma next_fault_healthy: "db_healthy d \<Longrightarrow> \<not> fst (next_fault d) \<and> db_healthy (snd (next_fault d))"
  by (auto simp: next_fault_def db_healthy_def split: list.splits)

text \<open>The same as two equations, without the pair.\<close>

lemma exec_alt:
  "exec q d =
     (if fst (next_fault d) then (Inl ErrDriver, snd (next_fault d))
      else (case q (tables d) of
              Inl e \<Rightarrow> (Inl e, snd (next_fault d))
            | Inr (x, t) \<Rightarrow> (Inr x, (snd (next_fault d))\<lparr>tables := t\<rparr>)))"
proof -
  obtain f d' where nf: "next_fault d = (f, d')" by fastforce
  then have "tables d' = tables d" using next_fault_tables [of d] by simp
  with nf show ?thesis by (simp add: exec_def split: sum.split)
qed

lemma exec_Inl: "exec q d = (Inl e, d') \<Longrightarrow> tables d' = tables d"
  by (auto simp: exec_alt split: if_splits sum.splits prod.splits)

lemma exec_Inr: "exec q d = (Inr x, d') \<Longrightarrow> q (tables d) = Inr (x, tables d')"
  by (auto simp: exec_alt split: if_splits sum.splits prod.splits)

lemma exec_write: "exec (\<lambda>t. Inr (x, f t)) d = (Inr u, d') \<Longrightarrow> tables d' = f (tables d) \<and> u = x"
  by (auto dest!: exec_Inr)

lemma exec_healthy:
  "db_healthy d \<Longrightarrow> exec q d =
    (case q (tables d) of Inl e \<Rightarrow> (Inl e, snd (next_fault d))
     | Inr (x, t) \<Rightarrow> (Inr x, (snd (next_fault d))\<lparr>tables := t\<rparr>))"
  using next_fault_healthy [of d] by (simp add: exec_alt)

lemma exec_keeps_healthy: "db_healthy d \<Longrightarrow> db_healthy (snd (exec q d))"
  using next_fault_healthy [of d]
  by (auto simp: exec_healthy db_healthy_def split: sum.splits prod.splits)

lemma exec_done:
  assumes "db_healthy d" and "q (tables d) = Inr (x, t)"
  shows "\<exists>d'. exec q d = (Inr x, d') \<and> db_healthy d' \<and> tables d' = t"
  using exec_healthy [OF assms(1), of q] exec_keeps_healthy [OF assms(1), of q] assms(2) by auto

lemma exec_write_healthy:
  "db_healthy d \<Longrightarrow> \<exists>d'. exec (\<lambda>t. Inr (x, f t)) d = (Inr x, d') \<and> db_healthy d'"
  using exec_keeps_healthy [of d "\<lambda>t. Inr (x, f t)"] by (auto simp: exec_healthy)

lemma query_rows_alt:
  "query_rows q d =
     (if fst (next_fault d) then Inl ErrDriver else q (tables d), snd (next_fault d))"
proof -
  have "(snd (next_fault d))\<lparr>tables := tables d\<rparr> = snd (next_fault d)"
    using next_fault_tables [of d] by (cases "snd (next_fault d)") simp
  then show ?thesis by (simp add: query_rows_def exec_alt split: sum.splits)
qed

lemma query_rows_tables [simp]: "tables (snd (query_rows q d)) = tables d"
  by (simp add: query_rows_alt)

lemma query_rows_Inr: "query_rows q d = (Inr x, d') \<Longrightarrow> q (tables d) = Inr x \<and> tables d' = tables d"
  by (auto simp: query_rows_alt split: if_splits)

lemma query_rows_Inl: "query_rows q d = (Inl e, d') \<Longrightarrow> tables d' = tables d"
  by (auto simp: query_rows_alt)

lemma query_rows_healthy:
  "db_healthy d \<Longrightarrow> query_rows q d = (q (tables d), snd (next_fault d))"
  using next_fault_healthy [of d] by (simp add: query_rows_alt)

lemma transaction_Inl: "transaction m d = (Inl e, d') \<Longrightarrow> tables d' = tables d"
  by (cases "next_fault d")
    (auto simp: transaction_def dest!: arg_cong [where f = "tables \<circ> snd" and x = "next_fault d"]
      split: prod.splits if_splits sum.splits)

lemma transaction_Inr:
  assumes "transaction m d = (Inr x, d')"
  shows "\<exists>d1 d2. tables d1 = tables d \<and> m d1 = (Inr x, d2) \<and> tables d' = tables d2"
proof -
  obtain f d1 where d1: "next_fault d = (f, d1)" by fastforce
  then have t1: "tables d1 = tables d" using next_fault_tables [of d] by simp
  obtain r d2 where d2: "m d1 = (r, d2)" by fastforce
  obtain g d3 where d3: "next_fault d2 = (g, d3)" by fastforce
  then have t3: "tables d3 = tables d2" using next_fault_tables [of d2] by simp
  from assms d1 d2 d3 have "r = Inr x" "d' = d3"
    by (auto simp: transaction_def split: if_splits sum.splits)
  with t1 t3 d2 show ?thesis by blast
qed

lemma transaction_healthy:
  assumes "db_healthy d"
    and "\<And>d1. tables d1 = tables d \<Longrightarrow> db_healthy d1 \<Longrightarrow> \<exists>d2. m d1 = (Inr x, d2) \<and> db_healthy d2 \<and> tables d2 = t"
  shows "\<exists>d'. transaction m d = (Inr x, d') \<and> db_healthy d' \<and> tables d' = t"
proof -
  obtain f d1 where d1: "next_fault d = (f, d1)" by fastforce
  then have f: "\<not> f" "db_healthy d1" "tables d1 = tables d"
    using next_fault_healthy [OF assms(1)] next_fault_tables [of d] by simp_all
  from assms(2) [OF f(3,2)] obtain d2 where d2: "m d1 = (Inr x, d2)" "db_healthy d2" "tables d2 = t" by blast
  obtain g d3 where d3: "next_fault d2 = (g, d3)" by fastforce
  then have "\<not> g" "db_healthy d3" "tables d3 = tables d2"
    using next_fault_healthy [OF d2(2)] next_fault_tables [of d2] by simp_all
  with d1 f d2 d3 show ?thesis by (simp add: transaction_def)
qed

lemma transaction_refused:
  assumes "db_healthy d"
    and "\<And>d1. tables d1 = tables d \<Longrightarrow> db_healthy d1 \<Longrightarrow> \<exists>d2. m d1 = (Inl e, d2)"
  shows "\<exists>d'. transaction m d = (Inl e, d') \<and> tables d' = tables d"
proof -
  obtain f d1 where d1: "next_fault d = (f, d1)" by fastforce
  then have f: "\<not> f" "db_healthy d1" "tables d1 = tables d"
    using next_fault_healthy [OF assms(1)] next_fault_tables [of d] by simp_all
  from assms(2) [OF f(3,2)] obtain d2 where "m d1 = (Inl e, d2)" by blast
  with d1 f show ?thesis by (simp add: transaction_def)
qed

lemma db_bind_Inr:
  "db_bind m k d = (Inr y, d') \<longleftrightarrow> (\<exists>x d1. m d = (Inr x, d1) \<and> k x d1 = (Inr y, d'))"
  by (auto simp: db_bind_def split: prod.splits sum.splits)

lemma db_bind_Inl:
  "db_bind m k d = (Inl e, d') \<longleftrightarrow> m d = (Inl e, d') \<or> (\<exists>x d1. m d = (Inr x, d1) \<and> k x d1 = (Inl e, d'))"
  by (auto simp: db_bind_def split: prod.splits sum.splits)

lemma db_return_Inr [simp]: "db_return x d = (Inr y, d') \<longleftrightarrow> y = x \<and> d' = d"
  by (auto simp: db_return_def)

lemma db_return_not_Inl [simp]: "db_return x d \<noteq> (Inl e, d')"
  by (simp add: db_return_def)

section \<open>Placeholders\<close>

definition DialectPostgres :: string where "DialectPostgres = ''postgres''"
definition DialectSQLite :: string where "DialectSQLite = ''sqlite''"

text \<open>
  \<open>intToString\<close> fills a 16-byte buffer from its end.  \<open>i\<close> counts the free bytes, and writing
  below index 0 panics (\<open>None\<close>).
\<close>

fun int_loop :: "nat \<Rightarrow> nat \<Rightarrow> string \<Rightarrow> string option" where
  "int_loop i value buf =
     (if value = 0 then Some buf
      else (case i of
              0 \<Rightarrow> None
            | Suc j \<Rightarrow> int_loop j (value div 10) (char_of (48 + value mod 10) # buf)))"

declare int_loop.simps [simp del]

definition intToString :: "nat \<Rightarrow> string option" where
  "intToString value = (if value = 0 then Some ''0'' else int_loop 16 value [])"

text \<open>The loop of \<open>Rebind\<close>: each \<open>?\<close> becomes \<open>$\<close> and the next number.\<close>

fun rebind_loop :: "nat \<Rightarrow> string \<Rightarrow> string option" where
  "rebind_loop arg [] = Some []"
| "rebind_loop arg (c # s) =
     (if c = CHR ''?'' then
        (case intToString arg of
           None \<Rightarrow> None
         | Some n \<Rightarrow> map_option (\<lambda>r. CHR ''$'' # n @ r) (rebind_loop (Suc arg) s))
      else map_option (\<lambda>r. c # r) (rebind_loop arg s))"

definition Rebind :: "string \<Rightarrow> string \<Rightarrow> string option" where
  "Rebind dialect q = (if dialect \<noteq> DialectPostgres then Some q else rebind_loop 1 q)"

lemma int_loop_dec:
  "0 < v \<Longrightarrow> v < 10 ^ i \<Longrightarrow> int_loop i v buf = Some (dec_nat v @ buf)"
proof (induction i v buf rule: int_loop.induct)
  case (1 i v buf)
  obtain j where i: "i = Suc j" using "1.prems" by (cases i) auto
  have digit: "char_of (48 + v mod 10) = digit_char (v mod 10)" by (simp add: digit_char_def)
  show ?case
  proof (cases "v < 10")
    case True
    with "1.prems" i show ?thesis
      by (simp add: int_loop.simps [of "Suc j" v] int_loop.simps [of j 0] dec_nat.simps [of v]
          digit_char_def)
  next
    case False
    then have "0 < v div 10" "v div 10 < 10 ^ j" using "1.prems" i by auto
    with "1.IH" [OF _ i] "1.prems"
    have "int_loop j (v div 10) (char_of (48 + v mod 10) # buf) =
        Some (dec_nat (v div 10) @ char_of (48 + v mod 10) # buf)" by simp
    with False "1.prems" i show ?thesis
      by (simp add: int_loop.simps [of "Suc j" v] dec_nat.simps [of v] digit)
  qed
qed

text \<open>The text of every number that fits the buffer is its decimal text.\<close>

lemma intToString_dec: "v < 10 ^ 16 \<Longrightarrow> intToString v = Some (dec_nat v)"
  by (simp add: intToString_def int_loop_dec dec_nat.simps [of 0])

text \<open>The specification of \<open>Rebind\<close>: the pieces between the question marks, joined by
  \<open>$1\<close>, \<open>$2\<close>, ... in order.\<close>

fun number_pieces :: "nat \<Rightarrow> string list \<Rightarrow> string" where
  "number_pieces n [] = []"
| "number_pieces n [p] = p"
| "number_pieces n (p # q # ps) = p @ CHR ''$'' # dec_nat n @ number_pieces (Suc n) (q # ps)"

lemma number_pieces_Cons:
  "ps \<noteq> [] \<Longrightarrow> number_pieces n ((c # p) # ps) = c # number_pieces n (p # ps)"
  by (cases ps) auto

lemma rebind_loop_pieces:
  "arg + count_list s (CHR ''?'') \<le> 10 ^ 16 \<Longrightarrow>
     rebind_loop arg s = Some (number_pieces arg (split_char (CHR ''?'') s))"
proof (induction s arbitrary: arg)
  case Nil
  then show ?case by simp
next
  case (Cons c s)
  obtain p ps where sp: "split_char (CHR ''?'') s = p # ps"
    using split_char_not_Nil by (metis list.exhaust)
  show ?case
  proof (cases "c = CHR ''?''")
    case True
    with Cons.prems have "arg < 10 ^ 16" by simp
    with True Cons.IH [of "Suc arg"] Cons.prems sp show ?thesis
      by (simp add: intToString_dec)
  next
    case False
    with Cons sp show ?thesis
      by (cases ps) auto
  qed
qed

text \<open>
  Property C20.  \<open>Rebind\<close> numbers the placeholders of a query for Postgres from 1 in the order
  they stand, leaves all other text as it is, and never overruns the 16-byte buffer of
  \<open>intToString\<close> on a query with fewer than \<open>10 ^ 16\<close> placeholders; for any other dialect the
  query is unchanged.
\<close>

theorem Rebind_correct:
  assumes "count_list q (CHR ''?'') < 10 ^ 16"
  shows "Rebind dialect q =
    Some (if dialect = ''postgres'' then number_pieces 1 (split_char (CHR ''?'') q) else q)"
  using assms rebind_loop_pieces [of 1 q] by (simp add: Rebind_def DialectPostgres_def)

theorem Rebind_correct_witness:
  "Rebind ''postgres'' ''a=? AND b=?'' = Some ''a=$1 AND b=$2''"
  by (subst Rebind_correct)
    (simp_all add: dec_nat.simps)

end
