(* ===== verification/Hub_Projects.thy ===== *)
theory Hub_Projects
  imports Hub_Config Sql_Store
begin

text \<open>
  Projects and teams: \<open>packages/hub/internal/projects/service.go\<close>.  The service keeps its state in
  maps or in the database; this theory has the types, the random identifiers and the operations
  over the maps, and the operations over the database are in \<open>Hub_Projects_Db\<close>.  What the code
  draws from the clock and the random source during one call is a record of \<open>draws\<close>.
\<close>

section \<open>Types\<close>

record Project =
  PID :: string
  PName :: string
  PDescription :: string
  PCreatedAt :: go_time
  PUpdatedAt :: go_time
  PTeamID :: string
  POwnerID :: string
  PMasterKey :: string

text \<open>The fields of a project that are encoded: the master key has the tag \<open>json:"-"\<close>.\<close>

record project_json =
  PjID :: string
  PjName :: string
  PjDescription :: string
  PjCreatedAt :: go_time
  PjUpdatedAt :: go_time
  PjTeamID :: string
  PjOwnerID :: string

definition project_json_of :: "Project \<Rightarrow> project_json" where
  "project_json_of p =
     \<lparr>PjID = PID p, PjName = PName p, PjDescription = PDescription p, PjCreatedAt = PCreatedAt p,
      PjUpdatedAt = PUpdatedAt p, PjTeamID = PTeamID p, PjOwnerID = POwnerID p\<rparr>"

record Member =
  MUserID :: string
  MEmail :: string
  MRole :: string

record Team =
  TID :: string
  TName :: string
  TMembers :: "Member list"
  TCreatedAt :: go_time

record proj_memory =
  mem_projects :: "(string, Project) gomap"
  mem_teams :: "(string, Team) gomap"
  personalTeamByUser :: "(string, string) gomap"

definition new_proj_memory :: proj_memory where
  "new_proj_memory = \<lparr>mem_projects = [], mem_teams = [], personalTeamByUser = []\<rparr>"

section \<open>Identifiers and keys\<close>

text \<open>
  The outcomes of \<open>rand.Read\<close> (\<open>None\<close> for an error) for a team's identifier, a project's
  identifier and a master key, and the clock readings: when the random source fails an
  identifier is made of the time.
\<close>

record draws =
  team_bytes :: "string option"
  project_bytes :: "string option"
  key_bytes :: "string option"
  team_nano :: go_time
  project_nano :: go_time
  team_time :: go_time
  project_time :: go_time

definition randomID :: "string \<Rightarrow> string option \<Rightarrow> go_time \<Rightarrow> string" where
  "randomID prefix rnd nano =
     (case rnd of
        None \<Rightarrow> prefix @ CHR ''_'' # dec_int nano
      | Some buf \<Rightarrow> prefix @ CHR ''_'' # hex_encode buf)"

definition generateMasterKey :: "string option \<Rightarrow> string res" where
  "generateMasterKey rnd =
     (case rnd of
        None \<Rightarrow> Inl (ErrWrap ''failed to generate random key: '' ErrIO)
      | Some key \<Rightarrow> Inr (hex_encode key))"

definition normalizeRole :: "string \<Rightarrow> string" where
  "normalizeRole role =
     (let r = to_lower (trim_space role) in
      if r = ''owner'' \<or> r = ''admin'' \<or> r = ''member'' then r
      else if r = [] then ''member''
      else [])"

definition team_id_of :: "draws \<Rightarrow> string" where
  "team_id_of e = randomID ''team'' (team_bytes e) (team_nano e)"

definition project_id_of :: "draws \<Rightarrow> string" where
  "project_id_of e = randomID ''prj'' (project_bytes e) (project_nano e)"

definition owner_member :: "string \<Rightarrow> Member" where
  "owner_member userID = \<lparr>MUserID = userID, MEmail = [], MRole = ''owner''\<rparr>"

section \<open>The operations over the maps\<close>

definition ensurePersonalTeamLocked :: "draws \<Rightarrow> string \<Rightarrow> proj_memory \<Rightarrow> string \<times> proj_memory" where
  "ensurePersonalTeamLocked e userID s =
     (case map_of (personalTeamByUser s) userID of
        Some teamID \<Rightarrow> (teamID, s)
      | None \<Rightarrow>
          (let t = \<lparr>TID = team_id_of e, TName = ''Personal'', TMembers = [owner_member userID],
                    TCreatedAt = team_time e\<rparr>
           in (TID t, s\<lparr>mem_teams := gm_put (TID t) t (mem_teams s),
                        personalTeamByUser := gm_put userID (TID t) (personalTeamByUser s)\<rparr>)))"

definition isMemberLocked :: "string \<Rightarrow> string \<Rightarrow> proj_memory \<Rightarrow> bool" where
  "isMemberLocked teamID userID s =
     (case map_of (mem_teams s) teamID of
        None \<Rightarrow> False
      | Some t \<Rightarrow> list_ex (\<lambda>m. MUserID m = userID) (TMembers t))"

definition new_project :: "draws \<Rightarrow> string \<Rightarrow> string \<Rightarrow> string \<Rightarrow> string \<Rightarrow> string \<Rightarrow> Project" where
  "new_project e ownerID name description teamID masterKey =
     \<lparr>PID = project_id_of e, PName = name, PDescription = description, PCreatedAt = project_time e,
      PUpdatedAt = project_time e, PTeamID = teamID, POwnerID = ownerID, PMasterKey = masterKey\<rparr>"

definition mem_createProject ::
  "draws \<Rightarrow> string \<Rightarrow> string \<Rightarrow> string \<Rightarrow> string \<Rightarrow> proj_memory \<Rightarrow> Project res \<times> proj_memory" where
  "mem_createProject e ownerID name description teamID s =
     (case (if teamID = [] then ensurePersonalTeamLocked e ownerID s else (teamID, s)) of
        (tid, s1) \<Rightarrow>
          (if map_of (mem_teams s1) tid = None then (Inl (ErrMsg ''team not found''), s1)
           else (case generateMasterKey (key_bytes e) of
                   Inl err \<Rightarrow> (Inl (ErrWrap ''failed to generate master key: '' err), s1)
                 | Inr masterKey \<Rightarrow>
                     (let p = new_project e ownerID name description tid masterKey
                      in (Inr p, s1\<lparr>mem_projects := gm_put (PID p) p (mem_projects s1)\<rparr>)))))"

definition mem_getProject :: "string \<Rightarrow> proj_memory \<Rightarrow> Project res" where
  "mem_getProject i s =
     (case map_of (mem_projects s) i of
        None \<Rightarrow> Inl (ErrMsg ''project not found'')
      | Some p \<Rightarrow> Inr p)"

definition mem_listProjects :: "string \<Rightarrow> string \<Rightarrow> proj_memory \<Rightarrow> Project list" where
  "mem_listProjects userID teamID s =
     filter (\<lambda>p. \<not> (teamID \<noteq> [] \<and> PTeamID p \<noteq> teamID) \<and>
                 \<not> (userID \<noteq> [] \<and> \<not> isMemberLocked (PTeamID p) userID s))
       (map snd (mem_projects s))"

definition mem_createTeam :: "draws \<Rightarrow> string \<Rightarrow> string \<Rightarrow> proj_memory \<Rightarrow> Team res \<times> proj_memory" where
  "mem_createTeam e ownerID name s =
     (let t = \<lparr>TID = team_id_of e, TName = name, TMembers = [owner_member ownerID], TCreatedAt = team_time e\<rparr>
      in (Inr t, s\<lparr>mem_teams := gm_put (TID t) t (mem_teams s)\<rparr>))"

definition mem_listTeams :: "string \<Rightarrow> proj_memory \<Rightarrow> Team list" where
  "mem_listTeams userID s =
     filter (\<lambda>t. \<not> (userID \<noteq> [] \<and> \<not> isMemberLocked (TID t) userID s)) (map snd (mem_teams s))"

text \<open>The loop over the members: the first with the same nonempty user or email is replaced.\<close>

definition same_member :: "string \<Rightarrow> string \<Rightarrow> Member \<Rightarrow> bool" where
  "same_member userID email x \<longleftrightarrow>
     (MUserID x \<noteq> [] \<and> MUserID x = userID) \<or> (MEmail x \<noteq> [] \<and> MEmail x = email)"

fun put_member :: "Member \<Rightarrow> Member list \<Rightarrow> Member list" where
  "put_member m [] = [m]"
| "put_member m (x # xs) = (if same_member (MUserID m) (MEmail m) x then m # xs else x # put_member m xs)"

definition mem_inviteMember ::
  "string \<Rightarrow> string \<Rightarrow> string \<Rightarrow> string \<Rightarrow> proj_memory \<Rightarrow> Member res \<times> proj_memory" where
  "mem_inviteMember teamID userID email role s =
     (let r = normalizeRole role in
      if r = [] then (Inl (ErrMsg ''invalid role''), s)
      else (case map_of (mem_teams s) teamID of
              None \<Rightarrow> (Inl (ErrMsg ''team not found''), s)
            | Some t \<Rightarrow>
                (let m = \<lparr>MUserID = userID, MEmail = email, MRole = r\<rparr>
                 in (Inr m, s\<lparr>mem_teams := gm_put teamID (t\<lparr>TMembers := put_member m (TMembers t)\<rparr>) (mem_teams s)\<rparr>))))"

text \<open>The figures of the dashboard; the last deployment is always the zero time.\<close>

record project_stats =
  totalProjects :: nat
  totalDeployments :: nat
  activeUsers :: nat
  lastDeployment :: go_time

definition zero_time :: go_time where
  "zero_time = - 62135596800 * ns_per_s"

definition member_key :: "Member \<Rightarrow> string" where
  "member_key m = (if MUserID m = [] then MEmail m else MUserID m)"

definition mem_stats :: "string \<Rightarrow> proj_memory \<Rightarrow> project_stats" where
  "mem_stats userID s =
     \<lparr>totalProjects = length (filter (\<lambda>p. \<not> (userID \<noteq> [] \<and> \<not> isMemberLocked (PTeamID p) userID s))
         (map snd (mem_projects s))),
      totalDeployments = 0,
      activeUsers = length (remdups (filter (\<lambda>k. k \<noteq> []) (map member_key (concat (map TMembers
         (mem_listTeams userID s)))))),
      lastDeployment = zero_time\<rparr>"

definition mem_masterKey :: "string \<Rightarrow> proj_memory \<Rightarrow> string res" where
  "mem_masterKey projectID s =
     (case map_of (mem_projects s) projectID of
        None \<Rightarrow> Inl (ErrMsg ''project not found'')
      | Some p \<Rightarrow> if PMasterKey p = [] then Inl (ErrMsg ''project has no master key'') else Inr (PMasterKey p))"

section \<open>The invariant of the maps\<close>

text \<open>
  No key occurs twice, every entry is under its identifier, every project's team and every
  personal team exists, every team has a member, and every role is one of the three.
\<close>

definition role_ok :: "string \<Rightarrow> bool" where
  "role_ok r \<longleftrightarrow> r = ''owner'' \<or> r = ''admin'' \<or> r = ''member''"

definition team_ok :: "Team \<Rightarrow> bool" where
  "team_ok t \<longleftrightarrow> TMembers t \<noteq> [] \<and> (\<forall>m \<in> set (TMembers t). role_ok (MRole m))"

definition proj_memory_ok :: "proj_memory \<Rightarrow> bool" where
  "proj_memory_ok s \<longleftrightarrow>
     map_wf (mem_projects s) \<and> map_wf (mem_teams s) \<and> map_wf (personalTeamByUser s) \<and>
     (\<forall>i p. map_of (mem_projects s) i = Some p \<longrightarrow> PID p = i \<and> map_of (mem_teams s) (PTeamID p) \<noteq> None) \<and>
     (\<forall>i t. map_of (mem_teams s) i = Some t \<longrightarrow> TID t = i \<and> team_ok t) \<and>
     (\<forall>u i. map_of (personalTeamByUser s) u = Some i \<longrightarrow> map_of (mem_teams s) i \<noteq> None)"

lemma normalizeRole_ok: "normalizeRole r = [] \<or> role_ok (normalizeRole r)"
  by (simp add: normalizeRole_def role_ok_def Let_def)

lemma role_ok_owner [simp]: "role_ok ''owner''"
  by (simp add: role_ok_def)

lemma owner_member_sel [simp]:
  "MUserID (owner_member u) = u" "MEmail (owner_member u) = []" "MRole (owner_member u) = ''owner''"
  by (simp_all add: owner_member_def)

lemma put_member_set: "x \<in> set (put_member m ms) \<Longrightarrow> x = m \<or> x \<in> set ms"
  by (induction ms) (auto split: if_splits)

lemma put_member_in: "m \<in> set (put_member m ms)"
  by (induction ms) auto

lemma put_member_not_Nil [simp]: "put_member m ms \<noteq> []"
  by (cases ms) auto

lemma proj_memory_ok_new: "proj_memory_ok new_proj_memory"
  by (simp add: proj_memory_ok_def new_proj_memory_def)

text \<open>One preservation lemma per change: a team put under its identifier, a project of a team
  that exists.\<close>

lemma put_team_ok:
  assumes "proj_memory_ok s" and "team_ok t"
  shows "proj_memory_ok (s\<lparr>mem_teams := gm_put (TID t) t (mem_teams s)\<rparr>)"
  using assms by (auto simp: proj_memory_ok_def)

lemma put_project_ok:
  assumes "proj_memory_ok s" and "map_of (mem_teams s) (PTeamID p) \<noteq> None"
  shows "proj_memory_ok (s\<lparr>mem_projects := gm_put (PID p) p (mem_projects s)\<rparr>)"
  using assms by (auto simp: proj_memory_ok_def)

lemma put_personal_ok:
  assumes "proj_memory_ok s" and "map_of (mem_teams s) i \<noteq> None"
  shows "proj_memory_ok (s\<lparr>personalTeamByUser := gm_put u i (personalTeamByUser s)\<rparr>)"
  using assms by (auto simp: proj_memory_ok_def)

lemma ensurePersonalTeamLocked_ok:
  assumes "proj_memory_ok s" and "ensurePersonalTeamLocked e u s = (tid, s')"
  shows "proj_memory_ok s' \<and> map_of (mem_teams s') tid \<noteq> None \<and>
    map_of (personalTeamByUser s') u = Some tid \<and> mem_projects s' = mem_projects s"
proof (cases "map_of (personalTeamByUser s) u")
  case (Some i)
  with assms show ?thesis by (auto simp: ensurePersonalTeamLocked_def proj_memory_ok_def)
next
  case None
  let ?t = "\<lparr>TID = team_id_of e, TName = ''Personal'', TMembers = [owner_member u], TCreatedAt = team_time e\<rparr>"
  let ?s = "s\<lparr>mem_teams := gm_put (TID ?t) ?t (mem_teams s)\<rparr>"
  have "proj_memory_ok ?s" using assms(1) by (intro put_team_ok) (simp_all add: team_ok_def)
  then have "proj_memory_ok (?s\<lparr>personalTeamByUser := gm_put u (TID ?t) (personalTeamByUser ?s)\<rparr>)"
    by (rule put_personal_ok) simp
  with None assms(2) show ?thesis by (auto simp: ensurePersonalTeamLocked_def Let_def)
qed

lemma mem_createProject_ok:
  assumes "proj_memory_ok s" and "mem_createProject e u n d t s = (r, s')"
  shows "proj_memory_ok s'"
proof -
  obtain tid s1 where E: "(if t = [] then ensurePersonalTeamLocked e u s else (t, s)) = (tid, s1)" by fastforce
  have s1: "proj_memory_ok s1"
    using E assms(1) ensurePersonalTeamLocked_ok [OF assms(1)] by (auto split: if_splits)
  consider "s' = s1" | k where "map_of (mem_teams s1) tid \<noteq> None"
      "s' = s1\<lparr>mem_projects := gm_put (PID (new_project e u n d tid k)) (new_project e u n d tid k) (mem_projects s1)\<rparr>"
    using assms(2) E by (auto simp: mem_createProject_def Let_def split: if_splits sum.splits)
  then show ?thesis
  proof cases
    case 2
    with put_project_ok [OF s1, of "new_project e u n d tid k"] show ?thesis
      by (simp add: new_project_def)
  qed (use s1 in simp)
qed

lemma mem_createTeam_ok: "proj_memory_ok s \<Longrightarrow> proj_memory_ok (snd (mem_createTeam e u n s))"
  using put_team_ok [of s "\<lparr>TID = team_id_of e, TName = n, TMembers = [owner_member u], TCreatedAt = team_time e\<rparr>"]
  by (simp add: mem_createTeam_def Let_def team_ok_def)

lemma mem_inviteMember_ok:
  assumes "proj_memory_ok s"
  shows "proj_memory_ok (snd (mem_inviteMember i u em role s))"
proof (cases "normalizeRole role = [] \<or> map_of (mem_teams s) i = None")
  case True
  with assms show ?thesis by (auto simp: mem_inviteMember_def Let_def split: option.split)
next
  case False
  then obtain t where t: "map_of (mem_teams s) i = Some t" by blast
  let ?m = "\<lparr>MUserID = u, MEmail = em, MRole = normalizeRole role\<rparr>"
  let ?t = "t\<lparr>TMembers := put_member ?m (TMembers t)\<rparr>"
  have "TID t = i" "team_ok t" using assms t by (simp_all add: proj_memory_ok_def)
  moreover from this have "team_ok ?t"
    using False normalizeRole_ok [of role] by (auto simp: team_ok_def dest!: put_member_set)
  ultimately show ?thesis
    using put_team_ok [OF assms, of ?t] False t by (simp add: mem_inviteMember_def Let_def)
qed

end
