(* ===== verification/Hub_Projects_Db.thy ===== *)
theory Hub_Projects_Db
  imports Hub_Projects
begin

text \<open>
  The second half of \<open>packages/hub/internal/projects/service.go\<close>: the operations over the
  database, and the service that chooses between the two by whether it has a database.
\<close>

section \<open>Statements\<close>

definition insert_team :: "team_row \<Rightarrow> unit db_op" where
  "insert_team r =
     exec (\<lambda>t. case insert_row tr_id r (teams_tab t) of
                Inl e \<Rightarrow> Inl e | Inr rs \<Rightarrow> Inr ((), t\<lparr>teams_tab := rs\<rparr>))"

definition insert_member :: "member_row \<Rightarrow> unit db_op" where
  "insert_member r =
     exec (\<lambda>t. case insert_row member_pk r (team_members t) of
                Inl e \<Rightarrow> Inl e | Inr rs \<Rightarrow> Inr ((), t\<lparr>team_members := rs\<rparr>))"

definition insert_personal :: "personal_row \<Rightarrow> unit db_op" where
  "insert_personal r =
     exec (\<lambda>t. case insert_row pe_user_id r (personal_teams t) of
                Inl e \<Rightarrow> Inl e | Inr rs \<Rightarrow> Inr ((), t\<lparr>personal_teams := rs\<rparr>))"

definition insert_project :: "project_row \<Rightarrow> unit db_op" where
  "insert_project r =
     exec (\<lambda>t. case insert_row pr_id r (projects_tab t) of
                Inl e \<Rightarrow> Inl e | Inr rs \<Rightarrow> Inr ((), t\<lparr>projects_tab := rs\<rparr>))"

definition delete_member :: "string \<Rightarrow> string \<Rightarrow> string \<Rightarrow> unit db_op" where
  "delete_member teamID userID email =
     exec (\<lambda>t. Inr ((), t\<lparr>team_members :=
       delete_where (\<lambda>m. me_team_id m = teamID \<and> me_user_id m = userID \<and> me_email m = email) (team_members t)\<rparr>))"

definition owner_row :: "string \<Rightarrow> string \<Rightarrow> member_row" where
  "owner_row teamID userID = \<lparr>me_team_id = teamID, me_user_id = userID, me_email = [], me_role = ''owner''\<rparr>"

definition project_to_row :: "Project \<Rightarrow> project_row" where
  "project_to_row p =
     \<lparr>pr_id = PID p, pr_name = PName p, pr_description = PDescription p, pr_created_at = PCreatedAt p,
      pr_updated_at = PUpdatedAt p, pr_team_id = PTeamID p, pr_owner_id = POwnerID p,
      pr_master_key = PMasterKey p\<rparr>"

definition row_to_project :: "project_row \<Rightarrow> Project" where
  "row_to_project r =
     \<lparr>PID = pr_id r, PName = pr_name r, PDescription = pr_description r, PCreatedAt = pr_created_at r,
      PUpdatedAt = pr_updated_at r, PTeamID = pr_team_id r, POwnerID = pr_owner_id r,
      PMasterKey = pr_master_key r\<rparr>"

section \<open>The operations\<close>

definition find_personal_team :: "string \<Rightarrow> string db_op" where
  "find_personal_team userID =
     db_bind (query_rows (\<lambda>t. first_row (select_where (\<lambda>r. pe_user_id r = userID) (personal_teams t))))
       (\<lambda>r. db_return (pe_team_id r))"

definition make_personal_team :: "draws \<Rightarrow> string \<Rightarrow> string db_op" where
  "make_personal_team e userID =
     transaction
       (db_bind (insert_team \<lparr>tr_id = team_id_of e, tr_name = ''Personal'', tr_created_at = team_time e\<rparr>)
         (\<lambda>_. db_bind (insert_member (owner_row (team_id_of e) userID))
           (\<lambda>_. db_bind (insert_personal \<lparr>pe_user_id = userID, pe_team_id = team_id_of e\<rparr>)
             (\<lambda>_. db_return (team_id_of e)))))"

text \<open>An error of the first query, as well as an empty identifier, leads on to making a team.\<close>

definition ensurePersonalTeamDB :: "draws \<Rightarrow> string \<Rightarrow> string db_op" where
  "ensurePersonalTeamDB e userID d =
     (case find_personal_team userID d of
        (Inr teamID, d') \<Rightarrow> if teamID \<noteq> [] then (Inr teamID, d') else make_personal_team e userID d'
      | (Inl _, d') \<Rightarrow> make_personal_team e userID d')"

definition createProjectDB :: "draws \<Rightarrow> string \<Rightarrow> string \<Rightarrow> string \<Rightarrow> string \<Rightarrow> Project db_op" where
  "createProjectDB e ownerID name description teamID =
     db_bind (if teamID = [] then ensurePersonalTeamDB e ownerID else db_return teamID)
       (\<lambda>tid. case generateMasterKey (key_bytes e) of
                Inl err \<Rightarrow> (\<lambda>d. (Inl (ErrWrap ''failed to generate master key: '' err), d))
              | Inr masterKey \<Rightarrow>
                  (let p = new_project e ownerID name description tid masterKey
                   in db_bind (insert_project (project_to_row p)) (\<lambda>_. db_return p)))"

definition getProjectDB :: "string \<Rightarrow> Project db_op" where
  "getProjectDB i =
     db_bind (query_rows (\<lambda>t. first_row (select_where (\<lambda>r. pr_id r = i) (projects_tab t))))
       (\<lambda>r. db_return (row_to_project r))"

text \<open>\<open>JOIN ... WHERE\<close> pairs every row with every member that matches; \<open>DISTINCT\<close> drops what repeats.\<close>

definition join_members :: "('r \<Rightarrow> string) \<Rightarrow> 'r list \<Rightarrow> member_row list \<Rightarrow> ('r \<times> member_row) list" where
  "join_members team rs ms = concat (map (\<lambda>r. map (\<lambda>m. (r, m)) (filter (\<lambda>m. me_team_id m = team r) ms)) rs)"

definition select_projects :: "string \<Rightarrow> string \<Rightarrow> db_tables \<Rightarrow> project_row list" where
  "select_projects userID teamID t =
     (if userID = [] \<and> teamID = [] then projects_tab t
      else if userID \<noteq> [] \<and> teamID = [] then
        remdups (map fst (filter (\<lambda>(p, m). me_user_id m = userID)
          (join_members pr_team_id (projects_tab t) (team_members t))))
      else if userID = [] \<and> teamID \<noteq> [] then
        select_where (\<lambda>p. pr_team_id p = teamID) (projects_tab t)
      else
        remdups (map fst (filter (\<lambda>(p, m). me_user_id m = userID \<and> pr_team_id p = teamID)
          (join_members pr_team_id (projects_tab t) (team_members t)))))"

definition listProjectsDB :: "string \<Rightarrow> string \<Rightarrow> Project list db_op" where
  "listProjectsDB userID teamID =
     query_rows (\<lambda>t. Inr (map row_to_project (select_projects userID teamID t)))"

definition createTeamDB :: "draws \<Rightarrow> string \<Rightarrow> string \<Rightarrow> Team db_op" where
  "createTeamDB e ownerID name =
     transaction
       (db_bind (insert_team \<lparr>tr_id = team_id_of e, tr_name = name, tr_created_at = team_time e\<rparr>)
         (\<lambda>_. db_bind (insert_member (owner_row (team_id_of e) ownerID))
           (\<lambda>_. db_return \<lparr>TID = team_id_of e, TName = name, TMembers = [owner_member ownerID],
                           TCreatedAt = team_time e\<rparr>)))"

text \<open>The rows of the list carry no members.\<close>

definition listTeamsDB :: "string \<Rightarrow> Team list db_op" where
  "listTeamsDB userID =
     query_rows (\<lambda>t. Inr (map (\<lambda>r. \<lparr>TID = tr_id r, TName = tr_name r, TMembers = [], TCreatedAt = tr_created_at r\<rparr>)
       (if userID = [] then teams_tab t
        else remdups (map fst (filter (\<lambda>(tm, m). me_user_id m = userID)
          (join_members tr_id (teams_tab t) (team_members t)))))))"

definition inviteMemberDB :: "string \<Rightarrow> string \<Rightarrow> string \<Rightarrow> string \<Rightarrow> Member db_op" where
  "inviteMemberDB teamID userID email role d =
     (let r = normalizeRole role in
      if r = [] then (Inl (ErrMsg ''invalid role''), d)
      else transaction
        (db_bind (delete_member teamID userID email)
          (\<lambda>_. db_bind (insert_member \<lparr>me_team_id = teamID, me_user_id = userID, me_email = email, me_role = r\<rparr>)
            (\<lambda>_. db_return \<lparr>MUserID = userID, MEmail = email, MRole = r\<rparr>))) d)"

text \<open>\<open>COALESCE(NULLIF(user_id, ''), NULLIF(email, ''))\<close> of a row, and \<open>COUNT(DISTINCT ...)\<close>, which
  does not count NULL.\<close>

definition row_key :: "member_row \<Rightarrow> string option" where
  "row_key m = (if me_user_id m \<noteq> [] then Some (me_user_id m) else if me_email m \<noteq> [] then Some (me_email m) else None)"

definition count_distinct :: "'a option list \<Rightarrow> nat" where
  "count_distinct xs = length (remdups (filter (\<lambda>x. x \<noteq> None) xs))"

text \<open>A count whose query fails stays 0: the error of \<open>Scan\<close> is dropped.\<close>

definition scan_count :: "(db_tables \<Rightarrow> nat) \<Rightarrow> db \<Rightarrow> nat \<times> db" where
  "scan_count q d = (case query_rows (\<lambda>t. Inr (q t)) d of (Inr n, d') \<Rightarrow> (n, d') | (Inl _, d') \<Rightarrow> (0, d'))"

definition count_projects :: "string \<Rightarrow> db_tables \<Rightarrow> nat" where
  "count_projects userID t =
     (if userID = [] then length (projects_tab t)
      else count_distinct (map (\<lambda>(p, m). Some (pr_id p)) (filter (\<lambda>(p, m). me_user_id m = userID)
        (join_members pr_team_id (projects_tab t) (team_members t)))))"

text \<open>\<open>team_members m JOIN teams t JOIN team_members me\<close>.\<close>

definition count_users :: "string \<Rightarrow> db_tables \<Rightarrow> nat" where
  "count_users userID t =
     (if userID = [] then count_distinct (map row_key (team_members t))
      else count_distinct (concat (map (\<lambda>m. concat (map (\<lambda>(tm, me). if me_user_id me = userID then [row_key m] else [])
        (join_members tr_id (filter (\<lambda>tm. tr_id tm = me_team_id m) (teams_tab t)) (team_members t)))) (team_members t))))"

definition statsDB :: "string \<Rightarrow> db \<Rightarrow> project_stats \<times> db" where
  "statsDB userID d =
     (case scan_count (count_projects userID) d of
        (n, d1) \<Rightarrow>
          (case scan_count (count_users userID) d1 of
             (k, d2) \<Rightarrow> (\<lparr>totalProjects = n, totalDeployments = 0, activeUsers = k, lastDeployment = zero_time\<rparr>, d2)))"

definition getProjectMasterKeyDB :: "string \<Rightarrow> string db_op" where
  "getProjectMasterKeyDB projectID d =
     (case query_rows (\<lambda>t. first_row (select_where (\<lambda>r. pr_id r = projectID) (projects_tab t))) d of
        (Inl e, d') \<Rightarrow> (Inl e, d')
      | (Inr r, d') \<Rightarrow>
          (if pr_master_key r = [] then Inl (ErrMsg ''project has no master key'') else Inr (pr_master_key r), d'))"

section \<open>The service\<close>

datatype proj_service = InMaps proj_memory | InDb db

definition run_db :: "'a db_op \<Rightarrow> db \<Rightarrow> 'a res \<times> proj_service" where
  "run_db m d = apsnd InDb (m d)"

definition CreateProject ::
  "draws \<Rightarrow> string \<Rightarrow> string \<Rightarrow> string \<Rightarrow> string \<Rightarrow> proj_service \<Rightarrow> Project res \<times> proj_service" where
  "CreateProject e ownerID name description teamID s =
     (if blank name then (Inl (ErrMsg ''project name required''), s)
      else if blank ownerID then (Inl (ErrMsg ''owner_id required''), s)
      else (case s of
              InDb d \<Rightarrow> run_db (createProjectDB e ownerID name description teamID) d
            | InMaps m \<Rightarrow> apsnd InMaps (mem_createProject e ownerID name description teamID m)))"

definition GetProject :: "string \<Rightarrow> proj_service \<Rightarrow> Project res \<times> proj_service" where
  "GetProject i s =
     (if blank i then (Inl (ErrMsg ''project id required''), s)
      else (case s of InDb d \<Rightarrow> run_db (getProjectDB i) d | InMaps m \<Rightarrow> (mem_getProject i m, s)))"

definition ListProjects :: "string \<Rightarrow> string \<Rightarrow> proj_service \<Rightarrow> Project list res \<times> proj_service" where
  "ListProjects userID teamID s =
     (case s of
        InDb d \<Rightarrow> run_db (listProjectsDB userID teamID) d
      | InMaps m \<Rightarrow> (Inr (mem_listProjects userID teamID m), s))"

definition CreateTeam :: "draws \<Rightarrow> string \<Rightarrow> string \<Rightarrow> proj_service \<Rightarrow> Team res \<times> proj_service" where
  "CreateTeam e ownerID name s =
     (if blank ownerID then (Inl (ErrMsg ''owner_id required''), s)
      else if blank name then (Inl (ErrMsg ''team name required''), s)
      else (case s of
              InDb d \<Rightarrow> run_db (createTeamDB e ownerID name) d
            | InMaps m \<Rightarrow> apsnd InMaps (mem_createTeam e ownerID name m)))"

definition ListTeams :: "string \<Rightarrow> proj_service \<Rightarrow> Team list res \<times> proj_service" where
  "ListTeams userID s =
     (case s of InDb d \<Rightarrow> run_db (listTeamsDB userID) d | InMaps m \<Rightarrow> (Inr (mem_listTeams userID m), s))"

definition InviteMember ::
  "string \<Rightarrow> string \<Rightarrow> string \<Rightarrow> string \<Rightarrow> proj_service \<Rightarrow> Member res \<times> proj_service" where
  "InviteMember teamID userID email role s =
     (if blank teamID then (Inl (ErrMsg ''team_id required''), s)
      else if blank userID \<and> blank email then (Inl (ErrMsg ''user_id or email required''), s)
      else (case s of
              InDb d \<Rightarrow> run_db (inviteMemberDB teamID userID email role) d
            | InMaps m \<Rightarrow> apsnd InMaps (mem_inviteMember teamID userID email role m)))"

definition Stats :: "string \<Rightarrow> proj_service \<Rightarrow> project_stats \<times> proj_service" where
  "Stats userID s =
     (case s of InDb d \<Rightarrow> apsnd InDb (statsDB userID d) | InMaps m \<Rightarrow> (mem_stats userID m, s))"

definition GetProjectMasterKey :: "string \<Rightarrow> proj_service \<Rightarrow> string res \<times> proj_service" where
  "GetProjectMasterKey projectID s =
     (case s of InDb d \<Rightarrow> run_db (getProjectMasterKeyDB projectID) d | InMaps m \<Rightarrow> (mem_masterKey projectID m, s))"

section \<open>What the statements do\<close>

lemma insert_team_Inr: "insert_team r d = (Inr u, d') \<Longrightarrow> tr_id r \<notin> tr_id ` set (teams_tab (tables d)) \<and>
    tables d' = (tables d)\<lparr>teams_tab := teams_tab (tables d) @ [r]\<rparr>"
  unfolding insert_team_def by (drule exec_Inr) (auto simp: insert_row_def split: if_splits)

lemma insert_member_Inr: "insert_member r d = (Inr u, d') \<Longrightarrow> member_pk r \<notin> member_pk ` set (team_members (tables d)) \<and>
    tables d' = (tables d)\<lparr>team_members := team_members (tables d) @ [r]\<rparr>"
  unfolding insert_member_def by (drule exec_Inr) (auto simp: insert_row_def split: if_splits)

lemma insert_personal_Inr: "insert_personal r d = (Inr u, d') \<Longrightarrow> pe_user_id r \<notin> pe_user_id ` set (personal_teams (tables d)) \<and>
    tables d' = (tables d)\<lparr>personal_teams := personal_teams (tables d) @ [r]\<rparr>"
  unfolding insert_personal_def by (drule exec_Inr) (auto simp: insert_row_def split: if_splits)

lemma insert_project_Inr: "insert_project r d = (Inr u, d') \<Longrightarrow> pr_id r \<notin> pr_id ` set (projects_tab (tables d)) \<and>
    tables d' = (tables d)\<lparr>projects_tab := projects_tab (tables d) @ [r]\<rparr>"
  unfolding insert_project_def by (drule exec_Inr) (auto simp: insert_row_def split: if_splits)

lemma delete_member_Inr: "delete_member i u e d = (Inr x, d') \<Longrightarrow>
    tables d' = (tables d)\<lparr>team_members := delete_where (\<lambda>m. member_pk m = (i, u, e)) (team_members (tables d))\<rparr>"
  unfolding delete_member_def by (drule exec_write) (simp add: member_pk_def)

lemma insert_project_Inl: "insert_project r d = (Inl e, d') \<Longrightarrow> tables d' = tables d"
  unfolding insert_project_def by (rule exec_Inl)

lemma insert_project_done:
  "db_healthy d \<Longrightarrow> pr_id r \<notin> pr_id ` set (projects_tab (tables d)) \<Longrightarrow>
    \<exists>d'. insert_project r d = (Inr (), d') \<and> db_healthy d' \<and>
      tables d' = (tables d)\<lparr>projects_tab := projects_tab (tables d) @ [r]\<rparr>"
  unfolding insert_project_def by (erule exec_done) (simp add: insert_row_def)

lemma insert_member_done:
  "db_healthy d \<Longrightarrow> member_pk r \<notin> member_pk ` set (team_members (tables d)) \<Longrightarrow>
    \<exists>d'. insert_member r d = (Inr (), d') \<and> db_healthy d' \<and>
      tables d' = (tables d)\<lparr>team_members := team_members (tables d) @ [r]\<rparr>"
  unfolding insert_member_def by (erule exec_done) (simp add: insert_row_def)

lemma delete_member_done:
  "db_healthy d \<Longrightarrow> \<exists>d'. delete_member i u e d = (Inr (), d') \<and> db_healthy d' \<and>
      tables d' = (tables d)\<lparr>team_members := delete_where (\<lambda>m. me_team_id m = i \<and> me_user_id m = u \<and> me_email m = e) (team_members (tables d))\<rparr>"
  unfolding delete_member_def by (erule exec_done) simp

lemmas statement_simps = insert_row_def owner_row_def member_pk_def

section \<open>The invariant of the tables\<close>

text \<open>
  Primary keys are unique; every team has a member; the team of every personal mapping exists and
  has its user as a member; every role is one of the three.
\<close>

definition proj_db_ok :: "db_tables \<Rightarrow> bool" where
  "proj_db_ok t \<longleftrightarrow> tables_ok t \<and>
     tr_id ` set (teams_tab t) \<subseteq> me_team_id ` set (team_members t) \<and>
     pe_team_id ` set (personal_teams t) \<subseteq> tr_id ` set (teams_tab t) \<and>
     (\<lambda>r. (pe_team_id r, pe_user_id r)) ` set (personal_teams t) \<subseteq>
       (\<lambda>m. (me_team_id m, me_user_id m)) ` set (team_members t) \<and>
     (\<forall>m \<in> set (team_members t). role_ok (me_role m))"

definition add_team :: "team_row \<Rightarrow> member_row \<Rightarrow> db_tables \<Rightarrow> db_tables" where
  "add_team r m t = t\<lparr>teams_tab := teams_tab t @ [r], team_members := team_members t @ [m]\<rparr>"

lemma add_team_ok:
  assumes "proj_db_ok t" and "tr_id r \<notin> tr_id ` set (teams_tab t)" and "me_team_id m = tr_id r"
    and "member_pk m \<notin> member_pk ` set (team_members t)" and "role_ok (me_role m)"
  shows "proj_db_ok (add_team r m t)"
  using assms by (auto simp: proj_db_ok_def add_team_def tables_ok_def)

lemma createTeamDB_Inr:
  assumes "createTeamDB e u n d = (Inr tm, d')"
  shows "\<exists>r. r = \<lparr>tr_id = team_id_of e, tr_name = n, tr_created_at = team_time e\<rparr> \<and>
    tr_id r \<notin> tr_id ` set (teams_tab (tables d)) \<and>
    member_pk (owner_row (team_id_of e) u) \<notin> member_pk ` set (team_members (tables d)) \<and>
    tables d' = add_team r (owner_row (team_id_of e) u) (tables d) \<and>
    tm = \<lparr>TID = team_id_of e, TName = n, TMembers = [owner_member u], TCreatedAt = team_time e\<rparr>"
  using transaction_Inr [OF assms [unfolded createTeamDB_def]]
  by (auto simp: db_bind_Inr add_team_def dest!: insert_team_Inr insert_member_Inr)

lemma make_personal_team_Inr:
  assumes "make_personal_team e u d = (Inr tid, d')"
  shows "\<exists>r. r = \<lparr>tr_id = team_id_of e, tr_name = ''Personal'', tr_created_at = team_time e\<rparr> \<and>
    tr_id r \<notin> tr_id ` set (teams_tab (tables d)) \<and>
    member_pk (owner_row (team_id_of e) u) \<notin> member_pk ` set (team_members (tables d)) \<and>
    u \<notin> pe_user_id ` set (personal_teams (tables d)) \<and> tid = team_id_of e \<and>
    tables d' = (add_team r (owner_row (team_id_of e) u) (tables d))
      \<lparr>personal_teams := personal_teams (tables d) @ [\<lparr>pe_user_id = u, pe_team_id = team_id_of e\<rparr>]\<rparr>"
  using transaction_Inr [OF assms [unfolded make_personal_team_def]]
  by (auto simp: db_bind_Inr add_team_def dest!: insert_team_Inr insert_member_Inr insert_personal_Inr)

lemma make_personal_team_Inl: "make_personal_team e u d = (Inl x, d') \<Longrightarrow> tables d' = tables d"
  unfolding make_personal_team_def by (rule transaction_Inl)

lemma find_personal_team_tables [simp]: "tables (snd (find_personal_team u d)) = tables d"
  by (simp add: find_personal_team_def db_bind_def db_return_def query_rows_alt split: sum.split)

text \<open>A personal team is either the one recorded, or made: team, owner and record together.\<close>

lemma ensurePersonalTeamDB_cases:
  assumes "ensurePersonalTeamDB e u d = (r, d')"
  shows "tables d' = tables d \<or> (\<exists>d1 tid. tables d1 = tables d \<and> make_personal_team e u d1 = (Inr tid, d') \<and> r = Inr tid)"
proof -
  obtain x d1 where f: "find_personal_team u d = (x, d1)" by fastforce
  then have t: "tables d1 = tables d" using find_personal_team_tables [of u d] by simp
  have "d' = d1 \<or> make_personal_team e u d1 = (r, d')"
    using assms unfolding ensurePersonalTeamDB_def f by (cases x) (auto split: if_splits)
  then show ?thesis
  proof
    assume m: "make_personal_team e u d1 = (r, d')"
    show ?thesis
    proof (cases r)
      case (Inl y)
      with make_personal_team_Inl m t show ?thesis by metis
    next
      case (Inr tid)
      with m t show ?thesis by blast
    qed
  qed (use t in simp)
qed

lemma ensurePersonalTeamDB_ok:
  assumes "proj_db_ok (tables d)" and "ensurePersonalTeamDB e u d = (r, d')"
  shows "proj_db_ok (tables d')"
  using ensurePersonalTeamDB_cases [OF assms(2)]
proof (elim disjE exE conjE)
  fix d1 tid assume t: "tables d1 = tables d" and "make_personal_team e u d1 = (Inr tid, d')"
  from make_personal_team_Inr [OF this(2)] assms(1) t
  show ?thesis
    using add_team_ok [of "tables d1" _ "owner_row (team_id_of e) u"]
    by (auto simp: proj_db_ok_def tables_ok_def add_team_def owner_row_def)
qed (use assms in simp)

lemma createProjectDB_tables:
  assumes "createProjectDB e u n c tm d = (r, d')"
  obtains (none) "tables d' = tables d" "\<exists>x. r = Inl x"
    | (team) y d1 x where "ensurePersonalTeamDB e u d = (y, d1)" "tables d' = tables d1" "tm = []" "r = Inl x"
    | (project) d1 tid k where "if tm = [] then ensurePersonalTeamDB e u d = (Inr tid, d1) else tid = tm \<and> d1 = d"
        "generateMasterKey (key_bytes e) = Inr k"
        "pr_id (project_to_row (new_project e u n c tid k)) \<notin> pr_id ` set (projects_tab (tables d1))"
        "tables d' = (tables d1)\<lparr>projects_tab := projects_tab (tables d1) @ [project_to_row (new_project e u n c tid k)]\<rparr>"
        "r = Inr (new_project e u n c tid k)"
proof -
  define m where "m = (if tm = [] then ensurePersonalTeamDB e u else db_return tm)"
  obtain y d1 where m1: "m d = (y, d1)" by fastforce
  show ?thesis
  proof (cases y)
    case (Inl x)
    with assms m1 have "r = Inl x" "d' = d1" by (simp_all add: createProjectDB_def m_def db_bind_def)
    with m1 Inl show ?thesis by (auto simp: m_def db_return_def split: if_splits intro: team none)
  next
    case (Inr tid)
    show ?thesis
    proof (cases "generateMasterKey (key_bytes e)")
      case (Inl x)
      with assms m1 Inr have "r = Inl (ErrWrap ''failed to generate master key: '' x)" "d' = d1"
        by (auto simp: createProjectDB_def m_def db_bind_def split: if_splits)
      with m1 Inr show ?thesis by (auto simp: m_def db_return_def split: if_splits intro: team none)
    next
      case (Inr k)
      let ?p = "new_project e u n c tid k"
      have eq: "db_bind (insert_project (project_to_row ?p)) (\<lambda>_. db_return ?p) d1 = (r, d')"
        using assms m1 Inr \<open>y = Inr tid\<close> by (auto simp: createProjectDB_def m_def db_bind_def Let_def split: if_splits)
      show ?thesis
      proof (cases r)
        case (Inl x)
        with eq have "tables d' = tables d1" by (auto simp: db_bind_Inl dest!: insert_project_Inl)
        with m1 Inl \<open>y = Inr tid\<close> show ?thesis by (auto simp: m_def db_return_def split: if_splits intro: team none)
      next
        case (Inr q)
        with eq have "pr_id (project_to_row ?p) \<notin> pr_id ` set (projects_tab (tables d1))"
          "tables d' = (tables d1)\<lparr>projects_tab := projects_tab (tables d1) @ [project_to_row ?p]\<rparr>" "q = ?p"
          by (auto simp: db_bind_Inr dest!: insert_project_Inr)
        with m1 Inr \<open>y = Inr tid\<close> \<open>generateMasterKey (key_bytes e) = Inr k\<close> show ?thesis
          by (intro project [of tid d1 k]) (auto simp: m_def db_return_def split: if_splits)
      qed
    qed
  qed
qed

lemma createProjectDB_ok:
  assumes "proj_db_ok (tables d)" and "createProjectDB e u n c tm d = (r, d')"
  shows "proj_db_ok (tables d')"
  using assms(2)
proof (cases rule: createProjectDB_tables)
  case none
  with assms(1) show ?thesis by simp
next
  case (team y d1 x)
  with ensurePersonalTeamDB_ok [OF assms(1)] show ?thesis by simp
next
  case (project d1 tid k)
  then have "proj_db_ok (tables d1)"
    using ensurePersonalTeamDB_ok [OF assms(1)] assms(1) by (auto split: if_splits)
  with project(3,4) show ?thesis by (simp add: proj_db_ok_def tables_ok_def)
qed

lemma createTeamDB_ok:
  assumes "proj_db_ok (tables d)" and "createTeamDB e u n d = (r, d')"
  shows "proj_db_ok (tables d')"
proof (cases r)
  case (Inl x)
  with assms transaction_Inl show ?thesis unfolding createTeamDB_def by metis
next
  case (Inr tm)
  with createTeamDB_Inr assms obtain r' where
    "tr_id r' \<notin> tr_id ` set (teams_tab (tables d))" "tr_id r' = team_id_of e"
    "member_pk (owner_row (team_id_of e) u) \<notin> member_pk ` set (team_members (tables d))"
    "tables d' = add_team r' (owner_row (team_id_of e) u) (tables d)" by fastforce
  with add_team_ok [OF assms(1)] show ?thesis by (simp add: owner_row_def)
qed

lemma inviteMemberDB_Inr:
  assumes "inviteMemberDB i u em role d = (Inr m, d')"
  shows "normalizeRole role \<noteq> [] \<and> m = \<lparr>MUserID = u, MEmail = em, MRole = normalizeRole role\<rparr> \<and>
    tables d' = (tables d)\<lparr>team_members := delete_where (\<lambda>x. member_pk x = (i, u, em)) (team_members (tables d)) @
      [\<lparr>me_team_id = i, me_user_id = u, me_email = em, me_role = normalizeRole role\<rparr>]\<rparr>"
proof -
  let ?m = "db_bind (delete_member i u em)
          (\<lambda>_. db_bind (insert_member \<lparr>me_team_id = i, me_user_id = u, me_email = em, me_role = normalizeRole role\<rparr>)
            (\<lambda>_. db_return \<lparr>MUserID = u, MEmail = em, MRole = normalizeRole role\<rparr>))"
  have r: "normalizeRole role \<noteq> []" and t: "transaction ?m d = (Inr m, d')"
    using assms by (auto simp: inviteMemberDB_def Let_def split: if_splits)
  from transaction_Inr [OF t] r show ?thesis
    by (auto simp: db_bind_Inr dest!: delete_member_Inr insert_member_Inr)
qed

lemma inviteMemberDB_ok:
  assumes "proj_db_ok (tables d)" and "inviteMemberDB i u em role d = (r, d')"
  shows "proj_db_ok (tables d')"
proof (cases r)
  case (Inl x)
  with assms transaction_Inl show ?thesis unfolding inviteMemberDB_def Let_def by (metis prod.inject)
next
  case (Inr m)
  with inviteMemberDB_Inr assms(2) have I: "normalizeRole role \<noteq> []"
    "tables d' = (tables d)\<lparr>team_members := delete_where (\<lambda>x. member_pk x = (i, u, em)) (team_members (tables d)) @
      [\<lparr>me_team_id = i, me_user_id = u, me_email = em, me_role = normalizeRole role\<rparr>]\<rparr>" by blast+
  have "role_ok (normalizeRole role)" using I(1) normalizeRole_ok by blast
  with assms(1) I(2) show ?thesis
    by (auto simp: proj_db_ok_def tables_ok_def delete_where_def distinct_map_filter member_pk_def image_iff)
qed

section \<open>Reachable states\<close>

text \<open>The service is used one operation at a time, with any arguments, draws and faults.\<close>

inductive proj_step :: "proj_service \<Rightarrow> proj_service \<Rightarrow> bool" where
  create_project: "proj_step s (snd (CreateProject e u n c t s))"
| get_project: "proj_step s (snd (GetProject i s))"
| list_projects: "proj_step s (snd (ListProjects u t s))"
| create_team: "proj_step s (snd (CreateTeam e u n s))"
| list_teams: "proj_step s (snd (ListTeams u s))"
| invite_member: "proj_step s (snd (InviteMember i u em r s))"
| stats: "proj_step s (snd (Stats u s))"
| master_key: "proj_step s (snd (GetProjectMasterKey i s))"

inductive proj_reachable :: "proj_service \<Rightarrow> bool" where
  start_maps: "proj_reachable (InMaps new_proj_memory)"
| start_db: "tables d = empty_tables \<Longrightarrow> proj_reachable (InDb d)"
| step: "proj_reachable s \<Longrightarrow> proj_step s s' \<Longrightarrow> proj_reachable s'"

inductive_cases proj_stepE: "proj_step s s'"

definition proj_service_ok :: "proj_service \<Rightarrow> bool" where
  "proj_service_ok s = (case s of InMaps m \<Rightarrow> proj_memory_ok m | InDb d \<Rightarrow> proj_db_ok (tables d))"

lemma run_db_ok: "(\<And>r d'. m d = (r, d') \<Longrightarrow> proj_db_ok (tables d')) \<Longrightarrow> proj_service_ok (snd (run_db m d))"
  by (cases "m d") (simp add: run_db_def proj_service_ok_def)

lemma read_only:
  "tables (snd (getProjectDB i d)) = tables d" "tables (snd (listProjectsDB u t d)) = tables d"
  "tables (snd (listTeamsDB u d)) = tables d" "tables (snd (statsDB u d)) = tables d"
  "tables (snd (getProjectMasterKeyDB i d)) = tables d"
  by (simp_all add: getProjectDB_def listProjectsDB_def listTeamsDB_def statsDB_def scan_count_def
      getProjectMasterKeyDB_def db_bind_def db_return_def query_rows_alt split: sum.split)

lemma run_db_read: "tables (snd (m d)) = tables d \<Longrightarrow> proj_db_ok (tables d) \<Longrightarrow> proj_service_ok (snd (run_db m d))"
  by (cases "m d") (simp add: run_db_def proj_service_ok_def)

lemma CreateProject_ok:
  assumes "proj_service_ok s"
  shows "proj_service_ok (snd (CreateProject e u n c t s))"
proof (cases s)
  case (InMaps m)
  with assms mem_createProject_ok [of m e u n c t] show ?thesis
    by (cases "mem_createProject e u n c t m") (simp add: CreateProject_def proj_service_ok_def)
next
  case (InDb d)
  then have "proj_service_ok (snd (run_db (createProjectDB e u n c t) d))"
    using assms createProjectDB_ok [of d] by (intro run_db_ok) (simp add: proj_service_ok_def)
  with InDb assms show ?thesis by (simp add: CreateProject_def)
qed

lemma CreateTeam_ok:
  assumes "proj_service_ok s"
  shows "proj_service_ok (snd (CreateTeam e u n s))"
proof (cases s)
  case (InMaps m)
  with assms mem_createTeam_ok [of m e u n] show ?thesis
    by (cases "mem_createTeam e u n m") (simp add: CreateTeam_def proj_service_ok_def)
next
  case (InDb d)
  then have "proj_service_ok (snd (run_db (createTeamDB e u n) d))"
    using assms createTeamDB_ok [of d] by (intro run_db_ok) (simp add: proj_service_ok_def)
  with InDb assms show ?thesis by (simp add: CreateTeam_def)
qed

lemma InviteMember_ok:
  assumes "proj_service_ok s"
  shows "proj_service_ok (snd (InviteMember i u em r s))"
proof (cases s)
  case (InMaps m)
  with assms mem_inviteMember_ok [of m i u em r] show ?thesis
    by (cases "mem_inviteMember i u em r m") (simp add: InviteMember_def proj_service_ok_def)
next
  case (InDb d)
  then have "proj_service_ok (snd (run_db (inviteMemberDB i u em r) d))"
    using assms inviteMemberDB_ok [of d] by (intro run_db_ok) (simp add: proj_service_ok_def)
  with InDb assms show ?thesis by (simp add: InviteMember_def)
qed

lemma proj_step_ok: "proj_step s s' \<Longrightarrow> proj_service_ok s \<Longrightarrow> proj_service_ok s'"
proof (induction rule: proj_step.induct)
  case (get_project s i)
  then show ?case
    by (cases s) (auto simp: GetProject_def proj_service_ok_def read_only intro!: run_db_read [unfolded proj_service_ok_def])
next
  case (list_projects s u t)
  then show ?case
    by (cases s) (auto simp: ListProjects_def proj_service_ok_def read_only intro!: run_db_read [unfolded proj_service_ok_def])
next
  case (list_teams s u)
  then show ?case
    by (cases s) (auto simp: ListTeams_def proj_service_ok_def read_only intro!: run_db_read [unfolded proj_service_ok_def])
next
  case (stats s u)
  then show ?case
    by (cases s) (simp_all add: Stats_def proj_service_ok_def read_only)
next
  case (master_key s i)
  then show ?case
    by (cases s) (auto simp: GetProjectMasterKey_def proj_service_ok_def read_only intro!: run_db_read [unfolded proj_service_ok_def])
qed (simp_all add: CreateProject_ok CreateTeam_ok InviteMember_ok)

lemma proj_db_ok_empty: "proj_db_ok empty_tables"
  using tables_ok_empty by (simp add: proj_db_ok_def empty_tables_def)

section \<open>Joins\<close>

lemma join_members_set: "(r, m) \<in> set (join_members f rs ms) \<longleftrightarrow> r \<in> set rs \<and> m \<in> set ms \<and> me_team_id m = f r"
  by (auto simp: join_members_def)

lemma set_map_pred_join:
  "fst ` {x \<in> set (join_members f rs ms). P (fst x) (snd x)} = {r \<in> set rs. \<exists>m \<in> set ms. me_team_id m = f r \<and> P r m}"
  (is "?L = ?R")
proof
  show "?R \<subseteq> ?L"
  proof
    fix r assume "r \<in> ?R"
    then obtain m where "(r, m) \<in> {x \<in> set (join_members f rs ms). P (fst x) (snd x)}"
      by (auto simp: join_members_set)
    from imageI [OF this, of fst] show "r \<in> ?L" by simp
  qed
qed (auto simp: join_members_set)

lemma select_projects_set:
  "set (select_projects u t T) =
     {p \<in> set (projects_tab T). (t \<noteq> [] \<longrightarrow> pr_team_id p = t) \<and>
        (u \<noteq> [] \<longrightarrow> (\<exists>m \<in> set (team_members T). me_team_id m = pr_team_id p \<and> me_user_id m = u))}"
  using set_map_pred_join [of pr_team_id "projects_tab T" "team_members T" "\<lambda>p m. me_user_id m = u"]
    set_map_pred_join [of pr_team_id "projects_tab T" "team_members T" "\<lambda>p m. me_user_id m = u \<and> pr_team_id p = t"]
  by (auto simp: select_projects_def select_where_def split_beta)

lemma select_projects_distinct: "tables_ok T \<Longrightarrow> distinct (select_projects u t T)"
  by (auto simp: select_projects_def select_where_def tables_ok_def distinct_map)

lemma count_distinct_Some: "count_distinct (map Some xs) = card (set xs)"
proof -
  have "filter (\<lambda>x. x \<noteq> None) (map Some xs) = map Some xs" by (simp add: filter_id_conv)
  then show ?thesis
    by (simp add: count_distinct_def length_remdups_card_conv card_image)
qed

lemma count_projects_length:
  assumes "tables_ok T"
  shows "count_projects u T = length (select_projects u [] T)"
proof (cases "u = []")
  case False
  let ?J = "filter (\<lambda>(p, m). me_user_id m = u) (join_members pr_team_id (projects_tab T) (team_members T))"
  have i: "inj_on pr_id (set (projects_tab T))" using assms by (simp add: tables_ok_def distinct_map)
  have s: "set (select_projects u [] T) = fst ` set ?J" using False by (simp add: select_projects_def)
  have "set (select_projects u [] T) \<subseteq> set (projects_tab T)" by (auto simp: select_projects_set)
  with i have "inj_on pr_id (set (select_projects u [] T))" by (rule inj_on_subset)
  then have "card (pr_id ` set (select_projects u [] T)) = length (select_projects u [] T)"
    using select_projects_distinct [OF assms] by (simp add: card_image distinct_card)
  moreover have "map (\<lambda>(p, m). Some (pr_id p)) ?J = map Some (map (pr_id \<circ> fst) ?J)" by auto
  then have "count_projects u T = card (pr_id ` fst ` set ?J)"
    using False by (simp only: count_projects_def if_False count_distinct_Some) (simp add: image_comp)
  ultimately show ?thesis by (simp add: s)
qed (simp add: count_projects_def select_projects_def)

section \<open>Reading back\<close>

lemma find_personal_team_alt:
  "find_personal_team u d =
     (if fst (next_fault d) then Inl ErrDriver
      else (case row_at pe_user_id (personal_teams (tables d)) u of
              None \<Rightarrow> Inl ErrNoRows | Some r \<Rightarrow> Inr (pe_team_id r)), snd (next_fault d))"
  by (auto simp: find_personal_team_def db_bind_def db_return_def query_rows_alt first_by_key split: option.split)

lemma getProjectDB_alt:
  "getProjectDB i d =
     (if fst (next_fault d) then Inl ErrDriver
      else (case row_at pr_id (projects_tab (tables d)) i of
              None \<Rightarrow> Inl ErrNoRows | Some r \<Rightarrow> Inr (row_to_project r)), snd (next_fault d))"
  by (auto simp: getProjectDB_def db_bind_def db_return_def query_rows_alt first_by_key split: option.split)

lemma row_to_project_row [simp]: "row_to_project (project_to_row p) = p"
  by (simp add: row_to_project_def project_to_row_def)

lemma project_to_row_sel [simp]: "pr_id (project_to_row p) = PID p" "pr_team_id (project_to_row p) = PTeamID p"
  "pr_master_key (project_to_row p) = PMasterKey p"
  by (simp_all add: project_to_row_def)

lemma new_project_sel [simp]:
  "PTeamID (new_project e u n c t k) = t" "PMasterKey (new_project e u n c t k) = k"
  "POwnerID (new_project e u n c t k) = u" "PID (new_project e u n c t k) = project_id_of e"
  by (simp_all add: new_project_def)

lemma project_id_not_blank: "\<not> blank (project_id_of e)"
  by (rule visible_not_blank [of "CHR ''p''"]) (auto simp: visible_def project_id_of_def randomID_def split: option.split)

text \<open>In a consistent database the user of a personal team is a member of it.\<close>

lemma ensured_member:
  assumes "proj_db_ok (tables d)" and "ensurePersonalTeamDB e u d = (Inr tid, d')"
  shows "\<exists>m \<in> set (team_members (tables d')). me_team_id m = tid \<and> me_user_id m = u"
proof -
  obtain x d1 where f: "find_personal_team u d = (x, d1)" by fastforce
  then have t: "tables d1 = tables d" using find_personal_team_tables [of u d] by simp
  have "make_personal_team e u d1 = (Inr tid, d') \<or> x = Inr tid \<and> d' = d1"
    using assms(2) unfolding ensurePersonalTeamDB_def f by (cases x) (auto split: if_splits)
  then show ?thesis
  proof
    assume "make_personal_team e u d1 = (Inr tid, d')"
    from make_personal_team_Inr [OF this] show ?thesis by (auto simp: add_team_def owner_row_def)
  next
    assume x: "x = Inr tid \<and> d' = d1"
    with f obtain r where "row_at pe_user_id (personal_teams (tables d)) u = Some r" "pe_team_id r = tid"
      by (auto simp: find_personal_team_alt split: if_splits option.splits)
    then have "r \<in> set (personal_teams (tables d))" "pe_user_id r = u" by (auto dest: row_at_Some)
    then have "(tid, u) \<in> (\<lambda>r. (pe_team_id r, pe_user_id r)) ` set (personal_teams (tables d))"
      using \<open>pe_team_id r = tid\<close> by force
    with assms(1) have "(tid, u) \<in> (\<lambda>m. (me_team_id m, me_user_id m)) ` set (team_members (tables d))"
      unfolding proj_db_ok_def by blast
    with x t show ?thesis by auto
  qed
qed

lemma ensurePersonalTeamDB_projects:
  assumes "ensurePersonalTeamDB e u d = (r, d')"
  shows "projects_tab (tables d') = projects_tab (tables d)"
  using ensurePersonalTeamDB_cases [OF assms] make_personal_team_Inr by (fastforce simp: add_team_def)

section \<open>Properties\<close>

text \<open>
  Property C4.  Whatever operations are called, with whatever arguments, random draws and refused
  statements, the state stays consistent: identifiers are unique, every team has a member, the
  team of a project in memory and of a personal record exists, every role is owner, admin or
  member, and in the database the user of a personal team is one of its members.
\<close>
theorem reachable_consistent:
  assumes "proj_reachable s"
  shows "case s of InMaps m \<Rightarrow> proj_memory_ok m | InDb d \<Rightarrow> proj_db_ok (tables d)"
proof -
  have "proj_service_ok s"
    using assms
  proof induction
    case (step s s')
    then show ?case using proj_step_ok by blast
  qed (simp_all add: proj_service_ok_def proj_memory_ok_new proj_db_ok_empty)
  then show ?thesis by (simp add: proj_service_ok_def)
qed

definition sample_draws :: draws where
  "sample_draws = \<lparr>team_bytes = Some ''abcdefgh'', project_bytes = Some ''ijklmnop'', key_bytes = Some (replicate 32 (CHR ''k'')),
     team_nano = 1, project_nano = 2, team_time = 3, project_time = 4\<rparr>"

theorem reachable_consistent_witness:
  "\<exists>d. snd (CreateProject sample_draws ''ada'' ''shop'' [] [] (InDb \<lparr>tables = empty_tables, faults = [False, True]\<rparr>)) = InDb d \<and>
     proj_db_ok (tables d)"
proof -
  let ?s = "InDb \<lparr>tables = empty_tables, faults = [False, True]\<rparr>"
  have r: "proj_reachable (snd (CreateProject sample_draws ''ada'' ''shop'' [] [] ?s))"
    by (rule proj_reachable.step [OF _ create_project]) (rule start_db, simp)
  have "\<exists>d. snd (CreateProject sample_draws ''ada'' ''shop'' [] [] ?s) = InDb d"
    by (simp add: CreateProject_def run_db_def apsnd_def map_prod_def split: prod.split)
  with reachable_consistent [OF r] show ?thesis by auto
qed


definition fresh_service :: proj_service where
  "fresh_service = InDb \<lparr>tables = empty_tables, faults = []\<rparr>"

text \<open>What one concrete request does, evaluated once for the witnesses.\<close>

lemma sample_project:
  "\<exists>p d. CreateProject sample_draws ''ada'' ''shop'' [] [] fresh_service = (Inr p, InDb d) \<and> db_healthy d"
proof -
  have "case CreateProject sample_draws ''ada'' ''shop'' [] [] fresh_service of (Inr p, InDb d) \<Rightarrow> faults d = [] | _ \<Rightarrow> False"
    by code_simp
  then show ?thesis by (auto simp: db_healthy_def split: prod.splits sum.splits proj_service.splits)
qed


text \<open>
  Property C24.  Who sees which projects, in both modes: a list restricted to a user and a team (the
  empty text restricts nothing) holds exactly the projects of that team whose team has that user
  as a member, each once, and the number of projects in the figures is the length of the user's
  list.
\<close>
theorem visible_projects:
  assumes "db_healthy d" and "tables_ok (tables d)" and "map_wf (mem_projects m)"
  shows "(\<exists>ps. fst (ListProjects u t (InDb d)) = Inr ps \<and> distinct ps \<and>
      set ps = row_to_project ` {p \<in> set (projects_tab (tables d)). (t \<noteq> [] \<longrightarrow> pr_team_id p = t) \<and>
        (u \<noteq> [] \<longrightarrow> (\<exists>x \<in> set (team_members (tables d)). me_team_id x = pr_team_id p \<and> me_user_id x = u))} \<and>
      (t = [] \<longrightarrow> totalProjects (fst (Stats u (InDb d))) = length ps)) \<and>
    (\<exists>ps. fst (ListProjects u t (InMaps m)) = Inr ps \<and>
      set ps = {p. \<exists>i. map_of (mem_projects m) i = Some p \<and> (t \<noteq> [] \<longrightarrow> PTeamID p = t) \<and>
        (u \<noteq> [] \<longrightarrow> isMemberLocked (PTeamID p) u m)} \<and>
      (t = [] \<longrightarrow> totalProjects (fst (Stats u (InMaps m))) = length ps))"
proof (intro conjI)
  let ?ps = "map row_to_project (select_projects u t (tables d))"
  have nf: "\<not> fst (next_fault d)" using next_fault_healthy [OF assms(1)] by blast
  have inj: "inj row_to_project" by (rule injI) (auto simp: row_to_project_def)
  have "fst (ListProjects u t (InDb d)) = Inr ?ps"
    using nf by (simp add: ListProjects_def run_db_def listProjectsDB_def query_rows_alt)
  moreover have "distinct ?ps"
    using select_projects_distinct [OF assms(2)] inj_on_subset [OF inj subset_UNIV] by (simp add: distinct_map)
  moreover have "t = [] \<longrightarrow> totalProjects (fst (Stats u (InDb d))) = length ?ps"
    using nf count_projects_length [OF assms(2)]
    by (simp add: Stats_def statsDB_def scan_count_def query_rows_alt split: prod.split)
  ultimately show "\<exists>ps. fst (ListProjects u t (InDb d)) = Inr ps \<and> distinct ps \<and>
      set ps = row_to_project ` {p \<in> set (projects_tab (tables d)). (t \<noteq> [] \<longrightarrow> pr_team_id p = t) \<and>
        (u \<noteq> [] \<longrightarrow> (\<exists>x \<in> set (team_members (tables d)). me_team_id x = pr_team_id p \<and> me_user_id x = u))} \<and>
      (t = [] \<longrightarrow> totalProjects (fst (Stats u (InDb d))) = length ps)"
    by (intro exI [of _ ?ps]) (simp add: select_projects_set)
next
  have "snd ` set (mem_projects m) = {p. \<exists>i. map_of (mem_projects m) i = Some p}"
    using map_wf_pair [OF assms(3)] by force
  then show "\<exists>ps. fst (ListProjects u t (InMaps m)) = Inr ps \<and>
      set ps = {p. \<exists>i. map_of (mem_projects m) i = Some p \<and> (t \<noteq> [] \<longrightarrow> PTeamID p = t) \<and>
        (u \<noteq> [] \<longrightarrow> isMemberLocked (PTeamID p) u m)} \<and>
      (t = [] \<longrightarrow> totalProjects (fst (Stats u (InMaps m))) = length ps)"
    by (auto simp: ListProjects_def mem_listProjects_def Stats_def mem_stats_def)
qed

theorem visible_projects_witness:
  "\<exists>ps. fst (ListProjects ''ada'' [] fresh_service) = Inr ps \<and> set ps = {}"
proof -
  have h: "db_healthy \<lparr>tables = empty_tables, faults = []\<rparr>" by (simp add: db_healthy_def)
  have k: "tables_ok (tables \<lparr>tables = empty_tables, faults = []\<rparr>)" by (simp add: tables_ok_empty)
  have w: "map_wf (mem_projects new_proj_memory)" by (simp add: new_proj_memory_def)
  have "projects_tab empty_tables = []" by (simp add: empty_tables_def)
  with visible_projects [OF h k w, of "''ada''" "[]"] show ?thesis by (auto simp: fresh_service_def)
qed

text \<open>
  Property C14.  A refused call leaves nothing half done, whichever statements fail: the tables are
  as before, except that a project that was refused after its owner's personal team was made
  leaves that complete team behind.
\<close>
theorem failed_calls_leave_tables:
  "(CreateTeam e u n (InDb d) = (Inl x, s') \<longrightarrow> (\<exists>d'. s' = InDb d' \<and> tables d' = tables d)) \<and>
   (InviteMember i u em role (InDb d) = (Inl x, s') \<longrightarrow> (\<exists>d'. s' = InDb d' \<and> tables d' = tables d)) \<and>
   (CreateProject e u n c tm (InDb d) = (Inl x, s') \<longrightarrow>
      (\<exists>d'. s' = InDb d' \<and> (tables d' = tables d \<or>
        tm = [] \<and> tables d' = (tables d)\<lparr>teams_tab := teams_tab (tables d) @
            [\<lparr>tr_id = team_id_of e, tr_name = ''Personal'', tr_created_at = team_time e\<rparr>],
          team_members := team_members (tables d) @ [owner_row (team_id_of e) u],
          personal_teams := personal_teams (tables d) @ [\<lparr>pe_user_id = u, pe_team_id = team_id_of e\<rparr>]\<rparr>)))"
proof (intro conjI impI)
  assume "CreateTeam e u n (InDb d) = (Inl x, s')"
  then show "\<exists>d'. s' = InDb d' \<and> tables d' = tables d"
    using transaction_Inl [of _ d x]
    by (cases "createTeamDB e u n d") (auto simp: CreateTeam_def run_db_def createTeamDB_def split: if_splits)
next
  assume "InviteMember i u em role (InDb d) = (Inl x, s')"
  then show "\<exists>d'. s' = InDb d' \<and> tables d' = tables d"
    using transaction_Inl [of _ d x]
    by (cases "inviteMemberDB i u em role d")
      (auto simp: InviteMember_def run_db_def inviteMemberDB_def Let_def split: if_splits)
next
  assume a: "CreateProject e u n c tm (InDb d) = (Inl x, s')"
  let ?made = "\<lambda>d'. tables d' = tables d \<or>
        tm = [] \<and> tables d' = (tables d)\<lparr>teams_tab := teams_tab (tables d) @
            [\<lparr>tr_id = team_id_of e, tr_name = ''Personal'', tr_created_at = team_time e\<rparr>],
          team_members := team_members (tables d) @ [owner_row (team_id_of e) u],
          personal_teams := personal_teams (tables d) @ [\<lparr>pe_user_id = u, pe_team_id = team_id_of e\<rparr>]\<rparr>"
  show "\<exists>d'. s' = InDb d' \<and> ?made d'"
  proof (cases "blank n \<or> blank u")
    case False
    with a obtain d' where "createProjectDB e u n c tm d = (Inl x, d')" and s: "s' = InDb d'"
      by (cases "createProjectDB e u n c tm d") (auto simp: CreateProject_def run_db_def)
    from this(1) have "?made d'"
    proof (cases rule: createProjectDB_tables)
      case (team y d1 x)
      from ensurePersonalTeamDB_cases [OF team(1)] team(2,3) show ?thesis
        by (auto simp: add_team_def dest!: make_personal_team_Inr)
    qed simp_all
    with s show ?thesis by blast
  qed (use a in \<open>auto simp: CreateProject_def split: if_splits\<close>)
qed

theorem failed_calls_leave_tables_witness:
  "\<exists>d'. snd (CreateTeam sample_draws ''ada'' ''core'' (InDb \<lparr>tables = empty_tables, faults = [False, False, True]\<rparr>)) = InDb d' \<and>
     tables d' = empty_tables"
proof -
  let ?s = "InDb \<lparr>tables = empty_tables, faults = [False, False, True]\<rparr>"
  have "\<exists>s'. CreateTeam sample_draws ''ada'' ''core'' ?s = (Inl ErrDriver, s')"
  proof -
    have "fst (CreateTeam sample_draws ''ada'' ''core'' ?s) = Inl ErrDriver" by code_simp
    then show ?thesis by (cases "CreateTeam sample_draws ''ada'' ''core'' ?s") simp
  qed
  then show ?thesis
    using conjunct1 [OF failed_calls_leave_tables [where e = sample_draws and u = "''ada''" and n = "''core''"
      and d = "\<lparr>tables = empty_tables, faults = [False, False, True]\<rparr>" and x = ErrDriver]]
    by fastforce
qed

text \<open>
  Property C25.  An accepted invitation with a user identifier takes effect, in both modes: the
  invited user sees every project of the team, with a role that is owner, admin or member.
\<close>
theorem invited_user_sees_projects:
  assumes "u \<noteq> []"
  shows "(InviteMember t u em r (InMaps m) = (Inr x, InMaps m') \<longrightarrow> role_ok (MRole x) \<and>
      (\<exists>ps. fst (ListProjects u t (InMaps m')) = Inr ps \<and>
         set ps = {p \<in> snd ` set (mem_projects m). PTeamID p = t})) \<and>
    (InviteMember t u em r (InDb d) = (Inr x, InDb d') \<and> db_healthy d' \<longrightarrow> role_ok (MRole x) \<and>
      (\<exists>ps. fst (ListProjects u t (InDb d')) = Inr ps \<and>
         set ps = row_to_project ` {p \<in> set (projects_tab (tables d)). pr_team_id p = t}))"
proof (rule conjI; rule impI)
  assume a: "InviteMember t u em r (InMaps m) = (Inr x, InMaps m')"
  then have t: "t \<noteq> []" by (auto simp: InviteMember_def split: if_splits)
  from a obtain tm where role: "normalizeRole r \<noteq> []" and tm: "map_of (mem_teams m) t = Some tm"
    and x: "x = \<lparr>MUserID = u, MEmail = em, MRole = normalizeRole r\<rparr>"
    and m': "m' = m\<lparr>mem_teams := gm_put t (tm\<lparr>TMembers := put_member x (TMembers tm)\<rparr>) (mem_teams m)\<rparr>"
    by (auto simp: InviteMember_def mem_inviteMember_def Let_def split: if_splits option.splits)
  have "isMemberLocked t u m'"
    using put_member_in [of x "TMembers tm"] x m' by (force simp: isMemberLocked_def list_ex_iff)
  then have "set (mem_listProjects u t m') = {p \<in> snd ` set (mem_projects m). PTeamID p = t}"
    using t assms m' by (auto simp: mem_listProjects_def)
  moreover have "role_ok (MRole x)" using role normalizeRole_ok x by fastforce
  ultimately show "role_ok (MRole x) \<and> (\<exists>ps. fst (ListProjects u t (InMaps m')) = Inr ps \<and>
         set ps = {p \<in> snd ` set (mem_projects m). PTeamID p = t})"
    by (simp add: ListProjects_def)
next
  assume a: "InviteMember t u em r (InDb d) = (Inr x, InDb d') \<and> db_healthy d'"
  then have t: "t \<noteq> []" by (auto simp: InviteMember_def split: if_splits)
  have "inviteMemberDB t u em r d = (Inr x, d')"
    using a by (cases "inviteMemberDB t u em r d") (auto simp: InviteMember_def run_db_def split: if_splits)
  from inviteMemberDB_Inr [OF this] have role: "normalizeRole r \<noteq> []"
    and x: "x = \<lparr>MUserID = u, MEmail = em, MRole = normalizeRole r\<rparr>"
    and d': "tables d' = (tables d)\<lparr>team_members := delete_where (\<lambda>x. member_pk x = (t, u, em)) (team_members (tables d)) @
      [\<lparr>me_team_id = t, me_user_id = u, me_email = em, me_role = normalizeRole r\<rparr>]\<rparr>" by blast+
  have nf: "\<not> fst (next_fault d')" using next_fault_healthy a by blast
  have "set (select_projects u t (tables d')) = {p \<in> set (projects_tab (tables d)). pr_team_id p = t}"
    using t assms d' by (auto simp: select_projects_set)
  then have "\<exists>ps. fst (ListProjects u t (InDb d')) = Inr ps \<and>
         set ps = row_to_project ` {p \<in> set (projects_tab (tables d)). pr_team_id p = t}"
    using nf by (simp add: ListProjects_def run_db_def listProjectsDB_def query_rows_alt)
  moreover have "role_ok (MRole x)" using role normalizeRole_ok x by fastforce
  ultimately show "role_ok (MRole x) \<and> (\<exists>ps. fst (ListProjects u t (InDb d')) = Inr ps \<and>
         set ps = row_to_project ` {p \<in> set (projects_tab (tables d)). pr_team_id p = t})" by blast
qed

definition team_service :: "proj_memory" where
  "team_service = new_proj_memory\<lparr>mem_teams := [(''t1'', \<lparr>TID = ''t1'', TName = ''core'', TMembers = [], TCreatedAt = 0\<rparr>)]\<rparr>"

theorem invited_user_sees_projects_witness:
  "\<exists>m'. snd (InviteMember ''t1'' ''bob'' [] ''Admin'' (InMaps team_service)) = InMaps m' \<and>
     fst (ListProjects ''bob'' ''t1'' (InMaps m')) = Inr []"
proof -
  have "case InviteMember ''t1'' ''bob'' [] ''Admin'' (InMaps team_service) of (Inr x, InMaps m) \<Rightarrow> True | _ \<Rightarrow> False"
    by code_simp
  then obtain x m' where r: "InviteMember ''t1'' ''bob'' [] ''Admin'' (InMaps team_service) = (Inr x, InMaps m')"
    by (auto split: prod.splits sum.splits proj_service.splits)
  have "mem_projects team_service = []" by (simp add: team_service_def new_proj_memory_def)
  with r conjunct1 [OF invited_user_sees_projects [of "''bob''"], of "''t1''" "[]" "''Admin''" team_service x m']
  show ?thesis by auto
qed

text \<open>
  The two modes differ on a team that does not exist: over the maps the project is
  refused, over a healthy database it is stored, and its creator does not see it in the list of
  projects when nobody is a member of that team.
\<close>
theorem unknown_team_differs:
  assumes "\<not> blank n" "\<not> blank u" "tm \<noteq> []" and "key_bytes e = Some k"
    and "map_of (mem_teams m) tm = None"
    and "db_healthy d" and "tm \<notin> me_team_id ` set (team_members (tables d))"
    and "project_id_of e \<notin> pr_id ` set (projects_tab (tables d))"
  shows "CreateProject e u n c tm (InMaps m) = (Inl (ErrMsg ''team not found''), InMaps m) \<and>
    (\<exists>p d'. CreateProject e u n c tm (InDb d) = (Inr p, InDb d') \<and> PTeamID p = tm \<and>
       projects_tab (tables d') = projects_tab (tables d) @ [project_to_row p] \<and>
       (\<exists>ps. fst (ListProjects u [] (InDb d')) = Inr ps \<and> p \<notin> set ps))"
proof
  let ?p = "new_project e u n c tm (hex_encode k)"
  obtain d' where i: "insert_project (project_to_row ?p) d = (Inr (), d')"
    and d': "tables d' = (tables d)\<lparr>projects_tab := projects_tab (tables d) @ [project_to_row ?p]\<rparr>"
    and h: "db_healthy d'"
    using insert_project_done [OF assms(6), of "project_to_row ?p"] assms(8) by auto
  have "CreateProject e u n c tm (InDb d) = (Inr ?p, InDb d')"
    using assms(1-4) i by (simp add: CreateProject_def run_db_def createProjectDB_def db_bind_def db_return_def generateMasterKey_def Let_def)
  moreover have "?p \<notin> row_to_project ` set (select_projects u [] (tables d'))"
  proof
    assume "?p \<in> row_to_project ` set (select_projects u [] (tables d'))"
    then obtain r where r: "r \<in> set (select_projects u [] (tables d'))" "?p = row_to_project r" by blast
    then have "pr_team_id r = tm" by (metis new_project_sel(1) row_to_project_def Project.select_convs(6))
    moreover have "u \<noteq> []" using assms(2) by auto
    then obtain m where "m \<in> set (team_members (tables d))" "me_team_id m = pr_team_id r"
      using r(1) d' by (auto simp: select_projects_set)
    ultimately show False using assms(7) by (metis imageI)
  qed
  then have "\<exists>ps. fst (ListProjects u [] (InDb d')) = Inr ps \<and> ?p \<notin> set ps"
    using next_fault_healthy [OF h] by (simp add: ListProjects_def run_db_def listProjectsDB_def query_rows_alt)
  ultimately show "\<exists>p d'. CreateProject e u n c tm (InDb d) = (Inr p, InDb d') \<and> PTeamID p = tm \<and>
       projects_tab (tables d') = projects_tab (tables d) @ [project_to_row p] \<and>
       (\<exists>ps. fst (ListProjects u [] (InDb d')) = Inr ps \<and> p \<notin> set ps)"
    using d' by (intro exI [of _ ?p] exI [of _ d']) simp
qed (use assms in \<open>simp add: CreateProject_def mem_createProject_def\<close>)

theorem unknown_team_differs_witness:
  "fst (CreateProject sample_draws ''ada'' ''shop'' [] ''ghost'' (InMaps new_proj_memory)) = Inl (ErrMsg ''team not found'') \<and>
   (\<exists>p. fst (CreateProject sample_draws ''ada'' ''shop'' [] ''ghost'' fresh_service) = Inr p)"
proof -
  have b: "\<not> blank ''shop''" "\<not> blank ''ada''" by code_simp+
  show ?thesis
    using unknown_team_differs [OF b, of "''ghost''" sample_draws "replicate 32 (CHR ''k'')" new_proj_memory
      "\<lparr>tables = empty_tables, faults = []\<rparr>" "[]"]
    by (auto simp: fresh_service_def sample_draws_def new_proj_memory_def db_healthy_def empty_tables_def)
qed

text \<open>
  A second invitation of a team's owner, with an e-mail address and a lower role.
  Over the maps the owner's entry is replaced, so the team has no owner any more; over the
  database the primary key has the address in it, so the owner stays and the same user has a
  second role.
\<close>
theorem reinvite_differs:
  assumes "u \<noteq> []" "em \<noteq> []" "\<not> blank t" "\<not> blank u"
    and "map_of (mem_teams m) t = Some tm" "TMembers tm = [owner_member u]"
    and "db_healthy d" "filter (\<lambda>r. me_team_id r = t) (team_members (tables d)) = [owner_row t u]"
  shows "\<exists>x m' d' tm'. InviteMember t u em [] (InMaps m) = (Inr x, InMaps m') \<and>
     InviteMember t u em [] (InDb d) = (Inr x, InDb d') \<and> MRole x = ''member'' \<and>
     map_of (mem_teams m') t = Some tm' \<and> map MRole (TMembers tm') = [''member''] \<and>
     map me_role (filter (\<lambda>r. me_team_id r = t \<and> me_user_id r = u) (team_members (tables d'))) = [''owner'', ''member'']"
proof -
  have role: "normalizeRole [] = ''member''" by code_simp
  let ?x = "\<lparr>MUserID = u, MEmail = em, MRole = ''member''\<rparr>"
  let ?row = "\<lparr>me_team_id = t, me_user_id = u, me_email = em, me_role = ''member''\<rparr>"
  let ?m' = "m\<lparr>mem_teams := gm_put t (tm\<lparr>TMembers := [?x]\<rparr>) (mem_teams m)\<rparr>"
  have mem: "InviteMember t u em [] (InMaps m) = (Inr ?x, InMaps ?m')"
    using assms(1-6) role by (simp add: InviteMember_def mem_inviteMember_def same_member_def Let_def)
  let ?new = "(tables d)\<lparr>team_members := team_members (tables d) @ [?row]\<rparr>"
  have rows: "r = owner_row t u" if "r \<in> set (team_members (tables d))" "me_team_id r = t" for r
  proof -
    have "r \<in> set (filter (\<lambda>r. me_team_id r = t) (team_members (tables d)))" using that by simp
    with assms(8) show ?thesis by simp
  qed
  then have del: "delete_where (\<lambda>r. me_team_id r = t \<and> me_user_id r = u \<and> me_email r = em) (team_members (tables d)) =
      team_members (tables d)"
    unfolding delete_where_def
  proof (intro filter_True ballI notI)
    fix r assume "r \<in> set (team_members (tables d))" "me_team_id r = t \<and> me_user_id r = u \<and> me_email r = em"
    with rows [of r] assms(2) show False by (simp add: owner_row_def)
  qed
  have nw: "member_pk ?row \<notin> member_pk ` set (team_members (tables d))"
    using rows assms(2) by (fastforce simp: member_pk_def owner_row_def)
  have "\<exists>d'. transaction (db_bind (delete_member t u em) (\<lambda>_. db_bind (insert_member ?row) (\<lambda>_. db_return ?x))) d =
      (Inr ?x, d') \<and> db_healthy d' \<and> tables d' = ?new"
  proof (rule transaction_healthy [OF assms(7)])
    fix d1 assume d1: "tables d1 = tables d" "db_healthy d1"
    obtain d2 where d2: "delete_member t u em d1 = (Inr (), d2)" "db_healthy d2" "tables d2 = tables d"
      using delete_member_done [OF d1(2), of t u em] del d1(1) by auto
    have "\<exists>d3. insert_member ?row d2 = (Inr (), d3) \<and> db_healthy d3 \<and> tables d3 = ?new"
      using insert_member_done [OF d2(2), of ?row] nw d2(3) by simp
    with d2(1) show "\<exists>d2. db_bind (delete_member t u em) (\<lambda>_. db_bind (insert_member ?row) (\<lambda>_. db_return ?x)) d1 =
        (Inr ?x, d2) \<and> db_healthy d2 \<and> tables d2 = ?new"
      by (auto simp: db_bind_def db_return_def)
  qed
  then obtain d' where db: "InviteMember t u em [] (InDb d) = (Inr ?x, InDb d')" and d': "tables d' = ?new"
    using assms(3,4) role by (auto simp: InviteMember_def run_db_def inviteMemberDB_def)
  have "filter (\<lambda>r. me_team_id r = t \<and> me_user_id r = u) (team_members (tables d)) =
      filter (\<lambda>r. me_user_id r = u) (filter (\<lambda>r. me_team_id r = t) (team_members (tables d)))"
    by (simp add: conj_commute)
  also have "\<dots> = [owner_row t u]" by (simp add: assms(8)) (simp add: owner_row_def)
  finally have "map me_role (filter (\<lambda>r. me_team_id r = t \<and> me_user_id r = u) (team_members (tables d'))) = [''owner'', ''member'']"
    using d' by (simp add: owner_row_def)
  with mem db show ?thesis by (intro exI [of _ ?x] exI [of _ ?m'] exI [of _ d']) simp
qed

definition owned_team :: proj_memory where
  "owned_team = new_proj_memory\<lparr>mem_teams := [(''t1'', \<lparr>TID = ''t1'', TName = ''core'', TMembers = [owner_member ''ada''], TCreatedAt = 0\<rparr>)]\<rparr>"

definition owned_db :: db where
  "owned_db = \<lparr>tables = empty_tables\<lparr>team_members := [owner_row ''t1'' ''ada'']\<rparr>, faults = []\<rparr>"

theorem reinvite_differs_witness:
  "\<exists>x m' d'. InviteMember ''t1'' ''ada'' ''a@b.c'' [] (InMaps owned_team) = (Inr x, InMaps m') \<and>
     InviteMember ''t1'' ''ada'' ''a@b.c'' [] (InDb owned_db) = (Inr x, InDb d')"
proof -
  have b: "\<not> blank ''t1''" "\<not> blank ''ada''" by code_simp+
  show ?thesis
    using reinvite_differs [of "''ada''" "''a@b.c''", OF _ _ b, of owned_team _ owned_db]
    by (auto simp: owned_team_def owned_db_def new_proj_memory_def db_healthy_def owner_row_def)
qed

end
