(* ===== verification/Hub_Console.thy ===== *)
theory Hub_Console
  imports Hub_Http Hub_Projects_Db
begin

text \<open>
  The console: \<open>packages/hub/internal/console/console.go\<close>, handlers for a dashboard over the project
  service.  The service is \<open>None\<close> when \<open>NewService\<close> was given none.  The users and teams of a
  query come from its parameters; nothing here looks at a token.
\<close>

section \<open>Handlers\<close>

record DashboardStats =
  DTotalProjects :: nat
  DTotalDeployments :: nat
  DActiveUsers :: nat
  DLastDeployment :: go_time

record invite_req =
  IvTeamID :: string
  IvUserID :: string
  IvEmail :: string
  IvRole :: string

datatype console_value =
    CStats DashboardStats
  | CProjects "project_json list"
  | CProject project_json
  | CTeams "Team list"
  | CMember Member

type_synonym console = "proj_service option"

definition console_unset :: "console_value reply" where
  "console_unset = HttpError status_internal (ErrMsg ''projects service not configured'')"

fun console_answer :: "nat \<Rightarrow> ('a \<Rightarrow> console_value) \<Rightarrow> 'a res \<times> proj_service \<Rightarrow> console \<times> console_value reply" where
  "console_answer status v (Inl e, s) = (Some s, HttpError status e)"
| "console_answer status v (Inr x, s) = (Some s, HttpJson (v x))"

definition HandleGetStats :: "console \<Rightarrow> unit http_request \<Rightarrow> console \<times> console_value reply" where
  "HandleGetStats c r =
     (case c of
        None \<Rightarrow> (c, console_unset)
      | Some s \<Rightarrow>
          (case Stats (trim_space (query r ''user_id'')) s of
             (st, s') \<Rightarrow>
               (Some s', HttpJson (CStats \<lparr>DTotalProjects = totalProjects st, DTotalDeployments = totalDeployments st,
                  DActiveUsers = activeUsers st, DLastDeployment = lastDeployment st\<rparr>))))"

definition HandleListProjects :: "console \<Rightarrow> unit http_request \<Rightarrow> console \<times> console_value reply" where
  "HandleListProjects c r =
     (case c of
        None \<Rightarrow> (c, console_unset)
      | Some s \<Rightarrow> console_answer status_internal (\<lambda>ps. CProjects (map project_json_of ps))
          (ListProjects (trim_space (query r ''user_id'')) (trim_space (query r ''team_id'')) s))"

definition HandleGetProject :: "console \<Rightarrow> unit http_request \<Rightarrow> console \<times> console_value reply" where
  "HandleGetProject c r =
     (case c of
        None \<Rightarrow> (c, console_unset)
      | Some s \<Rightarrow>
          (let projectID = trim_space (query r ''id'')
           in if projectID = [] then (c, HttpError status_bad_request (ErrMsg ''id required''))
              else console_answer status_not_found (\<lambda>p. CProject (project_json_of p)) (GetProject projectID s)))"

definition HandleListTeams :: "console \<Rightarrow> unit http_request \<Rightarrow> console \<times> console_value reply" where
  "HandleListTeams c r =
     (case c of
        None \<Rightarrow> (c, console_unset)
      | Some s \<Rightarrow> console_answer status_internal CTeams (ListTeams (trim_space (query r ''user_id'')) s))"

definition HandleInviteMember :: "console \<Rightarrow> invite_req http_request \<Rightarrow> console \<times> console_value reply" where
  "HandleInviteMember c r =
     (case c of
        None \<Rightarrow> (c, console_unset)
      | Some s \<Rightarrow>
          (case body r of
             Inl e \<Rightarrow> (c, HttpError status_bad_request e)
           | Inr req \<Rightarrow> console_answer status_bad_request CMember
               (InviteMember (IvTeamID req) (IvUserID req) (IvEmail req) (IvRole req) s)))"

section \<open>Properties\<close>

lemma list_teams_ids:
  assumes "db_healthy d"
  shows "\<exists>ts. fst (ListTeams u (InDb d)) = Inr ts \<and>
    TID ` set ts = {i \<in> tr_id ` set (teams_tab (tables d)).
      u \<noteq> [] \<longrightarrow> (\<exists>m \<in> set (team_members (tables d)). me_team_id m = i \<and> me_user_id m = u)}"
proof -
  let ?T = "tables d"
  let ?f = "\<lambda>r. \<lparr>TID = tr_id r, TName = tr_name r, TMembers = [], TCreatedAt = tr_created_at r\<rparr>"
  let ?rows = "if u = [] then teams_tab ?T
    else remdups (map fst (filter (\<lambda>(tm, m). me_user_id m = u) (join_members tr_id (teams_tab ?T) (team_members ?T))))"
  have "fst (ListTeams u (InDb d)) = Inr (map ?f ?rows)"
    using next_fault_healthy [OF assms] by (simp add: ListTeams_def run_db_def listTeamsDB_def query_rows_alt)
  moreover have "set ?rows = {r \<in> set (teams_tab ?T). u \<noteq> [] \<longrightarrow> (\<exists>m \<in> set (team_members ?T). me_team_id m = tr_id r \<and> me_user_id m = u)}"
    using set_map_pred_join [of tr_id "teams_tab ?T" "team_members ?T" "\<lambda>_ m. me_user_id m = u"]
    by (auto simp: split_beta)
  then have "TID ` set (map ?f ?rows) = {i \<in> tr_id ` set (teams_tab ?T). u \<noteq> [] \<longrightarrow>
      (\<exists>m \<in> set (team_members ?T). me_team_id m = i \<and> me_user_id m = u)}"
    by (auto simp: image_image)
  ultimately show ?thesis by blast
qed

text \<open>
  Property C34.  An invitation through the console shows in the console: when it is accepted over a
  database that stays healthy, for a user identifier that is its own trimmed text and a team that
  exists, the list of teams for that user then has the team, and no other team of the list is new.
\<close>
theorem console_invite_listed:
  assumes "HandleInviteMember (Some (InDb d)) r = (Some (InDb d'), HttpJson v)" and "body r = Inr req"
    and "db_healthy d" "db_healthy d'" and "IvTeamID req \<in> tr_id ` set (teams_tab (tables d))"
    and "trim_space (query q ''user_id'') = IvUserID req" "IvUserID req \<noteq> []"
  shows "\<exists>ts ts'. snd (HandleListTeams (Some (InDb d)) q) = HttpJson (CTeams ts) \<and>
    snd (HandleListTeams (Some (InDb d')) q) = HttpJson (CTeams ts') \<and> TID ` set ts' = insert (IvTeamID req) (TID ` set ts)"
proof -
  let ?i = "IvTeamID req" and ?u = "IvUserID req"
  obtain m where "InviteMember ?i ?u (IvEmail req) (IvRole req) (InDb d) = (Inr m, InDb d')"
    using assms(1,2) by (cases "InviteMember ?i ?u (IvEmail req) (IvRole req) (InDb d)"; cases "fst (InviteMember ?i ?u (IvEmail req) (IvRole req) (InDb d))")
      (auto simp: HandleInviteMember_def)
  then have "inviteMemberDB ?i ?u (IvEmail req) (IvRole req) d = (Inr m, d')"
    by (cases "inviteMemberDB ?i ?u (IvEmail req) (IvRole req) d") (auto simp: InviteMember_def run_db_def split: if_splits)
  from inviteMemberDB_Inr [OF this] obtain row where
    T: "tables d' = (tables d)\<lparr>team_members := delete_where (\<lambda>x. member_pk x = (?i, ?u, IvEmail req)) (team_members (tables d)) @ [row]\<rparr>"
    and row: "me_team_id row = ?i" "me_user_id row = ?u" by fastforce
  have ids: "{i \<in> tr_id ` set (teams_tab (tables d')). ?u \<noteq> [] \<longrightarrow> (\<exists>m \<in> set (team_members (tables d')). me_team_id m = i \<and> me_user_id m = ?u)} =
      insert ?i {i \<in> tr_id ` set (teams_tab (tables d)). ?u \<noteq> [] \<longrightarrow> (\<exists>m \<in> set (team_members (tables d)). me_team_id m = i \<and> me_user_id m = ?u)}"
    using assms(5,7) row by (auto simp: T delete_where_def member_pk_def)
  have reply: "\<exists>ts. snd (HandleListTeams (Some (InDb x)) q) = HttpJson (CTeams ts) \<and> fst (ListTeams ?u (InDb x)) = Inr ts"
    if "db_healthy x" for x
    using list_teams_ids [OF that, of ?u] assms(6)
    by (cases "ListTeams ?u (InDb x)") (auto simp: HandleListTeams_def)
  from reply [OF assms(3)] reply [OF assms(4)] list_teams_ids [OF assms(3), of ?u] list_teams_ids [OF assms(4), of ?u] ids
  show ?thesis by (metis sum.inject(2))
qed

text \<open>
  Without a user the console restricts nothing: a request with no \<open>user_id\<close> and no \<open>team_id\<close> is
  answered with every project that is stored, whoever owns it, in both modes; and a console
  without a project service answers every request with 500.
\<close>
theorem console_lists_everything:
  assumes "query q ''user_id'' = []" "query q ''team_id'' = []" and "db_healthy d"
  shows "snd (HandleListProjects (Some (InDb d)) q) = HttpJson (CProjects (map (\<lambda>r. project_json_of (row_to_project r)) (projects_tab (tables d)))) \<and>
    snd (HandleListProjects (Some (InMaps m)) q) = HttpJson (CProjects (map (\<lambda>x. project_json_of (snd x)) (mem_projects m))) \<and>
    snd (HandleListProjects None q) = HttpError 500 (ErrMsg ''projects service not configured'') \<and>
    snd (HandleInviteMember None r) = HttpError 500 (ErrMsg ''projects service not configured'')"
proof -
  have t: "trim_space [] = []" using blank_Nil by (simp add: blank_def)
  show ?thesis
    using assms next_fault_healthy [OF assms(3)]
    by (simp add: HandleListProjects_def HandleInviteMember_def t ListProjects_def run_db_def listProjectsDB_def query_rows_alt
        select_projects_def mem_listProjects_def console_unset_def status_internal_def comp_def)
qed

section \<open>Witnesses\<close>

definition console_query :: "string \<Rightarrow> unit http_request" where
  "console_query u = \<lparr>header = (\<lambda>_. []), query = (\<lambda>k. if k = ''user_id'' then u else []), url_param = (\<lambda>_. []),
     ctx_user = None, body = Inr ()\<rparr>"

definition console_invite :: "invite_req http_request" where
  "console_invite = \<lparr>header = (\<lambda>_. []), query = (\<lambda>_. []), url_param = (\<lambda>_. []), ctx_user = None,
     body = Inr \<lparr>IvTeamID = ''t1'', IvUserID = ''bob'', IvEmail = [], IvRole = []\<rparr>\<rparr>"

definition console_db :: db where
  "console_db = \<lparr>tables = empty_tables\<lparr>teams_tab := [\<lparr>tr_id = ''t1'', tr_name = ''core'', tr_created_at = 0\<rparr>]\<rparr>, faults = []\<rparr>"

theorem console_invite_listed_witness:
  "\<exists>d' ts. fst (HandleInviteMember (Some (InDb console_db)) console_invite) = Some (InDb d') \<and>
     snd (HandleListTeams (Some (InDb d')) (console_query ''bob'')) = HttpJson (CTeams ts) \<and> ''t1'' \<in> TID ` set ts"
proof -
  have "case HandleInviteMember (Some (InDb console_db)) console_invite of
      (Some (InDb d'), HttpJson v) \<Rightarrow> faults d' = [] | _ \<Rightarrow> False" by code_simp
  then obtain d' v where r: "HandleInviteMember (Some (InDb console_db)) console_invite = (Some (InDb d'), HttpJson v)"
    and f: "faults d' = []"
    by (auto split: prod.splits option.splits proj_service.splits reply.splits)
  have t: "trim_space (query (console_query ''bob'') ''user_id'') = ''bob''" by code_simp
  have b: "body console_invite = Inr \<lparr>IvTeamID = ''t1'', IvUserID = ''bob'', IvEmail = [], IvRole = []\<rparr>"
    by (simp add: console_invite_def)
  have h: "db_healthy console_db" "db_healthy d'" using f by (simp_all add: db_healthy_def console_db_def)
  have m: "IvTeamID \<lparr>IvTeamID = ''t1'', IvUserID = ''bob'', IvEmail = [], IvRole = []\<rparr> \<in> tr_id ` set (teams_tab (tables console_db))"
    by (simp add: console_db_def)
  have "\<exists>ts ts'. snd (HandleListTeams (Some (InDb console_db)) (console_query ''bob'')) = HttpJson (CTeams ts) \<and>
      snd (HandleListTeams (Some (InDb d')) (console_query ''bob'')) = HttpJson (CTeams ts') \<and>
      TID ` set ts' = insert (IvTeamID \<lparr>IvTeamID = ''t1'', IvUserID = ''bob'', IvEmail = [], IvRole = []\<rparr>) (TID ` set ts)"
    by (rule console_invite_listed [OF r b h m]) (simp_all add: t)
  then have "\<exists>ts. snd (HandleListTeams (Some (InDb d')) (console_query ''bob'')) = HttpJson (CTeams ts) \<and> ''t1'' \<in> TID ` set ts"
    by (elim exE conjE) (rule exI, rule conjI, assumption, simp)
  with r show ?thesis by (intro exI [of _ d']) simp
qed

theorem console_lists_everything_witness:
  "snd (HandleListProjects (Some (InDb console_db)) (console_query [])) = HttpJson (CProjects [])"
proof -
  have q: "query (console_query []) ''user_id'' = []" "query (console_query []) ''team_id'' = []" "db_healthy console_db"
    by (simp_all add: console_query_def console_db_def db_healthy_def)
  have e: "projects_tab (tables console_db) = []" by (simp add: console_db_def empty_tables_def)
  from console_lists_everything [OF q] show ?thesis by (simp only: e list.map)
qed

end
