(* ===== verification/Go_Files.thy ===== *)
theory Go_Files
  imports Go_Prelude
begin

text \<open>
  The parts of Go's \<open>path/filepath\<close> and \<open>os\<close> that the program uses, on a Unix system.  Paths are
  byte strings; \<open>Clean\<close>, \<open>Join\<close>, \<open>Dir\<close>, \<open>Base\<close>, \<open>Ext\<close>, \<open>Split\<close>, \<open>IsAbs\<close> and \<open>Rel\<close> work on the
  text alone.  The file system is a set of directories and a map from files to contents, both
  named by the elements of the cleaned path, with a list of faults for the calls to come, as the
  database has one: the operating system may refuse any call.
\<close>

section \<open>Paths\<close>

abbreviation slash :: char where "slash \<equiv> CHR ''/''"

definition is_abs :: "string \<Rightarrow> bool" where
  "is_abs p = has_prefix p [slash]"

text \<open>The elements of a path after \<open>.\<close>, empty elements and \<open>..\<close> are resolved; the stack of the
  elements so far is kept in reverse.\<close>

fun clean_parts :: "bool \<Rightarrow> string list \<Rightarrow> string list \<Rightarrow> string list" where
  "clean_parts rooted [] st = rev st"
| "clean_parts rooted (p # ps) st =
     (if p = [] \<or> p = ''.'' then clean_parts rooted ps st
      else if p = ''..'' then
        (case st of
           [] \<Rightarrow> clean_parts rooted ps (if rooted then [] else [''..''])
         | t # ts \<Rightarrow> clean_parts rooted ps (if t = ''..'' then ''..'' # st else ts))
      else clean_parts rooted ps (p # st))"

definition path_elems :: "string \<Rightarrow> string list" where
  "path_elems p = clean_parts (is_abs p) (split_char slash p) []"

definition path_clean :: "string \<Rightarrow> string" where
  "path_clean p =
     (if is_abs p then slash # join_with [slash] (path_elems p)
      else if path_elems p = [] then ''.'' else join_with [slash] (path_elems p))"

fun path_join :: "string list \<Rightarrow> string" where
  "path_join [] = []"
| "path_join (e # es) = (if e = [] then path_join es else path_clean (join_with [slash] (e # es)))"

text \<open>\<open>Split\<close> cuts after the last slash.\<close>

definition path_split :: "string \<Rightarrow> string \<times> string" where
  "path_split p =
     (rev (dropWhile (\<lambda>c. c \<noteq> slash) (rev p)), rev (takeWhile (\<lambda>c. c \<noteq> slash) (rev p)))"

definition path_dir :: "string \<Rightarrow> string" where
  "path_dir p = path_clean (fst (path_split p))"

definition path_base :: "string \<Rightarrow> string" where
  "path_base p =
     (if p = [] then ''.''
      else let q = rev (dropWhile (\<lambda>c. c = slash) (rev p))
           in (if q = [] then [slash] else snd (path_split q)))"

definition path_ext :: "string \<Rightarrow> string" where
  "path_ext p =
     (let f = snd (path_split p); r = takeWhile (\<lambda>c. c \<noteq> CHR ''.'') (rev f)
      in (if length r = length f then [] else CHR ''.'' # rev r))"

fun strip_common :: "string list \<Rightarrow> string list \<Rightarrow> string list \<times> string list" where
  "strip_common (x # xs) (y # ys) = (if x = y then strip_common xs ys else (x # xs, y # ys))"
| "strip_common xs ys = (xs, ys)"

text \<open>\<open>Rel(base, target)\<close>; \<open>None\<close> when the target cannot be made relative to the base.\<close>

definition path_rel :: "string \<Rightarrow> string \<Rightarrow> string option" where
  "path_rel base target =
     (if path_clean base = path_clean target then Some ''.''
      else if is_abs base \<noteq> is_abs target then None
      else (case strip_common (path_elems base) (path_elems target) of
              (b, t) \<Rightarrow>
                (if b \<noteq> [] \<and> hd b = ''..'' then None
                 else Some (join_with [slash] (map (\<lambda>_. ''..'') b @ t)))))"

section \<open>Properties of paths\<close>

text \<open>An element that no step of \<open>Clean\<close> touches.\<close>

definition plain_elem :: "string \<Rightarrow> bool" where
  "plain_elem e \<longleftrightarrow> e \<noteq> [] \<and> e \<noteq> ''.'' \<and> e \<noteq> ''..'' \<and> slash \<notin> set e"

lemma clean_parts_plain:
  "\<forall>p \<in> set ps. plain_elem p \<Longrightarrow> clean_parts rooted ps st = rev st @ ps"
  by (induction ps arbitrary: st) (auto simp: plain_elem_def)

lemma split_char_join:
  "ps \<noteq> [] \<Longrightarrow> \<forall>p \<in> set ps. c \<notin> set p \<Longrightarrow> split_char c (join_with [c] ps) = ps"
  by (induction "[c]" ps rule: join_with.induct) (auto simp: split_char_none split_char_append)

text \<open>The elements of a rooted path are plain: nothing climbs above the root.\<close>

lemma clean_parts_rooted:
  "\<forall>p \<in> set ps. slash \<notin> set p \<Longrightarrow> \<forall>p \<in> set st. plain_elem p \<Longrightarrow>
     \<forall>p \<in> set (clean_parts True ps st). plain_elem p"
proof (induction ps arbitrary: st)
  case (Cons p ps)
  have step: "\<forall>q \<in> set st'. plain_elem q \<Longrightarrow> \<forall>q \<in> set (clean_parts True ps st'). plain_elem q" for st'
    using Cons.IH [of st'] Cons.prems(1) by simp
  consider "p = [] \<or> p = ''.''" | "p = ''..''" | "plain_elem p"
    using Cons.prems(1) by (auto simp: plain_elem_def)
  then show ?case
  proof cases
    case 1
    then have "clean_parts True (p # ps) st = clean_parts True ps st" by auto
    with step [OF Cons.prems(2)] show ?thesis by metis
  next
    case 2
    have "clean_parts True (p # ps) st = clean_parts True ps (tl st)"
      using 2 Cons.prems(2) by (cases st) (auto simp: plain_elem_def)
    moreover have "\<forall>q \<in> set (tl st). plain_elem q"
      using Cons.prems(2) by (cases st) auto
    ultimately show ?thesis using step by metis
  next
    case 3
    then have "clean_parts True (p # ps) st = clean_parts True ps (p # st)"
      by (auto simp: plain_elem_def)
    moreover have "\<forall>q \<in> set (p # st). plain_elem q"
      using Cons.prems(2) 3 by simp
    ultimately show ?thesis using step by metis
  qed
qed auto

lemma path_elems_rooted: "is_abs p \<Longrightarrow> \<forall>e \<in> set (path_elems p). plain_elem e"
  unfolding path_elems_def using clean_parts_rooted [of "split_char slash p" "[]"]
  by (auto dest: split_char_parts)

lemma is_abs_Cons [simp]: "is_abs (c # s) \<longleftrightarrow> c = slash"
  by (simp add: is_abs_def)

lemma is_abs_Nil [simp]: "\<not> is_abs []"
  by (simp add: is_abs_def)

lemma is_abs_append: "is_abs p \<Longrightarrow> is_abs (p @ q)"
  by (cases p) simp_all

lemma is_abs_clean: "is_abs p \<Longrightarrow> is_abs (path_clean p)"
  by (simp add: path_clean_def)

lemma is_abs_join: "is_abs p \<Longrightarrow> is_abs (path_join (p # ps))"
  by (cases ps) (auto simp: is_abs_clean is_abs_append)

text \<open>Cleaning a path again changes nothing.\<close>

lemma path_elems_plain_rooted:
  assumes "\<forall>p \<in> set es. plain_elem p"
  shows "path_elems (slash # join_with [slash] es) = es"
proof (cases "es = []")
  case False
  then have "split_char slash (join_with [slash] es) = es"
    using assms by (intro split_char_join) (auto simp: plain_elem_def)
  then show ?thesis
    using assms by (simp add: path_elems_def clean_parts_plain)
qed (simp add: path_elems_def)

lemma path_elems_clean: "is_abs p \<Longrightarrow> path_elems (path_clean p) = path_elems p"
  using path_elems_rooted by (simp add: path_clean_def path_elems_plain_rooted)

lemma clean_parts_append:
  "clean_parts rooted (ps @ qs) st = clean_parts rooted qs (rev (clean_parts rooted ps st))"
proof (induction ps arbitrary: st)
  case (Cons p ps)
  then show ?case by (cases st) simp_all
qed simp

lemma split_char_cat: "split_char c (a @ c # b) = split_char c a @ split_char c b"
proof (induction a)
  case (Cons x a)
  then show ?case
    using split_char_not_Nil [of c a] by (cases "split_char c a") auto
qed simp

text \<open>Joining plain elements to a rooted directory puts them below it.\<close>

lemma path_elems_join:
  assumes "is_abs d" and "es \<noteq> []" and "\<forall>e \<in> set es. plain_elem e"
  shows "path_elems (path_join [d, join_with [slash] es]) = path_elems d @ es"
proof -
  let ?k = "join_with [slash] es"
  have d: "d \<noteq> []" using assms(1) by auto
  have j: "path_join [d, ?k] = path_clean (d @ slash # ?k)" using d by simp
  have a: "is_abs (d @ slash # ?k)" using assms(1) by (rule is_abs_append)
  have k: "split_char slash ?k = es"
    using assms(2,3) by (intro split_char_join) (auto simp: plain_elem_def)
  have "path_elems (d @ slash # ?k) = clean_parts True es (rev (path_elems d))"
    using a assms(1) by (simp add: path_elems_def split_char_cat clean_parts_append k)
  with j path_elems_clean [OF a] assms(3) show ?thesis by (simp add: clean_parts_plain)
qed

lemma path_split_parts: "fst (path_split p) @ snd (path_split p) = p"
  by (simp add: path_split_def flip: rev_append)

lemma path_split_file: "slash \<notin> set (snd (path_split p))"
  by (auto simp: path_split_def dest: set_takeWhileD)

lemma path_split_last: "slash \<notin> set f \<Longrightarrow> path_split (d @ slash # f) = (d @ [slash], f)"
proof -
  assume "slash \<notin> set f"
  then have n: "\<And>c. c \<in> set (rev f) \<Longrightarrow> c \<noteq> slash" by auto
  show ?thesis
    using takeWhile_append2 [of "rev f" "\<lambda>c. c \<noteq> slash", OF n] dropWhile_append2 [of "rev f" "\<lambda>c. c \<noteq> slash", OF n]
    by (simp add: path_split_def)
qed

section \<open>Files\<close>

record fs =
  fs_dirs :: "string list list"
  fs_files :: "(string list, string) gomap"
  fs_faults :: "bool list"

text \<open>A file or directory is named by the elements of its path, after the root's \<open>/\<close> when the
  path is absolute; a relative path is relative to the working directory.\<close>

definition path_key :: "string \<Rightarrow> string list" where
  "path_key p = (if is_abs p then [slash] # path_elems p else path_elems p)"

definition top_dir :: "string list \<Rightarrow> bool" where
  "top_dir k \<longleftrightarrow> k = [] \<or> k = [[slash]]"

definition dir_exists :: "fs \<Rightarrow> string list \<Rightarrow> bool" where
  "dir_exists w k \<longleftrightarrow> top_dir k \<or> k \<in> set (fs_dirs w)"

definition os_fault :: "fs \<Rightarrow> bool \<times> fs" where
  "os_fault w = (case fs_faults w of [] \<Rightarrow> (False, w) | f # ff \<Rightarrow> (f, w\<lparr>fs_faults := ff\<rparr>))"

text \<open>\<open>ErrNotExist\<close> is the error for which \<open>os.IsNotExist\<close> holds.\<close>

definition ErrNotExist :: go_error where
  "ErrNotExist = ErrMsg ''no such file or directory''"

definition prefixes_of :: "'a list \<Rightarrow> 'a list list" where
  "prefixes_of k = map (\<lambda>n. take n k) [1..<Suc (length k)]"

text \<open>A file is in the way of a path when it sits at a directory of the path.\<close>

definition file_in_way :: "fs \<Rightarrow> string list \<Rightarrow> bool" where
  "file_in_way w k = list_ex (\<lambda>q. map_of (fs_files w) q \<noteq> None) (prefixes_of k)"

definition os_ReadFile :: "string \<Rightarrow> fs \<Rightarrow> string res \<times> fs" where
  "os_ReadFile p w =
     (case os_fault w of (f, w') \<Rightarrow>
        if f then (Inl ErrIO, w')
        else (case map_of (fs_files w') (path_key p) of
                Some data \<Rightarrow> (Inr data, w')
              | None \<Rightarrow> (Inl (if dir_exists w' (path_key p) \<or> file_in_way w' (path_key p) then ErrIO else ErrNotExist), w')))"

definition os_WriteFile :: "string \<Rightarrow> string \<Rightarrow> fs \<Rightarrow> unit res \<times> fs" where
  "os_WriteFile p data w =
     (case os_fault w of (f, w') \<Rightarrow>
        if f then (Inl ErrIO, w')
        else let k = path_key p in
          (if dir_exists w' k then (Inl ErrIO, w')
           else if \<not> dir_exists w' (butlast k) then (Inl ErrNotExist, w')
           else (Inr (), w'\<lparr>fs_files := gm_put k data (fs_files w')\<rparr>)))"

text \<open>\<open>os.MkdirAll\<close> makes every missing directory on the way; a file in the way is an error.\<close>

definition os_MkdirAll :: "string \<Rightarrow> fs \<Rightarrow> unit res \<times> fs" where
  "os_MkdirAll p w =
     (case os_fault w of (f, w') \<Rightarrow>
        if f then (Inl ErrIO, w')
        else let ks = prefixes_of (path_key p) in
          (if file_in_way w' (path_key p) then (Inl ErrIO, w')
           else (Inr (), w'\<lparr>fs_dirs := fs_dirs w' @ filter (\<lambda>k. \<not> dir_exists w' k) ks\<rparr>)))"

definition fs_healthy :: "fs \<Rightarrow> bool" where
  "fs_healthy w \<longleftrightarrow> True \<notin> set (fs_faults w)"

lemma os_fault_healthy:
  "fs_healthy w \<Longrightarrow> \<exists>w'. os_fault w = (False, w') \<and> fs_healthy w' \<and> fs_dirs w' = fs_dirs w \<and>
     fs_files w' = fs_files w"
  by (auto simp: os_fault_def fs_healthy_def split: list.splits)

lemma os_fault_fields:
  "os_fault w = (f, w') \<Longrightarrow> fs_dirs w' = fs_dirs w \<and> fs_files w' = fs_files w"
  by (auto simp: os_fault_def split: list.splits)

lemma ReadFile_frame: "os_ReadFile p w = (r, w') \<Longrightarrow> fs_dirs w' = fs_dirs w \<and> fs_files w' = fs_files w"
  by (auto simp: os_ReadFile_def dest: os_fault_fields split: prod.splits if_splits option.splits)

lemma WriteFile_Inr:
  "os_WriteFile p data w = (Inr u, w') \<Longrightarrow>
     fs_files w' = gm_put (path_key p) data (fs_files w) \<and> fs_dirs w' = fs_dirs w"
  by (auto simp: os_WriteFile_def Let_def dest: os_fault_fields split: prod.splits if_splits)

lemma WriteFile_Inl:
  "os_WriteFile p data w = (Inl e, w') \<Longrightarrow> fs_files w' = fs_files w \<and> fs_dirs w' = fs_dirs w"
  by (auto simp: os_WriteFile_def Let_def dest: os_fault_fields split: prod.splits if_splits)

lemma MkdirAll_files: "os_MkdirAll p w = (r, w') \<Longrightarrow> fs_files w' = fs_files w"
  by (auto simp: os_MkdirAll_def Let_def dest: os_fault_fields split: prod.splits if_splits)

end
