(* ===== verification/Go_Walk.thy ===== *)
theory Go_Walk
  imports Go_Files
begin

text \<open>
  \<open>os.Lstat\<close>, the sorted names of a directory and \<open>filepath.Walk\<close>, over the file system of
  \<open>Go_Files\<close>.  There are no symbolic links, so \<open>Stat\<close> is \<open>Lstat\<close>.
\<close>

section \<open>Looking at files\<close>

text \<open>The information about a file is whether it is a directory.\<close>

definition os_Lstat :: "string \<Rightarrow> fs \<Rightarrow> bool res \<times> fs" where
  "os_Lstat p w =
     (case os_fault w of (f, w') \<Rightarrow>
        if f then (Inl ErrIO, w')
        else let k = path_key p in
          (if map_of (fs_files w') k \<noteq> None then (Inr False, w')
           else if dir_exists w' k then (Inr True, w')
           else (Inl (if file_in_way w' k then ErrIO else ErrNotExist), w')))"

text \<open>The entries of a directory: the last elements of the files and directories right below it,
  each once, sorted.\<close>

definition children :: "fs \<Rightarrow> string list \<Rightarrow> string list" where
  "children w k =
     sort (remdups (map last (filter (\<lambda>e. e \<noteq> [] \<and> butlast e = k) (fs_dirs w @ map fst (fs_files w)))))"

definition readDirNames :: "string \<Rightarrow> fs \<Rightarrow> string list res \<times> fs" where
  "readDirNames p w =
     (case os_fault w of (f, w') \<Rightarrow>
        if f then (Inl ErrIO, w') else (Inr (children w' (path_key p)), w'))"

section \<open>Walk\<close>

text \<open>
  The function given to \<open>Walk\<close> gets the path and whether it is a directory, or the error of looking
  at it, and a state of its own; it returns an error or the new state.  The recursion goes down
  one directory at a time; a fuel above the depth of the file system is enough
  (\<open>walk_ok\<close> below), and without fuel \<open>Walk\<close> fails.
\<close>

type_synonym 's walk_fn = "string \<Rightarrow> bool res \<Rightarrow> 's \<Rightarrow> 's res"

fun walk :: "nat \<Rightarrow> 's walk_fn \<Rightarrow> string \<Rightarrow> bool \<Rightarrow> 's \<Rightarrow> fs \<Rightarrow> 's res \<times> fs"
  and walk_names :: "nat \<Rightarrow> 's walk_fn \<Rightarrow> string \<Rightarrow> string list \<Rightarrow> 's \<Rightarrow> fs \<Rightarrow> 's res \<times> fs" where
  "walk 0 fn p is_dir s w = (Inl ErrIO, w)"
| "walk (Suc n) fn p is_dir s w =
     (if \<not> is_dir then (fn p (Inr False) s, w)
      else (case readDirNames p w of
              (Inl e, w') \<Rightarrow> (fn p (Inl e) s, w')
            | (Inr names, w') \<Rightarrow>
                (case fn p (Inr True) s of
                   Inl e \<Rightarrow> (Inl e, w')
                 | Inr s' \<Rightarrow> walk_names n fn p names s' w')))"
| "walk_names n fn p [] s w = (Inr s, w)"
| "walk_names n fn p (name # names) s w =
     (let filename = path_join [p, name] in
      case os_Lstat filename w of
        (Inl e, w') \<Rightarrow>
          (case fn filename (Inl e) s of
             Inl e' \<Rightarrow> (Inl e', w')
           | Inr s' \<Rightarrow> walk_names n fn p names s' w')
      | (Inr d, w') \<Rightarrow>
          (case walk n fn filename d s w' of
             (Inl e, w'') \<Rightarrow> (Inl e, w'')
           | (Inr s', w'') \<Rightarrow> walk_names n fn p names s' w''))"

text \<open>The depth of the file system.\<close>

definition fs_depth :: "fs \<Rightarrow> nat" where
  "fs_depth w = foldr (max \<circ> length) (fs_dirs w @ map fst (fs_files w)) 0"

definition Walk :: "'s walk_fn \<Rightarrow> string \<Rightarrow> 's \<Rightarrow> fs \<Rightarrow> 's res \<times> fs" where
  "Walk fn root s w =
     (case os_Lstat root w of
        (Inl e, w') \<Rightarrow> (fn root (Inl e) s, w')
      | (Inr d, w') \<Rightarrow> walk (fs_depth w + 2) fn root d s w')"

section \<open>Absolute paths and their keys\<close>

definition abs_key :: "string list \<Rightarrow> bool" where
  "abs_key k \<longleftrightarrow> k \<noteq> [] \<and> hd k = [slash] \<and> (\<forall>e \<in> set (tl k). plain_elem e)"

definition path_of :: "string list \<Rightarrow> string" where
  "path_of k = slash # join_with [slash] (tl k)"

lemma abs_key_Cons: "abs_key k \<longleftrightarrow> (\<exists>es. k = [slash] # es \<and> (\<forall>e \<in> set es. plain_elem e))"
  by (cases k) (auto simp: abs_key_def)

lemma abs_key_snoc: "abs_key k \<Longrightarrow> plain_elem n \<Longrightarrow> abs_key (k @ [n])"
  by (auto simp: abs_key_Cons)

lemma path_elems_path_of: "abs_key k \<Longrightarrow> path_elems (path_of k) = tl k"
  by (simp add: abs_key_def path_of_def path_elems_plain_rooted)

lemma is_abs_path_of [simp]: "is_abs (path_of k)"
  by (simp add: path_of_def)

lemma path_key_path_of: "abs_key k \<Longrightarrow> path_key (path_of k) = k"
  by (cases k) (auto simp: path_key_def path_elems_path_of, auto simp: abs_key_def)

lemma path_join_clean:
  assumes "is_abs d" and "es \<noteq> []" and "\<forall>e \<in> set es. plain_elem e"
  shows "path_join [d, join_with [slash] es] = path_of ([slash] # path_elems d @ es)"
proof -
  let ?X = "d @ slash # join_with [slash] es"
  have "d \<noteq> []" using assms(1) by auto
  then have j: "path_join [d, join_with [slash] es] = path_clean ?X" by simp
  have "path_elems (path_clean ?X) = path_elems ?X"
    by (rule path_elems_clean [OF is_abs_append [OF assms(1)]])
  with path_elems_join [OF assms] j have "path_elems ?X = path_elems d @ es" by simp
  then show ?thesis unfolding j
    using is_abs_append [OF assms(1)] by (simp add: path_clean_def path_of_def)
qed

lemma path_join_snoc:
  assumes "abs_key k" and "plain_elem n"
  shows "path_join [path_of k, n] = path_of (k @ [n])"
  using path_join_clean [of "path_of k" "[n]"] assms
  by (cases k) (auto simp: path_elems_path_of, auto simp: abs_key_def path_of_def)

lemma join_with_snoc: "es \<noteq> [] \<Longrightarrow> join_with sep (es @ [n]) = join_with sep es @ sep @ n"
  by (induction sep es rule: join_with.induct) auto

lemma path_split_path_of:
  assumes "abs_key k" and "plain_elem n"
  shows "\<exists>d. path_split (path_of (k @ [n])) = (d, n)"
proof (cases "tl k = []")
  case True
  with assms(1) have "path_of (k @ [n]) = [] @ slash # n" by (auto simp: abs_key_Cons path_of_def)
  with path_split_last [of n "[]"] assms show ?thesis by (auto simp: plain_elem_def)
next
  case False
  with assms(1) have "path_of (k @ [n]) = path_of k @ slash # n"
    by (auto simp: abs_key_Cons path_of_def join_with_snoc)
  with path_split_last [of n] assms show ?thesis by (auto simp: plain_elem_def)
qed

lemma path_base_path_of:
  assumes "abs_key k" and "plain_elem n"
  shows "path_base (path_of (k @ [n])) = n"
proof -
  obtain d where d: "path_split (path_of (k @ [n])) = (d, n)"
    using path_split_path_of [OF assms] by blast
  then have e: "path_of (k @ [n]) = d @ n" using path_split_parts [of "path_of (k @ [n])"] by simp
  have "rev n \<noteq> []" "hd (rev n) \<noteq> slash"
    using assms(2) last_in_set [of n] by (auto simp: plain_elem_def hd_rev simp del: last_in_set)
  then have "dropWhile (\<lambda>c. c = slash) (rev n @ rev d) = rev n @ rev d"
    by (cases "rev n") auto
  with e d assms(2) show ?thesis by (auto simp: path_base_def Let_def plain_elem_def)
qed

lemma path_ext_path_of:
  assumes "abs_key k" and "plain_elem n"
  shows "path_ext (path_of (k @ [n])) = path_ext n"
proof -
  obtain d where d: "path_split (path_of (k @ [n])) = (d, n)"
    using path_split_path_of [OF assms] by blast
  have "\<forall>c \<in> set (rev n). c \<noteq> slash" using assms(2) by (auto simp: plain_elem_def)
  then have "takeWhile (\<lambda>c. c \<noteq> slash) (rev n) = rev n" "dropWhile (\<lambda>c. c \<noteq> slash) (rev n) = []"
    by (simp_all add: takeWhile_eq_all_conv dropWhile_eq_Nil_conv)
  then have "path_split n = ([], n)"
    by (simp only: path_split_def rev_rev_ident rev.simps)
  with d show ?thesis by (simp add: path_ext_def)
qed

section \<open>What Walk visits\<close>

text \<open>In a well-formed file system the parent of every entry is a directory, no entry is both a file
  and a directory, and names are names.\<close>

definition entry_at :: "fs \<Rightarrow> string list \<Rightarrow> bool" where
  "entry_at w k \<longleftrightarrow> dir_exists w k \<or> map_of (fs_files w) k \<noteq> None"

definition fs_wf :: "fs \<Rightarrow> bool" where
  "fs_wf w \<longleftrightarrow>
     (\<forall>k \<in> set (fs_dirs w) \<union> set (map fst (fs_files w)).
        k \<noteq> [] \<and> k \<noteq> [[slash]] \<and> dir_exists w (butlast k) \<and>
        plain_elem (last k)) \<and>
     (\<forall>k \<in> set (fs_dirs w). map_of (fs_files w) k = None)"

text \<open>The entries below a directory, each before what is below it.\<close>

definition is_file :: "fs \<Rightarrow> string list \<Rightarrow> bool" where
  "is_file w k = (map_of (fs_files w) k \<noteq> None)"

fun subtree :: "nat \<Rightarrow> fs \<Rightarrow> string list \<Rightarrow> string list list" where
  "subtree 0 w k = []"
| "subtree (Suc n) w k =
     k # (if is_file w k then [] else concat (map (\<lambda>c. subtree n w (k @ [c])) (children w k)))"

text \<open>A function that stops at the first error it is given.\<close>

fun stop_fn :: "(string \<Rightarrow> bool \<Rightarrow> 's \<Rightarrow> 's) \<Rightarrow> 's walk_fn" where
  "stop_fn g p (Inl e) s = Inl e"
| "stop_fn g p (Inr d) s = Inr (g p d s)"

definition visit :: "(string \<Rightarrow> bool \<Rightarrow> 's \<Rightarrow> 's) \<Rightarrow> fs \<Rightarrow> string list \<Rightarrow> 's \<Rightarrow> 's" where
  "visit g w k s = g (path_of k) (\<not> is_file w k) s"

lemma children_plain: "fs_wf w \<Longrightarrow> c \<in> set (children w k) \<Longrightarrow> plain_elem c"
  by (auto simp: children_def fs_wf_def)

lemma children_iff: "c \<in> set (children w k) \<longleftrightarrow> k @ [c] \<in> set (fs_dirs w) \<union> set (map fst (fs_files w))"
proof -
  have eq: "e \<noteq> [] \<and> butlast e = k \<and> last e = c \<longleftrightarrow> e = k @ [c]" for e
    by (metis append_butlast_last_id butlast_snoc last_snoc snoc_eq_iff_butlast)
  have "c \<in> last ` {e \<in> A. e \<noteq> [] \<and> butlast e = k} \<longleftrightarrow> (\<exists>e \<in> A. e \<noteq> [] \<and> butlast e = k \<and> last e = c)" for A
    by blast
  also have "(\<exists>e \<in> A. e \<noteq> [] \<and> butlast e = k \<and> last e = c) \<longleftrightarrow> k @ [c] \<in> A" for A
    unfolding eq by simp
  finally show ?thesis unfolding children_def by (simp only: set_sort set_remdups set_map set_filter set_append)
qed

lemma distinct_children: "distinct (children w k)"
  by (simp add: children_def)

text \<open>The calls to the operating system leave the files as they are; the faults are used up.\<close>

definition same_tree :: "fs \<Rightarrow> fs \<Rightarrow> bool" where
  "same_tree w v \<longleftrightarrow> fs_dirs w = fs_dirs v \<and> fs_files w = fs_files v"

lemma same_tree_refl [simp]: "same_tree w w"
  by (simp add: same_tree_def)

lemma same_tree_trans [trans]: "same_tree u v \<Longrightarrow> same_tree v w \<Longrightarrow> same_tree u w"
  by (simp add: same_tree_def)

lemma same_tree_eqs:
  "same_tree w v \<Longrightarrow> children w k = children v k \<and> is_file w k = is_file v k \<and> dir_exists w k = dir_exists v k \<and>
     entry_at w k = entry_at v k \<and> file_in_way w k = file_in_way v k"
  by (simp add: same_tree_def children_def is_file_def dir_exists_def entry_at_def file_in_way_def)

lemma os_fault_tree: "os_fault w = (f, w') \<Longrightarrow> same_tree w' w \<and> (fs_healthy w \<longrightarrow> \<not> f \<and> fs_healthy w')"
  by (auto simp: os_fault_def same_tree_def fs_healthy_def split: list.splits)

lemma readDirNames_tree:
  assumes "readDirNames p w = (r, w')"
  shows "same_tree w' w \<and> (\<forall>ns. r = Inr ns \<longrightarrow> ns = children w (path_key p)) \<and>
    (fs_healthy w \<longrightarrow> fs_healthy w' \<and> r = Inr (children w (path_key p)))"
proof -
  obtain f u where f: "os_fault w = (f, u)" by fastforce
  from os_fault_tree [OF f] assms show ?thesis
    using same_tree_eqs [of u w "path_key p"] by (auto simp: readDirNames_def f split: if_splits)
qed

lemma Lstat_tree:
  assumes "os_Lstat p w = (r, w')"
  shows "same_tree w' w \<and> (\<forall>d. r = Inr d \<longrightarrow> entry_at w (path_key p) \<and> d = (\<not> is_file w (path_key p))) \<and>
    (fs_healthy w \<longrightarrow> fs_healthy w' \<and> (entry_at w (path_key p) \<longrightarrow> r = Inr (\<not> is_file w (path_key p))))"
proof -
  obtain f u where f: "os_fault w = (f, u)" by fastforce
  have "entry_at w (path_key p) \<longleftrightarrow> dir_exists w (path_key p) \<or> is_file w (path_key p)"
    by (simp add: entry_at_def is_file_def)
  with os_fault_tree [OF f] assms show ?thesis
    using same_tree_eqs [of u w "path_key p"]
    by (auto simp: os_Lstat_def f Let_def is_file_def split: if_splits)
qed

section \<open>Walk visits the subtree\<close>

text \<open>With a function that stops at errors, a walk that succeeds has visited every entry below the
  root in order, whatever the operating system did; without faults it succeeds.\<close>

definition walked ::
  "(string \<Rightarrow> bool \<Rightarrow> 's \<Rightarrow> 's) \<Rightarrow> fs \<Rightarrow> bool \<Rightarrow> string list list \<Rightarrow> 's \<Rightarrow> 's res \<times> fs \<Rightarrow> bool" where
  "walked g v fine ks s out \<longleftrightarrow>
     same_tree (snd out) v \<and>
     (\<forall>s'. fst out = Inr s' \<longrightarrow> s' = fold (visit g v) ks s) \<and>
     (fine \<longrightarrow> fs_healthy (snd out) \<and> is_ok (fst out))"

definition deepest :: "fs \<Rightarrow> nat \<Rightarrow> bool" where
  "deepest v m \<longleftrightarrow> (\<forall>k \<in> set (fs_dirs v) \<union> set (map fst (fs_files v)). length k \<le> m)"

lemma walk_names_ok:
  assumes down: "\<And>c s w. c \<in> set (children v k) \<Longrightarrow> same_tree w v \<Longrightarrow>
      walked g v (fs_healthy w \<and> deep) (subtree n v (k @ [c])) s
        (walk n (stop_fn g) (path_of (k @ [c])) (\<not> is_file v (k @ [c])) s w)"
    and wf: "fs_wf v" and k: "abs_key k"
  shows "set names \<subseteq> set (children v k) \<Longrightarrow> same_tree w v \<Longrightarrow>
    walked g v (fs_healthy w \<and> deep) (concat (map (\<lambda>c. subtree n v (k @ [c])) names)) s
      (walk_names n (stop_fn g) (path_of k) names s w)"
proof (induction names arbitrary: s w)
  case Nil
  then show ?case by (simp add: walked_def)
next
  case (Cons c names)
  have c: "c \<in> set (children v k)" using Cons.prems by simp
  have pl: "plain_elem c" using children_plain [OF wf c] .
  note f = path_join_snoc [OF k pl] and ak = abs_key_snoc [OF k pl]
  have e: "entry_at v (k @ [c])"
    using c by (auto simp: children_iff entry_at_def dir_exists_def weak_map_of_SomeI)
  obtain r1 w1 where ls: "os_Lstat (path_of (k @ [c])) w = (r1, w1)" by fastforce
  note ls' = Lstat_tree [OF ls] path_key_path_of [OF ak] same_tree_eqs [OF Cons.prems(2), of "k @ [c]"]
  have t1: "same_tree w1 v" using ls' Cons.prems(2) same_tree_trans by blast
  show ?case
  proof (cases r1)
    case (Inl x)
    with ls' e t1 show ?thesis by (auto simp: walked_def f ls simp del: path_join.simps)
  next
    case (Inr d)
    then have d: "d = (\<not> is_file v (k @ [c]))" using ls' by auto
    obtain r2 w2 where wk: "walk n (stop_fn g) (path_of (k @ [c])) d s w1 = (r2, w2)" by fastforce
    have st: "walk_names n (stop_fn g) (path_of k) (c # names) s w =
        (case r2 of Inl e \<Rightarrow> (Inl e, w2) | Inr s1 \<Rightarrow> walk_names n (stop_fn g) (path_of k) names s1 w2)"
      by (simp add: f ls Inr wk del: path_join.simps split: sum.split)
    have h: "fs_healthy w \<Longrightarrow> fs_healthy w1" using ls' by blast
    have IH1: "walked g v (fs_healthy w1 \<and> deep) (subtree n v (k @ [c])) s (r2, w2)"
      using down [OF c t1, of s] wk d by simp
    show ?thesis
    proof (cases r2)
      case (Inl x)
      with IH1 h show ?thesis by (auto simp: walked_def st simp del: walk_names.simps)
    next
      case (Inr s1)
      have "walked g v (fs_healthy w2 \<and> deep) (concat (map (\<lambda>c. subtree n v (k @ [c])) names)) s1
          (walk_names n (stop_fn g) (path_of k) names s1 w2)"
        using Cons.IH [of w2 s1] Cons.prems(1) IH1 by (simp add: walked_def)
      with IH1 h Inr show ?thesis by (auto simp: walked_def st simp del: walk_names.simps)
    qed
  qed
qed

lemma walk_ok:
  assumes wf: "fs_wf v" and deep: "deepest v m"
  shows "abs_key k \<Longrightarrow> same_tree w v \<Longrightarrow>
    walked g v (fs_healthy w \<and> 0 < n \<and> m < length k + n) (subtree n v k) s
      (walk n (stop_fn g) (path_of k) (\<not> is_file v k) s w)"
proof (induction n arbitrary: k s w)
  case 0
  then show ?case by (simp add: walked_def)
next
  case (Suc n)
  show ?case
  proof (cases "is_file v k")
    case True
    with Suc.prems show ?thesis by (simp add: walked_def visit_def)
  next
    case False
    obtain r1 w1 where rd: "readDirNames (path_of k) w = (r1, w1)" by fastforce
    note rd' = readDirNames_tree [OF rd] path_key_path_of [OF Suc.prems(1)] same_tree_eqs [OF Suc.prems(2), of k]
    have t1: "same_tree w1 v" using rd' Suc.prems(2) same_tree_trans by blast
    show ?thesis
    proof (cases r1)
      case (Inl e)
      with rd' t1 False show ?thesis by (auto simp: walked_def rd)
    next
      case (Inr names)
      then have names: "names = children v k" using rd' by auto
      have "walked g v (fs_healthy w' \<and> m < length k + Suc n) (subtree n v (k @ [c])) s'
        (walk n (stop_fn g) (path_of (k @ [c])) (\<not> is_file v (k @ [c])) s' w')"
        if c: "c \<in> set (children v k)" and "same_tree w' v" for c s' w'
      proof -
        have "abs_key (k @ [c])"
          using abs_key_snoc [OF Suc.prems(1) children_plain [OF wf c]] .
        moreover have "length (k @ [c]) \<le> m"
          using c deep unfolding children_iff deepest_def by blast
        then have "m < length k + Suc n \<longleftrightarrow> 0 < n \<and> m < length (k @ [c]) + n" by auto
        ultimately show ?thesis using Suc.IH [of "k @ [c]" w' s'] that(2) by (simp only: conj_assoc)
      qed
      from walk_names_ok [where deep = "m < length k + Suc n", OF this wf Suc.prems(1), of names w1 "g (path_of k) True s"] t1
      have "walked g v (fs_healthy w1 \<and> m < length k + Suc n) (concat (map (\<lambda>c. subtree n v (k @ [c])) names))
          (g (path_of k) True s) (walk_names n (stop_fn g) (path_of k) names (g (path_of k) True s) w1)"
        by (simp add: names)
      with Inr rd' False show ?thesis by (auto simp: walked_def rd names visit_def)
    qed
  qed
qed


text \<open>The subtree holds every entry below its root once.\<close>

definition fs_entries :: "fs \<Rightarrow> string list set" where
  "fs_entries v = set (fs_dirs v) \<union> set (map fst (fs_files v))"

definition below :: "fs \<Rightarrow> string list \<Rightarrow> string list set" where
  "below v k = {e \<in> fs_entries v. \<exists>t. t \<noteq> [] \<and> e = k @ t}"

lemma parent_dir: "fs_wf v \<Longrightarrow> e @ [x] \<in> fs_entries v \<Longrightarrow> dir_exists v e \<and> plain_elem x"
  unfolding fs_wf_def fs_entries_def by (metis butlast_snoc last_snoc)

lemma parent_entry:
  "fs_wf v \<Longrightarrow> k @ t @ [x] \<in> fs_entries v \<Longrightarrow> k \<noteq> [] \<Longrightarrow> t \<noteq> [] \<Longrightarrow> k @ t \<in> fs_entries v"
  using parent_dir [of v "k @ t" x] by (auto simp: dir_exists_def top_dir_def fs_entries_def append_eq_Cons_conv)

lemma entry_prefix:
  assumes wf: "fs_wf v" and k: "k \<noteq> []"
  shows "t \<noteq> [] \<Longrightarrow> k @ t \<in> fs_entries v \<Longrightarrow> k @ [hd t] \<in> fs_entries v \<and> (k @ t \<noteq> k @ [hd t] \<longrightarrow> \<not> is_file v (k @ [hd t])) \<and> \<not> is_file v k"
proof (induction t rule: rev_induct)
  case (snoc x t)
  have d: "dir_exists v (k @ t)"
    using parent_dir [OF wf] snoc.prems(2) by (metis append_assoc)
  have nf: "dir_exists v e \<Longrightarrow> \<not> is_file v e" for e
    using wf by (force simp: dir_exists_def top_dir_def fs_wf_def is_file_def map_of_eq_None_iff)
  show ?case
  proof (cases "t = []")
    case True
    with snoc d nf show ?thesis by simp
  next
    case False
    then have "k @ t \<in> fs_entries v" using parent_entry [OF wf snoc.prems(2) k] by blast
    from snoc.IH [OF False this] False d nf show ?thesis by (cases t) auto
  qed
qed simp

lemma set_subtree:
  assumes wf: "fs_wf v" and deep: "deepest v m"
  shows "k \<noteq> [] \<Longrightarrow> 0 < n \<Longrightarrow> m < length k + n \<Longrightarrow> set (subtree n v k) = insert k (below v k)"
proof (induction n arbitrary: k)
  case (Suc n)
  have sub: "set (subtree n v (k @ [c])) = insert (k @ [c]) (below v (k @ [c]))" if "k @ [c] \<in> fs_entries v" for c
  proof -
    have "length (k @ [c]) \<le> m" using deep that unfolding deepest_def fs_entries_def by blast
    then show ?thesis using Suc.IH [of "k @ [c]"] Suc.prems by simp
  qed
  have ch: "c \<in> set (children v k) \<longleftrightarrow> k @ [c] \<in> fs_entries v" for c
    by (simp add: children_iff fs_entries_def)
  have split_below: "below v k = (\<Union>c \<in> {c. k @ [c] \<in> fs_entries v}. insert (k @ [c]) (below v (k @ [c])))"
  proof
    show "below v k \<subseteq> (\<Union>c \<in> {c. k @ [c] \<in> fs_entries v}. insert (k @ [c]) (below v (k @ [c])))"
    proof
      fix e assume "e \<in> below v k"
      then obtain c t where e: "e = k @ c # t" "e \<in> fs_entries v" by (auto simp: below_def neq_Nil_conv)
      with entry_prefix [OF wf Suc.prems(1), of "c # t"] have "k @ [c] \<in> fs_entries v" by simp
      moreover have "e = k @ [c] \<or> e \<in> below v (k @ [c])" using e by (cases t) (auto simp: below_def)
      ultimately show "e \<in> (\<Union>c \<in> {c. k @ [c] \<in> fs_entries v}. insert (k @ [c]) (below v (k @ [c])))" by blast
    qed
  qed (auto simp: below_def)
  show ?case
  proof (cases "is_file v k")
    case True
    then have "below v k = {}"
      using entry_prefix [OF wf Suc.prems(1)] by (auto simp: below_def)
    with True show ?thesis by simp
  next
    case False
    have "set (subtree (Suc n) v k) = insert k (\<Union>c \<in> set (children v k). set (subtree n v (k @ [c])))"
      using False by simp
    also have "\<dots> = insert k (\<Union>c \<in> {c. k @ [c] \<in> fs_entries v}. insert (k @ [c]) (below v (k @ [c])))"
      using sub ch by auto
    finally show ?thesis unfolding split_below .
  qed
qed simp

lemma subtree_extends: "e \<in> set (subtree n v k) \<Longrightarrow> \<exists>t. e = k @ t"
  by (induction n arbitrary: k) (auto split: if_splits, fastforce)

lemma distinct_subtree: "distinct (subtree n v k)"
proof (induction n arbitrary: k)
  case (Suc n)
  have "distinct (concat (map (\<lambda>c. subtree n v (k @ [c])) cs))" if "distinct cs" for cs
    using that
  proof (induction cs)
    case (Cons c cs)
    have "set (subtree n v (k @ [c])) \<inter> set (subtree n v (k @ [d])) = {}" if "c \<noteq> d" for d
      using that by (fastforce dest: subtree_extends)
    with Cons.prems have "set (subtree n v (k @ [c])) \<inter> set (concat (map (\<lambda>c. subtree n v (k @ [c])) cs)) = {}"
      by fastforce
    with Cons Suc.IH show ?case by (simp del: set_concat)
  qed simp
  from this [OF distinct_children] show ?case by (auto dest: subtree_extends)
qed simp

lemma fs_depth_deepest: "deepest v (fs_depth v)"
proof -
  have "e \<in> set es \<Longrightarrow> length e \<le> foldr (max \<circ> length) es 0" for e :: "string list" and es
    by (induction es) (auto simp: max_def)
  from this [of _ "fs_dirs v @ map fst (fs_files v)"] show ?thesis
    unfolding deepest_def fs_depth_def by auto
qed

lemma Walk_ok:
  assumes "fs_wf w" and "abs_key k"
  shows "walked g w (fs_healthy w \<and> entry_at w k) (subtree (fs_depth w + 2) w k) s (Walk (stop_fn g) (path_of k) s w)"
proof -
  obtain r w1 where ls: "os_Lstat (path_of k) w = (r, w1)" by fastforce
  note ls' = Lstat_tree [OF ls] path_key_path_of [OF assms(2)]
  show ?thesis
  proof (cases r)
    case (Inl e)
    with ls' show ?thesis by (auto simp: walked_def Walk_def ls)
  next
    case (Inr d)
    then have d: "d = (\<not> is_file w k)" using ls' by auto
    have fu: "fs_depth w1 = fs_depth w" using ls' by (simp add: same_tree_def fs_depth_def)
    from walk_ok [OF assms(1) fs_depth_deepest assms(2), of w1 g "fs_depth w + 2" s] ls' Inr d
    show ?thesis by (auto simp: walked_def Walk_def ls fu simp del: walk.simps subtree.simps)
  qed
qed

end
