(* ===== verification/Cli_Scanner.thy ===== *)
theory Cli_Scanner
  imports Go_Walk
begin

text \<open>
  The scanner of the command-line tool: \<open>packages/cli/internal/engine/scanner/scanner.go\<close>.  The files
  found so far are the state of the function given to \<open>Walk\<close>.
\<close>

section \<open>The scanner\<close>

datatype FileType = FileTypeHCL | FileTypeYAML | FileTypeSQL | FileTypeJS

record ScannedFile =
  SPath :: string
  SType :: FileType
  IsPublic :: bool

record Scanner =
  scRootDir :: string
  scSchemaDir :: string
  scLogicDir :: string

definition new_scanner :: "string \<Rightarrow> Scanner" where
  "new_scanner root =
     \<lparr>scRootDir = root, scSchemaDir = path_join [root, ''schema''], scLogicDir = path_join [root, ''logic'']\<rparr>"

definition file_type :: "string \<Rightarrow> FileType option" where
  "file_type ext =
     (if ext = ''.hcl'' then Some FileTypeHCL
      else if ext = ''.yaml'' \<or> ext = ''.yml'' then Some FileTypeYAML
      else if ext = ''.sql'' then Some FileTypeSQL
      else if ext = ''.js'' then Some FileTypeJS
      else None)"

text \<open>What one visit adds; \<open>filename[0]\<close> exists because \<open>Base\<close> is never empty.\<close>

definition scan_visit :: "string \<Rightarrow> bool \<Rightarrow> ScannedFile list \<Rightarrow> ScannedFile list" where
  "scan_visit path is_dir files =
     (if is_dir then files
      else (case file_type (path_ext path) of
              None \<Rightarrow> files
            | Some t \<Rightarrow> files @ [\<lparr>SPath = path, SType = t, IsPublic = hd (path_base path) \<noteq> CHR ''_''\<rparr>]))"

definition scanDir :: "string \<Rightarrow> fs \<Rightarrow> ScannedFile list res \<times> fs" where
  "scanDir dir w = Walk (stop_fn scan_visit) dir [] w"

definition ScanSchema :: "Scanner \<Rightarrow> fs \<Rightarrow> ScannedFile list res \<times> fs" where
  "ScanSchema s w = scanDir (scSchemaDir s) w"

definition ScanLogic :: "Scanner \<Rightarrow> fs \<Rightarrow> ScannedFile list res \<times> fs" where
  "ScanLogic s w = scanDir (scLogicDir s) w"

section \<open>What a scan returns\<close>

declare subtree.simps [simp del]

text \<open>The record of one file.\<close>

definition scanned :: "string list \<Rightarrow> ScannedFile option" where
  "scanned k =
     map_option (\<lambda>t. \<lparr>SPath = path_of k, SType = t, IsPublic = hd (last k) \<noteq> CHR ''_''\<rparr>)
       (file_type (path_ext (last k)))"

lemma fold_scan:
  assumes "\<forall>k \<in> set ks. is_file v k \<longrightarrow> (\<exists>d n. k = d @ [n] \<and> abs_key d \<and> plain_elem n)"
  shows "fold (visit scan_visit v) ks acc = acc @ List.map_filter scanned (filter (is_file v) ks)"
  using assms
proof (induction ks arbitrary: acc)
  case (Cons k ks)
  have "visit scan_visit v k acc = acc @ List.map_filter scanned (filter (is_file v) [k])"
  proof (cases "is_file v k")
    case True
    with Cons.prems obtain d n where k: "k = d @ [n]" "abs_key d" "plain_elem n" by auto
    with True show ?thesis
      by (simp add: visit_def scan_visit_def scanned_def path_ext_path_of path_base_path_of
          map_filter_simps split: option.split)
  qed (simp add: visit_def scan_visit_def map_filter_simps)
  with Cons show ?case by (simp add: map_filter_def)
qed (simp add: map_filter_simps)

lemma below_last:
  assumes wf: "fs_wf w" and k: "abs_key k"
  shows "e \<in> below w k \<Longrightarrow> abs_key e \<and> (\<exists>d n. e = d @ [n] \<and> abs_key d \<and> plain_elem n)"
proof -
  have "abs_key (k @ t) \<and> (t \<noteq> [] \<longrightarrow> abs_key (butlast (k @ t)) \<and> plain_elem (last t))"
    if "t \<noteq> [] \<longrightarrow> k @ t \<in> fs_entries w" for t
    using that
  proof (induction t rule: rev_induct)
    case (snoc x t)
    have x: "plain_elem x" using parent_dir [OF wf, of "k @ t" x] snoc.prems by simp
    have "t \<noteq> [] \<longrightarrow> k @ t \<in> fs_entries w"
      using parent_entry [OF wf, of k t x] snoc.prems k by (auto simp: abs_key_def)
    with snoc.IH x show ?case
      using abs_key_snoc [of "k @ t" x] by (auto simp: butlast_append)
  qed (use k in simp)
  moreover assume "e \<in> below w k"
  ultimately show ?thesis
    by (auto simp: below_def) (metis append_butlast_last_id append_is_Nil_conv last_appendR)
qed


lemma abs_key_path_key: "is_abs p \<Longrightarrow> abs_key (path_key p)"
  using path_elems_rooted by (auto simp: path_key_def abs_key_def)

lemma path_of_path_key: "is_abs p \<Longrightarrow> path_of (path_key p) = path_clean p"
  by (simp add: path_of_def path_key_def path_clean_def)

lemma join_name:
  assumes "is_abs root" and "plain_elem n"
  shows "path_join [root, n] = path_of (path_key root @ [n])"
  using path_join_clean [of root "[n]"] assms by (simp add: path_key_def)

lemma path_of_inject: "abs_key e \<Longrightarrow> abs_key e' \<Longrightarrow> path_of e = path_of e' \<Longrightarrow> e = e'"
  by (metis path_key_path_of)

lemma map_filter_skip:
  "f x = None \<Longrightarrow> List.map_filter f (filter P xs) = List.map_filter f (filter (\<lambda>e. P e \<and> e \<noteq> x) xs)"
  by (induction xs) (auto simp: map_filter_simps split: option.split)

lemma scan_ok:
  assumes wf: "fs_wf w" and k: "abs_key k" and n: "plain_elem n" and ext: "file_type (path_ext n) = None"
  shows "\<exists>ks. distinct ks \<and> set ks = {e \<in> below w (k @ [n]). is_file w e} \<and>
    (\<forall>files w'. scanDir (path_of (k @ [n])) w = (Inr files, w') \<longrightarrow> files = List.map_filter scanned ks)"
proof -
  let ?k = "k @ [n]"
  let ?t = "subtree (fs_depth w + 2) w ?k"
  have ak: "abs_key ?k" using abs_key_snoc [OF k n] .
  have set_t: "set ?t = insert ?k (below w ?k)"
    by (rule set_subtree [OF wf fs_depth_deepest]) auto
  have last_t: "\<forall>e \<in> set ?t. \<exists>d m. e = d @ [m] \<and> abs_key d \<and> plain_elem m"
    using below_last [OF wf ak] k n unfolding set_t by blast
  have no_k: "scanned ?k = None" using ext by (simp add: scanned_def)
  have "List.map_filter scanned (filter (is_file w) ?t) =
      List.map_filter scanned (filter (\<lambda>e. is_file w e \<and> e \<noteq> ?k) ?t)"
    using no_k by (rule map_filter_skip)
  moreover have "?k \<notin> below w ?k" by (simp add: below_def)
  then have "set (filter (\<lambda>e. is_file w e \<and> e \<noteq> ?k) ?t) = {e \<in> below w ?k. is_file w e}"
    using set_t by auto
  moreover have "files = List.map_filter scanned (filter (is_file w) ?t)"
    if "scanDir (path_of ?k) w = (Inr files, w')" for files w'
    using Walk_ok [OF wf ak, of scan_visit "[]"] that fold_scan [of ?t w "[]"] last_t
    by (simp add: walked_def scanDir_def)
  ultimately show ?thesis
    by (intro exI [of _ "filter (\<lambda>e. is_file w e \<and> e \<noteq> ?k) ?t"])
      (simp add: distinct_filter distinct_subtree)
qed

text \<open>
  Property C35. Scanning \<open>schema/\<close> or \<open>logic/\<close> of a project finds exactly the files below the directory,
  at any depth, whose names end in one of the known extensions: each once, under its path, with
  the type of its extension, and marked as not public exactly when its name starts with an
  underscore.  If the operating system refuses any call, or the directory is missing, the scan
  fails instead of returning fewer files; without faults it succeeds.
\<close>

theorem scan_finds_exactly:
  assumes "fs_wf w" and "is_abs root" and "sub \<in> {''schema'', ''logic''}"
  shows "(case scanDir (path_join [root, sub]) w of
      (Inl e, w') \<Rightarrow> True
    | (Inr files, w') \<Rightarrow>
        distinct (map SPath files) \<and>
        set files = {\<lparr>SPath = path_of e, SType = t, IsPublic = hd (last e) \<noteq> CHR ''_''\<rparr> | e t.
           e \<in> below w (path_key root @ [sub]) \<and> is_file w e \<and> file_type (path_ext (last e)) = Some t}) \<and>
    (\<not> entry_at w (path_key root @ [sub]) \<longrightarrow> \<not> is_ok (fst (scanDir (path_join [root, sub]) w))) \<and>
    (fs_healthy w \<and> entry_at w (path_key root @ [sub]) \<longrightarrow> is_ok (fst (scanDir (path_join [root, sub]) w)))"
proof -
  let ?k = "path_key root @ [sub]"
  have n: "plain_elem sub" and ext: "file_type (path_ext sub) = None"
    using assms(3) by (auto simp: plain_elem_def file_type_def path_ext_def path_split_def)
  have dir: "path_join [root, sub] = path_of ?k" by (rule join_name [OF assms(2) n])
  have k: "abs_key (path_key root)" using abs_key_path_key [OF assms(2)] .
  have ak: "abs_key ?k" using abs_key_snoc [OF k n] .
  obtain ks where ks: "distinct ks" "set ks = {e \<in> below w ?k. is_file w e}"
    and scan: "\<And>files w'. scanDir (path_of ?k) w = (Inr files, w') \<Longrightarrow> files = List.map_filter scanned ks"
    using scan_ok [OF assms(1) k n ext] by blast
  have abs: "\<forall>e \<in> set ks. abs_key e" using below_last [OF assms(1) ak] ks(2) by blast
  have "set (List.map_filter scanned ks) = {\<lparr>SPath = path_of e, SType = t, IsPublic = hd (last e) \<noteq> CHR ''_''\<rparr> | e t.
           e \<in> below w ?k \<and> is_file w e \<and> file_type (path_ext (last e)) = Some t}"
    using ks(2) by (force simp: map_filter_def scanned_def)
  moreover have "distinct (map SPath (List.map_filter scanned ks))"
    using ks(1) abs
  proof (induction ks)
    case (Cons e ks)
    have "SPath f \<notin> SPath ` set (List.map_filter scanned ks)" if "scanned e = Some f" for f
      using that Cons.prems by (auto simp: map_filter_def scanned_def dest: path_of_inject)
    with Cons show ?case by (auto simp: map_filter_simps split: option.split)
  qed (simp add: map_filter_simps)
  moreover have "\<not> entry_at w ?k \<longrightarrow> \<not> is_ok (fst (scanDir (path_of ?k) w))"
    using Lstat_tree [of "path_of ?k" w] path_key_path_of [OF ak]
    by (auto simp: scanDir_def Walk_def split: prod.split sum.split)
  moreover have "fs_healthy w \<and> entry_at w ?k \<longrightarrow> is_ok (fst (scanDir (path_of ?k) w))"
    using Walk_ok [OF assms(1) ak, of scan_visit "[]"] by (simp add: walked_def scanDir_def)
  ultimately show ?thesis unfolding dir
    by (auto dest: scan split: prod.split sum.split)
qed

section \<open>A scan ends\<close>

lemma walk_tree:
  "same_tree (snd (walk n fn p d s w)) w" "same_tree (snd (walk_names n fn p names s w)) w"
proof (induction n fn p d s w and n fn p names s w rule: walk_walk_names.induct)
  case (2 n fn p d s w)
  obtain r w' where rd: "readDirNames p w = (r, w')" by fastforce
  then have "same_tree w' w" using readDirNames_tree by blast
  with "2.IH" [OF _ rd [symmetric]] show ?case
    by (auto simp: rd same_tree_def split: sum.split)
next
  case (4 n fn p name names s w)
  obtain r w' where ls: "os_Lstat (path_join [p, name]) w = (r, w')" by fastforce
  then have t: "same_tree w' w" using Lstat_tree by blast
  show ?case
  proof (cases r)
    case (Inl e)
    with "4.IH"(1) [OF refl ls [symmetric] Inl] t show ?thesis
      by (auto simp: ls same_tree_def simp del: path_join.simps split: sum.split)
  next
    case (Inr d)
    obtain r2 w2 where wk: "walk n fn (path_join [p, name]) d s w' = (r2, w2)" by fastforce
    with "4.IH"(2) [OF refl ls [symmetric] Inr] t have "same_tree w2 w" by (simp add: same_tree_def)
    with "4.IH"(3) [OF refl ls [symmetric] Inr wk [symmetric]] show ?thesis
      by (auto simp: ls Inr wk same_tree_def simp del: path_join.simps split: sum.split)
  qed
qed simp_all

text \<open>The fuel of a walk does not matter as soon as it exceeds what is left of the depth, whatever the
  function does and whatever faults there are.\<close>

lemma walk_fuel:
  assumes wf: "fs_wf v" and deep: "deepest v D"
  shows walk_fuel_dir: "\<lbrakk>is_abs p; same_tree w v; D - length (path_key p) < n; n \<le> m\<rbrakk> \<Longrightarrow>
      walk n fn p d s w = walk m fn p d s w"
    and walk_fuel_names: "\<lbrakk>is_abs p; same_tree w v; set names \<subseteq> set (children v (path_key p)); D - length (path_key p) \<le> n; n \<le> m\<rbrakk> \<Longrightarrow>
      walk_names n fn p names s w = walk_names m fn p names s w"
proof (induction n fn p d s w and n fn p names s w arbitrary: m and m rule: walk_walk_names.induct)
  case (2 n fn p d s w)
  obtain m' where m: "m = Suc m'" "n \<le> m'" using "2.prems"(4) by (cases m) auto
  obtain r w' where rd: "readDirNames p w = (r, w')" by fastforce
  have "same_tree w' v" and "\<And>names. r = Inr names \<Longrightarrow> names = children v (path_key p)"
    using readDirNames_tree [OF rd] same_tree_trans "2.prems"(2) same_tree_eqs [of w v "path_key p"] by blast+
  with "2.IH" [OF _ rd [symmetric]] "2.prems" m show ?case
    by (auto simp: rd split: sum.split)
next
  case (4 n fn p name names s w)
  have nm: "name \<in> set (children v (path_key p))" using "4.prems"(3) by simp
  have pl: "plain_elem name" using children_plain [OF wf nm] .
  have key: "path_key (path_join [p, name]) = path_key p @ [name]" and abs: "is_abs (path_join [p, name])"
    using join_name [OF "4.prems"(1) pl] path_key_path_of [OF abs_key_snoc [OF abs_key_path_key [OF "4.prems"(1)] pl]] by simp_all
  have "length (path_key p @ [name]) \<le> D" using nm deep unfolding children_iff deepest_def by blast
  then have less: "D - length (path_key (path_join [p, name])) < n" using "4.prems"(4) by (simp add: key del: path_join.simps)
  obtain r w' where ls: "os_Lstat (path_join [p, name]) w = (r, w')" by fastforce
  have t: "same_tree w' v" using Lstat_tree [OF ls] same_tree_trans "4.prems"(2) by blast
  show ?case
  proof (cases r)
    case (Inl e)
    with "4.IH"(1) [OF refl ls [symmetric] Inl] "4.prems" t show ?thesis
      by (auto simp: ls simp del: path_join.simps split: sum.split)
  next
    case (Inr d)
    obtain r2 w2 where wk: "walk n fn (path_join [p, name]) d s w' = (r2, w2)" by fastforce
    have "same_tree w2 v" using walk_tree(1) [of n fn "path_join [p, name]" d s w'] wk t by (simp add: same_tree_def)
    moreover have "walk m fn (path_join [p, name]) d s w' = (r2, w2)"
      using "4.IH"(2) [OF refl ls [symmetric] Inr abs t less "4.prems"(5)] wk by simp
    ultimately show ?thesis
      using "4.IH"(3) [OF refl ls [symmetric] Inr wk [symmetric]] "4.prems"
      by (auto simp: ls Inr wk simp del: path_join.simps split: sum.split)
  qed
qed simp_all


definition sample_project :: fs where
  "sample_project =
     \<lparr>fs_dirs = [[''/'', ''p''], [''/'', ''p'', ''logic''], [''/'', ''p'', ''logic'', ''hello'']],
      fs_files = [([''/'', ''p'', ''logic'', ''hello'', ''ping.js''], ''export''),
        ([''/'', ''p'', ''logic'', ''hello'', ''_draft.sql''], ''select 1''),
        ([''/'', ''p'', ''logic'', ''notes.txt''], ''todo'')],
      fs_faults = []\<rparr>"

lemma sample_project_facts: "fs_wf sample_project" "fs_healthy sample_project"
  "path_key ''/p'' = [''/'', ''p'']"
  by code_simp+

theorem scan_finds_exactly_witness:
  "\<exists>files w'. scanDir (path_join [''/p'', ''logic'']) sample_project = (Inr files, w') \<and>
     \<lparr>SPath = ''/p/logic/hello/_draft.sql'', SType = FileTypeSQL, IsPublic = False\<rparr> \<in> set files"
proof -
  let ?k = "path_key ''/p'' @ [''logic'']" and ?e = "[''/'', ''p'', ''logic'', ''hello'', ''_draft.sql'']"
  have e: "entry_at sample_project ?k"
    by (simp add: sample_project_facts sample_project_def entry_at_def dir_exists_def)
  have b: "?e \<in> below sample_project ?k \<and> is_file sample_project ?e \<and>
      file_type (path_ext (last ?e)) = Some FileTypeSQL \<and> path_of ?e = ''/p/logic/hello/_draft.sql''"
    by (simp add: sample_project_facts sample_project_def below_def fs_entries_def is_file_def path_ext_def
        path_split_def file_type_def path_of_def Let_def)
  have "is_abs ''/p''" by simp
  note ok = scan_finds_exactly [OF sample_project_facts(1) this, of "''logic''"]
  obtain files w' where r: "scanDir (path_join [''/p'', ''logic'']) sample_project = (Inr files, w')"
    using ok e sample_project_facts(2) by (cases "scanDir (path_join [''/p'', ''logic'']) sample_project") (auto simp: is_ok_iff simp del: path_join.simps)
  have "\<lparr>SPath = path_of ?e, SType = FileTypeSQL, IsPublic = hd (last ?e) \<noteq> CHR ''_''\<rparr> \<in> set files"
    using ok b unfolding r by fastforce
  with b r show ?thesis by simp
qed


end
