(* ===== verification/Cli_Parser.thy ===== *)
theory Cli_Parser
  imports Go_Prelude
begin

text \<open>
  The parser of logic and schema files: \<open>packages/cli/internal/engine/parser/parser.go\<close>.  The YAML
  package is a parameter: \<open>yaml text config\<close> is \<open>yaml.Unmarshal\<close> into a configuration, which keeps
  the fields that the text does not set.  A value of type \<open>any\<close> is \<open>'y go_any\<close>, where \<open>'y\<close> stands
  for what is neither a string nor a boolean nor a map with string keys.
\<close>

section \<open>Configurations\<close>

datatype 'y go_any = AnyStr string | AnyBool bool | AnyMap "(string \<times> 'y go_any) list" | AnyOther 'y

record 'y Param =
  PType :: string
  Required :: bool
  Default :: "'y go_any"

record 'y LogicConfig =
  Target :: string
  Params :: "(string, 'y Param) gomap option"
  Access :: string
  Cache :: string
  CNamespace :: string
  CName :: string
  SQL :: string
  JS :: string

record SchemaConfig =
  SAlias :: string
  Raw :: string

definition empty_config :: "'y LogicConfig" where
  "empty_config =
     \<lparr>Target = [], Params = None, Access = [], Cache = [], CNamespace = [], CName = [], SQL = [], JS = []\<rparr>"

type_synonym 'y yaml = "string \<Rightarrow> 'y LogicConfig \<Rightarrow> 'y LogicConfig res"

section \<open>Files\<close>

abbreviation dashes :: string where "dashes \<equiv> ''---''"

definition front_error :: "go_error \<Rightarrow> go_error" where
  "front_error e = ErrWrap ''failed to parse YAML frontmatter: '' e"

text \<open>Front matter in a comment.  The slice \<open>trimmed[2:end]\<close> panics when the comment is \<open>/*/\<close>,
  whose end is found at 1.\<close>

definition comment_front :: "'y yaml \<Rightarrow> string \<Rightarrow> 'y LogicConfig \<Rightarrow> (string \<times> 'y LogicConfig) res" where
  "comment_front yaml content config =
     (let trimmed = trim_space content in
      if \<not> has_prefix trimmed ''/*'' then Inr (content, config)
      else case str_index trimmed ''*/'' of
             None \<Rightarrow> Inr (content, config)
           | Some n \<Rightarrow>
               if n < 2 then Inl ErrPanic
               else let comment = trim_space (take (n - 2) (drop 2 trimmed)) in
                 if \<not> has_prefix comment dashes then Inr (content, config)
                 else let parts = split_n 3 dashes comment in
                   if length parts < 3 then Inr (content, config)
                   else (case yaml (parts ! 1) config of
                           Inl e \<Rightarrow> Inl (front_error e)
                         | Inr config' \<Rightarrow> Inr (trim_space (drop (n + 2) trimmed), config')))"

definition dash_front :: "'y yaml \<Rightarrow> string \<Rightarrow> 'y LogicConfig \<Rightarrow> (string \<times> 'y LogicConfig) res" where
  "dash_front yaml content config =
     (if \<not> has_prefix (trim_space content) dashes then Inr (content, config)
      else let parts = split_n 3 dashes (trim_space content) in
        if length parts < 3 then Inr (content, config)
        else (case yaml (parts ! 1) config of
                Inl e \<Rightarrow> Inl (front_error e)
              | Inr config' \<Rightarrow> Inr (trim_space (parts ! 2), config')))"

definition set_content :: "string \<Rightarrow> string \<Rightarrow> 'y LogicConfig \<Rightarrow> 'y LogicConfig" where
  "set_content filename content config =
     (if has_suffix filename ''.sql'' then config\<lparr>SQL := content\<rparr>
      else if has_suffix filename ''.js'' then config\<lparr>JS := content\<rparr>
      else config)"

definition ParseLogicFile :: "'y yaml \<Rightarrow> string \<Rightarrow> string \<Rightarrow> 'y LogicConfig res" where
  "ParseLogicFile yaml content filename =
     (case comment_front yaml content empty_config of
        Inl e \<Rightarrow> Inl e
      | Inr (content1, config1) \<Rightarrow>
          (case dash_front yaml content1 config1 of
             Inl e \<Rightarrow> Inl e
           | Inr (content2, config2) \<Rightarrow> Inr (set_content filename content2 config2)))"

definition ParseLogicMetadata :: "'y yaml \<Rightarrow> string \<Rightarrow> 'y LogicConfig res" where
  "ParseLogicMetadata yaml content =
     (case yaml content empty_config of
        Inl e \<Rightarrow> Inl (ErrWrap ''failed to parse YAML metadata: '' e)
      | Inr config \<Rightarrow> Inr config)"

text \<open>The tables of a schema file are never filled, so they are left out; the parse never fails.\<close>

definition ParseSchemaFile :: "string \<Rightarrow> string \<Rightarrow> SchemaConfig res" where
  "ParseSchemaFile content filename = Inr \<lparr>SAlias = trim_suffix filename ''.hcl'', Raw = content\<rparr>"

section \<open>Validation\<close>

definition allowed_types :: "string list" where
  "allowed_types = [''string'', ''int'', ''bool'', ''json'']"

fun check_params :: "(string, 'y Param) gomap \<Rightarrow> unit res" where
  "check_params [] = Inr ()"
| "check_params ((name, param) # ps) =
     (if PType param \<in> set allowed_types then check_params ps
      else Inl (ErrFmt ''param %q has invalid type %q'' [name, PType param]))"

definition ValidateLogicConfig :: "'y LogicConfig \<Rightarrow> unit res" where
  "ValidateLogicConfig config =
     (if blank (CNamespace config) \<or> CNamespace config = ''.'' then Inl (ErrMsg ''namespace is required'')
      else if blank (CName config) then Inl (ErrMsg ''name is required'')
      else let hasSQL = \<not> blank (SQL config); hasJS = \<not> blank (JS config) in
        if \<not> hasSQL \<and> \<not> hasJS then Inl (ErrMsg ''logic must contain SQL or JS content'')
        else if hasSQL \<and> hasJS then Inl (ErrMsg ''logic must not contain both SQL and JS content'')
        else if Access config \<noteq> [] \<and> blank (Access config) then Inl (ErrMsg ''access value is invalid'')
        else (case Params config of None \<Rightarrow> Inr () | Some ps \<Rightarrow> check_params ps))"

section \<open>What validation accepts\<close>

lemma check_params_ok: "check_params ps = Inr u \<longleftrightarrow> (\<forall>(name, p) \<in> set ps. PType p \<in> set allowed_types)"
  by (induction ps rule: check_params.induct) auto

text \<open>
  A configuration is valid exactly when it has a namespace that is not the root
  (\<open>.\<close>), a name, either SQL or JavaScript and not both, an access value that is empty or visible,
  and only parameters of the four known types; the order in which the parameters are visited
  decides at most which of the bad ones is reported.
\<close>

theorem valid_config_iff:
  "is_ok (ValidateLogicConfig c) \<longleftrightarrow>
     \<not> blank (CNamespace c) \<and> CNamespace c \<noteq> ''.'' \<and> \<not> blank (CName c) \<and>
     (blank (SQL c) \<longleftrightarrow> \<not> blank (JS c)) \<and> (Access c = [] \<or> \<not> blank (Access c)) \<and>
     (\<forall>ps. Params c = Some ps \<longrightarrow> (\<forall>(name, p) \<in> set ps. PType p \<in> {''string'', ''int'', ''bool'', ''json''}))"
  by (auto simp: ValidateLogicConfig_def Let_def is_ok_iff check_params_ok allowed_types_def
      split: option.splits)


section \<open>Where the front matter ends\<close>

lemma visible_ends: "visible c \<Longrightarrow> space_len_rev (s @ c # x) = space_len_rev s"
  using visible_not_space [of c] by (cases s rule: space_len_rev.cases; cases x; cases "tl x") auto

lemma visible_front: "visible c \<Longrightarrow> space_len (c # x) = 0"
  using visible_not_space [of c] by (cases x; cases "tl x") auto

lemma visible_chars [simp]: "visible (CHR ''-'')" "visible (CHR ''/'')" "visible (CHR ''*'')"
  by (simp_all add: visible_def)

lemma trim_rev_visible: "visible c \<Longrightarrow> trim_rev (s @ c # x) = trim_rev s @ c # x"
proof (induction s rule: trim_rev.induct)
  case (1 s)
  show ?case
  proof (cases "space_len_rev s = 0")
    case True
    with "1.prems" show ?thesis by (simp add: trim_rev_fix visible_ends)
  next
    case False
    have le: "space_len_rev s \<le> length s" by (cases s rule: space_len_rev.cases) auto
    have "trim_rev (s @ c # x) = trim_rev (drop (space_len_rev s) s @ c # x)"
      using False "1.prems" le by (simp add: trim_rev.simps [of "s @ c # x"] visible_ends)
    also have "\<dots> = trim_rev (drop (space_len_rev s) s) @ c # x" by (rule "1.IH" [OF False "1.prems"])
    finally show ?thesis using False by (simp add: trim_rev.simps [of s])
  qed
qed

lemma trim_right_visible: "visible c \<Longrightarrow> trim_right (x @ c # s) = x @ c # trim_right s"
  by (simp add: trim_right_def trim_rev_visible)

lemma trim_left_visible: "visible c \<Longrightarrow> trim_left (c # s) = c # s"
  by (simp add: trim_left_fix visible_front)

lemma space_len_ascii: "ascii_space c \<Longrightarrow> space_len (c # s) = 1 \<and> space_len_rev (c # s) = 1"
  by (cases s; cases "tl s") auto

lemma trim_left_spaces: "\<forall>c \<in> set u. ascii_space c \<Longrightarrow> trim_left (u @ s) = trim_left s"
  by (induction u) (simp_all add: trim_left.simps [of "_ # _"] space_len_ascii)

lemma trim_rev_spaces: "\<forall>c \<in> set u. ascii_space c \<Longrightarrow> trim_rev (u @ s) = trim_rev s"
  by (induction u) (simp_all add: trim_rev.simps [of "_ # _"] space_len_ascii)

lemma trim_right_spaces: "\<forall>c \<in> set u. ascii_space c \<Longrightarrow> trim_right (s @ u) = trim_right s"
  using trim_rev_spaces [of "rev u" "rev s"] by (simp add: trim_right_def)

text \<open>The first occurrence stays the first when more text follows it.\<close>

lemma has_prefix_more: "has_prefix s p \<Longrightarrow> has_prefix (s @ t) p"
  by (auto simp: has_prefix_iff)

lemma has_prefix_mono: "length p \<le> length s \<Longrightarrow> has_prefix (s @ t) p = has_prefix s p"
  by (induction s p rule: has_prefix.induct) auto

lemma str_index_append:
  "str_index (a @ p) p = Some (length a) \<Longrightarrow> p \<noteq> [] \<Longrightarrow> str_index (a @ p @ t) p = Some (length a)"
proof (induction a)
  case Nil
  then show ?case by (cases p) (auto split: if_splits)
next
  case (Cons c a)
  have "\<not> has_prefix (c # a @ p) p" using Cons.prems by (auto split: if_splits)
  then have n: "\<not> has_prefix (c # a @ p @ t) p"
    using has_prefix_mono [of p "c # a @ p" t] by simp
  have "str_index (a @ p) p = Some (length a)" using Cons.prems by (auto split: if_splits)
  then have "str_index (a @ p @ t) p = Some (length a)" using Cons.IH Cons.prems(2) by blast
  with n show ?case by simp
qed

lemma str_index_front [simp]: "p \<noteq> [] \<Longrightarrow> str_index (p @ t) p = Some 0"
  by (cases p) (auto simp: has_prefix_iff)


section \<open>The forms of a logic file\<close>

text \<open>Text that has no \<open>---\<close> of its own in front of the dashes that end it.\<close>

definition front_text :: "string \<Rightarrow> bool" where
  "front_text fm \<longleftrightarrow> str_index (fm @ dashes) dashes = Some (length fm)"

lemma front_visible: "trim_space (dashes @ fm @ dashes @ s) = dashes @ fm @ dashes @ trim_right s"
proof -
  have eq: "dashes @ fm @ dashes @ s = (dashes @ fm @ ''--'') @ CHR ''-'' # s" for s by simp
  show ?thesis
    using trim_right_visible [of "CHR ''-''" "dashes @ fm @ ''--''" s]
    by (simp add: trim_space_def trim_left_visible eq)
qed

lemma front_parts:
  assumes "front_text fm"
  shows "split_n 3 dashes (dashes @ fm @ dashes @ s) = [[], fm, s]"
proof -
  have three: "3 = Suc (Suc (Suc 0))" by simp
  have "str_index (fm @ dashes @ s) dashes = Some (length fm)"
    using assms str_index_append [of fm dashes s] by (simp add: front_text_def)
  then show ?thesis
    unfolding three split_n.simps str_index_front [of dashes, simplified] by simp
qed

lemma dash_front_split:
  assumes "front_text fm"
  shows "dash_front yaml (dashes @ fm @ dashes @ body) config =
    (case yaml fm config of
       Inl e \<Rightarrow> Inl (front_error e)
     | Inr config' \<Rightarrow> Inr (trim_space (trim_right body), config'))"
  unfolding dash_front_def front_visible Let_def front_parts [OF assms] by (simp split: sum.split)

lemma dash_front_none: "\<not> has_prefix (trim_space s) dashes \<Longrightarrow> dash_front yaml s config = Inr (s, config)"
  by (simp add: dash_front_def)

lemma comment_front_none: "\<not> has_prefix (trim_space s) ''/*'' \<Longrightarrow> comment_front yaml s config = Inr (s, config)"
  by (simp add: comment_front_def Let_def)

lemma comment_front_split:
  assumes fm: "front_text fm"
    and u: "\<forall>c \<in> set u. ascii_space c" and v: "\<forall>c \<in> set v. ascii_space c"
    and inner: "str_index (''/*'' @ u @ dashes @ fm @ dashes @ v @ ''*/'') ''*/'' =
      Some (length (''/*'' @ u @ dashes @ fm @ dashes @ v))"
  shows "comment_front yaml (''/*'' @ u @ dashes @ fm @ dashes @ v @ ''*/'' @ body) config =
    (case yaml fm config of
       Inl e \<Rightarrow> Inl (front_error e)
     | Inr config' \<Rightarrow> Inr (trim_space (trim_right body), config'))"
proof -
  define c where "c = u @ dashes @ fm @ dashes @ v"
  have eq: "''/*'' @ c @ ''*/'' @ s = (''/*'' @ c @ ''*'') @ CHR ''/'' # s" for s by simp
  have t: "trim_space (''/*'' @ c @ ''*/'' @ body) = ''/*'' @ c @ ''*/'' @ trim_right body"
    using trim_right_visible [of "CHR ''/''" "''/*'' @ c @ ''*''" body]
    by (simp add: trim_space_def trim_left_visible eq)
  have i: "str_index (''/*'' @ c @ ''*/'' @ trim_right body) ''*/'' = Some (2 + length c)"
    using inner str_index_append [of "''/*'' @ c" "''*/''" "trim_right body"] by (simp add: c_def)
  have "trim_left c = dashes @ fm @ dashes @ v"
    unfolding c_def trim_left_spaces [OF u] by (simp add: trim_left_visible)
  moreover have "trim_right (dashes @ fm @ dashes @ v) = dashes @ fm @ dashes"
    using trim_right_spaces [OF v, of "dashes @ fm @ dashes"] trim_right_visible [of "CHR ''-''" "dashes @ fm @ ''--''" "[]"]
    by (simp add: trim_right_def [of "[]"] trim_rev_fix)
  ultimately have cm: "trim_space c = dashes @ fm @ dashes @ []"
    by (simp add: trim_space_def)
  have "comment_front yaml (''/*'' @ c @ ''*/'' @ body) config =
    (case yaml fm config of
       Inl e \<Rightarrow> Inl (front_error e)
     | Inr config' \<Rightarrow> Inr (trim_space (trim_right body), config'))"
    unfolding comment_front_def Let_def t i option.case
    using cm front_parts [OF fm, of "[]"] by (simp split: sum.split)
  then show ?thesis by (simp add: c_def)
qed

text \<open>
  Property C36. Front matter may stand between lines of dashes at the top of a file, or, so that the
  file stays SQL or JavaScript, in a comment at the top.  When the front matter itself has no
  dashes and no end of comment, and the code after it does not start with dashes, both forms give
  the same configuration: the one YAML makes of the front matter, with the code after it as the
  SQL or JavaScript; a front matter that YAML refuses is an error.  A file that starts with
  neither form has no settings, and all of its text is the code.
\<close>

theorem front_matter_forms:
  assumes "front_text fm"
    and "\<forall>c \<in> set u. ascii_space c" and "\<forall>c \<in> set v. ascii_space c"
    and "str_index (''/*'' @ u @ dashes @ fm @ dashes @ v @ ''*/'') ''*/'' =
      Some (length (''/*'' @ u @ dashes @ fm @ dashes @ v))"
    and "\<not> has_prefix (trim_space (trim_right body)) dashes"
    and "\<not> has_prefix (trim_space plain) ''/*''" and "\<not> has_prefix (trim_space plain) dashes"
  shows "ParseLogicFile yaml (dashes @ fm @ dashes @ body) filename =
      (case yaml fm empty_config of
         Inl e \<Rightarrow> Inl (front_error e)
       | Inr c \<Rightarrow> Inr (set_content filename (trim_space (trim_right body)) c)) \<and>
    ParseLogicFile yaml (''/*'' @ u @ dashes @ fm @ dashes @ v @ ''*/'' @ body) filename =
      ParseLogicFile yaml (dashes @ fm @ dashes @ body) filename \<and>
    ParseLogicFile yaml plain filename = Inr (set_content filename plain empty_config)"
proof -
  have "\<not> has_prefix (trim_space (dashes @ fm @ dashes @ body)) ''/*''"
    unfolding front_visible by simp
  note no = comment_front_none [OF this]
  have "dash_front yaml (trim_space (trim_right body)) config = Inr (trim_space (trim_right body), config)" for config
    by (rule dash_front_none) (simp add: assms(5))
  then show ?thesis
    unfolding ParseLogicFile_def no comment_front_split [OF assms(1-4)]
    using dash_front_split [OF assms(1), of yaml body empty_config]
    by (simp add: comment_front_none [OF assms(6)] dash_front_none [OF assms(7)] split: sum.split)
qed

theorem front_matter_forms_witness:
  "ParseLogicFile (\<lambda>s c. Inr (c\<lparr>Access := s\<rparr>)) ''/* --- public --- */ select 1 '' ''a.sql'' =
     Inr ((empty_config :: unit LogicConfig)\<lparr>Access := '' public '', SQL := ''select 1''\<rparr>)"
proof -
  have "front_text '' public ''" by code_simp
  moreover have "str_index (''/*'' @ '' '' @ dashes @ '' public '' @ dashes @ '' '' @ ''*/'') ''*/'' =
      Some (length (''/*'' @ '' '' @ dashes @ '' public '' @ dashes @ '' ''))" by code_simp
  moreover have body: "trim_space (trim_right '' select 1 '') = ''select 1''" by code_simp
  moreover have "trim_space [] = []" by code_simp
  ultimately have "ParseLogicFile (\<lambda>s c. Inr (c\<lparr>Access := s\<rparr>))
      (''/*'' @ '' '' @ dashes @ '' public '' @ dashes @ '' '' @ ''*/'' @ '' select 1 '') ''a.sql'' =
    Inr (set_content ''a.sql'' ''select 1'' ((empty_config :: unit LogicConfig)\<lparr>Access := '' public ''\<rparr>))"
    using front_matter_forms [of "'' public ''" "'' ''" "'' ''" "'' select 1 ''" "[]"
        "\<lambda>s c. Inr (c\<lparr>Access := s\<rparr>) :: unit LogicConfig res" "''a.sql''"]
    by (simp only: body) (simp add: ascii_space_def)
  moreover have "has_suffix ''a.sql'' ''.sql''" by code_simp
  ultimately show ?thesis by (simp add: set_content_def)
qed

text \<open>A comment that starts with \<open>/*/\<close> makes the parser slice with bounds in the wrong order.\<close>

theorem slash_star_slash_panics: "ParseLogicFile yaml (''/*/'' @ rest) filename = Inl ErrPanic"
proof -
  have "trim_space (''/*/'' @ rest) = ''/*/'' @ trim_right rest"
    using trim_right_visible [of "CHR ''/''" "''/*''" rest] by (simp add: trim_space_def trim_left_visible)
  then show ?thesis by (simp add: ParseLogicFile_def comment_front_def Let_def)
qed

end
