(* ===== verification/Go_Crypto.thy ===== *)
theory Go_Crypto
  imports Go_Prelude "HOL-Library.Word"
begin

text \<open>
  The packages \<open>crypto/sha256\<close>, \<open>crypto/hmac\<close>, \<open>crypto/aes\<close> and \<open>crypto/cipher\<close> as far as the
  program calls them: SHA-256 (FIPS 180-4), HMAC over it (RFC 2104), the AES block
  cipher for its three key sizes (FIPS 197), and the GCM mode with a 12-byte nonce and no additional data (SP 800-38D).
  All of it computes on bytes.  What the model needs of GCM holds for any block cipher:
  \<open>Open\<close> after \<open>Seal\<close> gives the plaintext back, and a text that \<open>Open\<close> accepts is one that
  \<open>Seal\<close> makes.
\<close>

unbundle bit_operations_syntax

type_synonym word32 = "32 word"
type_synonym word128 = "128 word"

section \<open>Bytes and words\<close>

text \<open>Big-endian reading of bytes as a number, and a number as \<open>n\<close> bytes.\<close>

definition be_val :: "string \<Rightarrow> nat" where
  "be_val s = foldl (\<lambda>a c. a * 256 + of_char c) 0 s"

fun be_bytes :: "nat \<Rightarrow> nat \<Rightarrow> string" where
  "be_bytes 0 v = []"
| "be_bytes (Suc n) v = be_bytes n (v div 256) @ [char_of v]"

lemma length_be_bytes [simp]: "length (be_bytes n v) = n"
  by (induction n arbitrary: v) auto

function chunks :: "nat \<Rightarrow> 'a list \<Rightarrow> 'a list list" where
  "chunks n xs = (if n = 0 \<or> xs = [] then [] else take n xs # chunks n (drop n xs))"
  by pat_completeness auto
termination
  by (relation "measure (length \<circ> snd)") (auto simp: neq_Nil_conv)

declare chunks.simps [simp del]

definition xor_byte :: "char \<Rightarrow> char \<Rightarrow> char" where
  "xor_byte a b = char_of ((of_char a XOR of_char b) :: nat)"

definition xor_bytes :: "string \<Rightarrow> string \<Rightarrow> string" where
  "xor_bytes s t = map2 xor_byte s t"

lemma take_bit_of_char: "take_bit 8 (of_char c :: nat) = of_char c"
  by (simp add: take_bit_nat_eq_self)

lemma of_char_xor_byte: "(of_char (xor_byte a b) :: nat) = of_char a XOR of_char b"
proof -
  have "(of_char (xor_byte a b) :: nat) = take_bit 8 (of_char a XOR of_char b)"
    by (simp add: xor_byte_def take_bit_eq_mod)
  then show ?thesis by (simp only: take_bit_xor take_bit_of_char)
qed

lemma xor_byte_cancel [simp]: "xor_byte (xor_byte a b) b = a"
  by (simp add: xor_byte_def [of "xor_byte a b"] of_char_xor_byte xor.assoc)

lemma length_xor_bytes [simp]: "length (xor_bytes s t) = min (length s) (length t)"
  by (simp add: xor_bytes_def)

lemma xor_bytes_cancel: "length s \<le> length t \<Longrightarrow> xor_bytes (xor_bytes s t) t = s"
proof (induction s arbitrary: t)
  case Nil
  then show ?case by (simp add: xor_bytes_def)
next
  case (Cons a s)
  then show ?case by (cases t) (auto simp: xor_bytes_def)
qed

section \<open>SHA-256 and HMAC\<close>

text \<open>The 32 bits after the point of the cube roots of the first 64 primes, and of the square roots
  of the first 8.\<close>

definition sha_k :: "word32 list" where
  "sha_k =
   [1116352408, 1899447441, 3049323471, 3921009573, 961987163, 1508970993,
    2453635748, 2870763221, 3624381080, 310598401, 607225278, 1426881987,
    1925078388, 2162078206, 2614888103, 3248222580, 3835390401, 4022224774,
    264347078, 604807628, 770255983, 1249150122, 1555081692, 1996064986,
    2554220882, 2821834349, 2952996808, 3210313671, 3336571891, 3584528711,
    113926993, 338241895, 666307205, 773529912, 1294757372, 1396182291,
    1695183700, 1986661051, 2177026350, 2456956037, 2730485921, 2820302411,
    3259730800, 3345764771, 3516065817, 3600352804, 4094571909, 275423344,
    430227734, 506948616, 659060556, 883997877, 958139571, 1322822218,
    1537002063, 1747873779, 1955562222, 2024104815, 2227730452, 2361852424,
    2428436474, 2756734187, 3204031479, 3329325298]"

definition sha_h0 :: "word32 list" where
  "sha_h0 =
   [1779033703, 3144134277, 1013904242, 2773480762,
    1359893119, 2600822924, 528734635, 1541459225]"

definition rotr :: "nat \<Rightarrow> word32 \<Rightarrow> word32" where
  "rotr n w = (drop_bit n w OR push_bit (32 - n) w)"

definition big_sigma0 :: "word32 \<Rightarrow> word32" where
  "big_sigma0 w = rotr 2 w XOR rotr 13 w XOR rotr 22 w"

definition big_sigma1 :: "word32 \<Rightarrow> word32" where
  "big_sigma1 w = rotr 6 w XOR rotr 11 w XOR rotr 25 w"

definition small_sigma0 :: "word32 \<Rightarrow> word32" where
  "small_sigma0 w = rotr 7 w XOR rotr 18 w XOR drop_bit 3 w"

definition small_sigma1 :: "word32 \<Rightarrow> word32" where
  "small_sigma1 w = rotr 17 w XOR rotr 19 w XOR drop_bit 10 w"

definition sha_ch :: "word32 \<Rightarrow> word32 \<Rightarrow> word32 \<Rightarrow> word32" where
  "sha_ch x y z = (x AND y) XOR (NOT x AND z)"

definition sha_maj :: "word32 \<Rightarrow> word32 \<Rightarrow> word32 \<Rightarrow> word32" where
  "sha_maj x y z = (x AND y) XOR (x AND z) XOR (y AND z)"

text \<open>The message schedule: 48 more words after the 16 of the block.\<close>

fun extend :: "nat \<Rightarrow> word32 list \<Rightarrow> word32 list" where
  "extend 0 ws = ws"
| "extend (Suc n) ws =
     (let t = length ws in
      extend n (ws @ [small_sigma1 (ws ! (t - 2)) + ws ! (t - 7)
                        + small_sigma0 (ws ! (t - 15)) + ws ! (t - 16)]))"

fun sha_round :: "word32 list \<Rightarrow> word32 \<times> word32 \<Rightarrow> word32 list" where
  "sha_round [a, b, c, d, e, f, g, h] (k, w) =
     (let t1 = h + big_sigma1 e + sha_ch e f g + k + w;
          t2 = big_sigma0 a + sha_maj a b c
      in [t1 + t2, a, b, c, d + t1, e, f, g])"
| "sha_round st _ = st"

definition sha_block :: "word32 list \<Rightarrow> string \<Rightarrow> word32 list" where
  "sha_block st block =
     (let ws = extend 48 (map (\<lambda>s. of_nat (be_val s)) (chunks 4 block))
      in map2 (+) st (foldl sha_round st (zip sha_k ws)))"

definition sha_pad :: "string \<Rightarrow> string" where
  "sha_pad s =
     s @ CHR 0x80 # replicate ((119 - length s mod 64) mod 64) (CHR 0x00)
       @ be_bytes 8 (length s * 8)"

definition sha256 :: "string \<Rightarrow> string" where
  "sha256 s =
     concat (map (\<lambda>w. be_bytes 4 (unat w)) (foldl sha_block sha_h0 (chunks 64 (sha_pad s))))"

definition hmac_key :: "string \<Rightarrow> string" where
  "hmac_key k =
     (let k' = (if 64 < length k then sha256 k else k)
      in k' @ replicate (64 - length k') (CHR 0x00))"

definition hmac_sha256 :: "string \<Rightarrow> string \<Rightarrow> string" where
  "hmac_sha256 k s =
     (let k' = hmac_key k in
      sha256 (xor_bytes k' (replicate 64 (CHR 0x5C)) @
        sha256 (xor_bytes k' (replicate 64 (CHR 0x36)) @ s)))"

section \<open>AES\<close>

text \<open>A block is 16 bytes, column by column, as in FIPS 197; bytes are numbers below 256 here.\<close>

definition sbox :: "nat list" where
  "sbox =
   [0x63, 0x7c, 0x77, 0x7b, 0xf2, 0x6b, 0x6f, 0xc5, 0x30, 0x01, 0x67, 0x2b, 0xfe, 0xd7,
    0xab, 0x76, 0xca, 0x82, 0xc9, 0x7d, 0xfa, 0x59, 0x47, 0xf0, 0xad, 0xd4, 0xa2, 0xaf,
    0x9c, 0xa4, 0x72, 0xc0, 0xb7, 0xfd, 0x93, 0x26, 0x36, 0x3f, 0xf7, 0xcc, 0x34, 0xa5,
    0xe5, 0xf1, 0x71, 0xd8, 0x31, 0x15, 0x04, 0xc7, 0x23, 0xc3, 0x18, 0x96, 0x05, 0x9a,
    0x07, 0x12, 0x80, 0xe2, 0xeb, 0x27, 0xb2, 0x75, 0x09, 0x83, 0x2c, 0x1a, 0x1b, 0x6e,
    0x5a, 0xa0, 0x52, 0x3b, 0xd6, 0xb3, 0x29, 0xe3, 0x2f, 0x84, 0x53, 0xd1, 0x00, 0xed,
    0x20, 0xfc, 0xb1, 0x5b, 0x6a, 0xcb, 0xbe, 0x39, 0x4a, 0x4c, 0x58, 0xcf, 0xd0, 0xef,
    0xaa, 0xfb, 0x43, 0x4d, 0x33, 0x85, 0x45, 0xf9, 0x02, 0x7f, 0x50, 0x3c, 0x9f, 0xa8,
    0x51, 0xa3, 0x40, 0x8f, 0x92, 0x9d, 0x38, 0xf5, 0xbc, 0xb6, 0xda, 0x21, 0x10, 0xff,
    0xf3, 0xd2, 0xcd, 0x0c, 0x13, 0xec, 0x5f, 0x97, 0x44, 0x17, 0xc4, 0xa7, 0x7e, 0x3d,
    0x64, 0x5d, 0x19, 0x73, 0x60, 0x81, 0x4f, 0xdc, 0x22, 0x2a, 0x90, 0x88, 0x46, 0xee,
    0xb8, 0x14, 0xde, 0x5e, 0x0b, 0xdb, 0xe0, 0x32, 0x3a, 0x0a, 0x49, 0x06, 0x24, 0x5c,
    0xc2, 0xd3, 0xac, 0x62, 0x91, 0x95, 0xe4, 0x79, 0xe7, 0xc8, 0x37, 0x6d, 0x8d, 0xd5,
    0x4e, 0xa9, 0x6c, 0x56, 0xf4, 0xea, 0x65, 0x7a, 0xae, 0x08, 0xba, 0x78, 0x25, 0x2e,
    0x1c, 0xa6, 0xb4, 0xc6, 0xe8, 0xdd, 0x74, 0x1f, 0x4b, 0xbd, 0x8b, 0x8a, 0x70, 0x3e,
    0xb5, 0x66, 0x48, 0x03, 0xf6, 0x0e, 0x61, 0x35, 0x57, 0xb9, 0x86, 0xc1, 0x1d, 0x9e,
    0xe1, 0xf8, 0x98, 0x11, 0x69, 0xd9, 0x8e, 0x94, 0x9b, 0x1e, 0x87, 0xe9, 0xce, 0x55,
    0x28, 0xdf, 0x8c, 0xa1, 0x89, 0x0d, 0xbf, 0xe6, 0x42, 0x68, 0x41, 0x99, 0x2d, 0x0f,
    0xb0, 0x54, 0xbb, 0x16]"

definition sub_byte :: "nat \<Rightarrow> nat" where
  "sub_byte b = sbox ! b"

definition xtime :: "nat \<Rightarrow> nat" where
  "xtime b = (if b < 128 then 2 * b else (2 * b - 256) XOR 0x1b)"

definition shift_rows :: "nat list \<Rightarrow> nat list" where
  "shift_rows b = map (\<lambda>i. b ! ((i + 4 * (i mod 4)) mod 16)) [0..<16]"

fun mix_column :: "nat list \<Rightarrow> nat list" where
  "mix_column [a, b, c, d] =
     [xtime a XOR (xtime b XOR b) XOR c XOR d,
      a XOR xtime b XOR (xtime c XOR c) XOR d,
      a XOR b XOR xtime c XOR (xtime d XOR d),
      (xtime a XOR a) XOR b XOR c XOR xtime d]"
| "mix_column col = col"

definition mix_columns :: "nat list \<Rightarrow> nat list" where
  "mix_columns b = concat (map mix_column (chunks 4 b))"

definition add_key :: "nat list \<Rightarrow> nat list \<Rightarrow> nat list" where
  "add_key k b = map2 (XOR) b k"

text \<open>The key schedule: with \<open>nk\<close> words of four bytes in the key (4, 6 or 8), \<open>nk + 6\<close> rounds
  and one more key than rounds.\<close>

definition rcon :: "nat list" where
  "rcon = [0x01, 0x02, 0x04, 0x08, 0x10, 0x20, 0x40, 0x80, 0x1b, 0x36]"

fun expand :: "nat \<Rightarrow> nat \<Rightarrow> nat list list \<Rightarrow> nat list list" where
  "expand nk 0 ws = ws"
| "expand nk (Suc n) ws =
     (let i = length ws;
          t = ws ! (i - 1);
          t' = (if i mod nk = 0
                then map2 (XOR) (map sub_byte (rotate1 t)) [rcon ! (i div nk - 1), 0, 0, 0]
                else if 6 < nk \<and> i mod nk = 4 then map sub_byte t else t)
      in expand nk n (ws @ [map2 (XOR) (ws ! (i - nk)) t']))"

definition round_keys :: "string \<Rightarrow> nat list list" where
  "round_keys key =
     (let nk = length key div 4
      in map concat (chunks 4 (expand nk (3 * nk + 28) (chunks 4 (map of_char key)))))"

definition aes_round :: "nat list \<Rightarrow> nat list \<Rightarrow> nat list" where
  "aes_round b k = add_key k (mix_columns (shift_rows (map sub_byte b)))"

definition aes_block :: "string \<Rightarrow> string \<Rightarrow> string" where
  "aes_block key block =
     (let ks = round_keys key;
          rounds = length key div 4 + 6;
          b0 = add_key (ks ! 0) (map of_char block);
          b = foldl aes_round b0 (take (rounds - 1) (drop 1 ks))
      in map char_of (add_key (ks ! rounds) (shift_rows (map sub_byte b))))"

text \<open>\<open>aes.NewCipher\<close>: the cipher of a key of 16, 24 or 32 bytes, else a \<open>KeySizeError\<close>.\<close>

definition new_cipher :: "string \<Rightarrow> (string \<Rightarrow> string) res" where
  "new_cipher key =
     (if length key = 16 \<or> length key = 24 \<or> length key = 32 then Inr (aes_block key)
      else Inl (ErrMsg (''crypto/aes: invalid key size '' @ dec_nat (length key))))"

section \<open>GCM\<close>

text \<open>The mode over any block cipher \<open>E\<close>, with a 12-byte nonce and no additional data.\<close>

fun gf_loop :: "nat \<Rightarrow> word128 \<Rightarrow> word128 \<Rightarrow> word128 \<Rightarrow> word128" where
  "gf_loop 0 x v z = z"
| "gf_loop (Suc n) x v z =
     gf_loop n x (if bit v 0 then drop_bit 1 v XOR push_bit 120 0xe1 else drop_bit 1 v)
       (if bit x n then z XOR v else z)"

definition gf_mult :: "word128 \<Rightarrow> word128 \<Rightarrow> word128" where
  "gf_mult x y = gf_loop 128 x y 0"

definition zero_pad :: "string \<Rightarrow> string" where
  "zero_pad s = s @ replicate ((16 - length s mod 16) mod 16) (CHR 0x00)"

definition ghash :: "word128 \<Rightarrow> string \<Rightarrow> word128" where
  "ghash h s = foldl (\<lambda>y b. gf_mult (y XOR of_nat (be_val b)) h) 0 (chunks 16 s)"

text \<open>The key stream: the cipher on the counter blocks 2, 3, ...\<close>

fun key_stream :: "(string \<Rightarrow> string) \<Rightarrow> string \<Rightarrow> nat \<Rightarrow> nat \<Rightarrow> string" where
  "key_stream E nonce ctr 0 = []"
| "key_stream E nonce ctr (Suc n) =
     take 16 (E (nonce @ be_bytes 4 ctr) @ replicate 16 (CHR 0x00))
       @ key_stream E nonce (Suc ctr) n"

definition gcm_ctr :: "(string \<Rightarrow> string) \<Rightarrow> string \<Rightarrow> string \<Rightarrow> string" where
  "gcm_ctr E nonce s = xor_bytes s (key_stream E nonce 2 ((length s + 15) div 16))"

definition gcm_tag :: "(string \<Rightarrow> string) \<Rightarrow> string \<Rightarrow> string \<Rightarrow> string" where
  "gcm_tag E nonce ct =
     (let h = of_nat (be_val (E (replicate 16 (CHR 0x00))));
          s = ghash h (zero_pad ct @ be_bytes 8 0 @ be_bytes 8 (length ct * 8))
      in xor_bytes (be_bytes 16 (unat s))
           (take 16 (E (nonce @ be_bytes 4 1) @ replicate 16 (CHR 0x00))))"

text \<open>\<open>gcm.Seal(nonce, nonce, plaintext, nil)\<close> appends the text and the tag to the nonce;
  \<open>gcm_seal\<close> is what it appends.  \<open>gcm_open\<close> is \<open>gcm.Open(nil, nonce, text, nil)\<close>.\<close>

definition gcm_seal :: "(string \<Rightarrow> string) \<Rightarrow> string \<Rightarrow> string \<Rightarrow> string" where
  "gcm_seal E nonce pt = (let ct = gcm_ctr E nonce pt in ct @ gcm_tag E nonce ct)"

definition gcm_open :: "(string \<Rightarrow> string) \<Rightarrow> string \<Rightarrow> string \<Rightarrow> string option" where
  "gcm_open E nonce text =
     (if length text < 16 then None
      else let ct = take (length text - 16) text; tag = drop (length text - 16) text in
           if tag = gcm_tag E nonce ct then Some (gcm_ctr E nonce ct) else None)"

lemma length_gcm_tag [simp]: "length (gcm_tag E nonce ct) = 16"
  by (simp add: gcm_tag_def Let_def)

lemma length_key_stream [simp]: "length (key_stream E nonce ctr n) = 16 * n"
  by (induction n arbitrary: ctr) auto

lemma key_stream_enough: "n \<le> 16 * ((n + 15) div 16)" for n :: nat
  by linarith

lemma length_gcm_ctr [simp]: "length (gcm_ctr E nonce s) = length s"
  using key_stream_enough [of "length s"] by (simp add: gcm_ctr_def)

lemma gcm_ctr_involution [simp]: "gcm_ctr E nonce (gcm_ctr E nonce s) = s"
proof -
  have "length (gcm_ctr E nonce s) = length s" by simp
  then show ?thesis
    using xor_bytes_cancel [of s "key_stream E nonce 2 ((length s + 15) div 16)"]
      key_stream_enough [of "length s"]
    by (simp add: gcm_ctr_def)
qed

lemma gcm_open_seal: "gcm_open E nonce (gcm_seal E nonce pt) = Some pt"
  by (simp add: gcm_open_def gcm_seal_def Let_def)

text \<open>Only what \<open>Seal\<close> makes is accepted.\<close>

lemma gcm_open_Some: "gcm_open E nonce text = Some pt \<Longrightarrow> text = gcm_seal E nonce pt"
  by (auto simp: gcm_open_def gcm_seal_def Let_def split: if_splits)
    (metis append_take_drop_id)

lemma gcm_seal_inject: "gcm_seal E nonce p = gcm_seal E nonce q \<longleftrightarrow> p = q"
  by (metis gcm_open_seal option.inject)

lemma length_gcm_seal [simp]: "length (gcm_seal E nonce pt) = length pt + 16"
  by (simp add: gcm_seal_def Let_def)

end
