(* ===== verification/Go_Moment.thy ===== *)
theory Go_Moment
  imports Go_Time
begin

text \<open>
  Points in time with a zone, as \<open>time.Now()\<close> gives them and as JSON holds them: the nanoseconds since
  the epoch and the offset of the zone in seconds.  \<open>Time.MarshalJSON\<close> writes RFC 3339, and
  \<open>Time.UnmarshalJSON\<close> reads it.
\<close>

type_synonym go_moment = "int \<times> int"

definition offset_text :: "int \<Rightarrow> string" where
  "offset_text off =
     (if off = 0 then ''Z''
      else let zone = \<bar>off\<bar> div 60 in
        (if off \<le> - 60 then ''-'' else ''+'') @ pad_int 2 (zone div 60) @ CHR '':'' # pad_int 2 (zone mod 60))"

definition moment_text :: "go_moment \<Rightarrow> string res" where
  "moment_text m =
     (case m of (t, off) \<Rightarrow>
        let secs = t div 1000000000 + off in
        if \<not> year_ok secs then Inl (ErrMsg ''Time.MarshalJSON: year outside of range [0,9999]'')
        else if 24 * 3600 \<le> \<bar>off\<bar> then Inl (ErrMsg ''Time.MarshalJSON: timezone hour outside of range [0,23]'')
        else (case civil secs of (y, mo, d, h, mi, s) \<Rightarrow>
          Inr (pad_int 4 y @ CHR ''-'' # pad_int 2 mo @ CHR ''-'' # pad_int 2 d @ CHR ''T'' # pad_int 2 h @
            CHR '':'' # pad_int 2 mi @ CHR '':'' # pad_int 2 s @ fraction_text (t mod 1000000000) @ offset_text off)))"

section \<open>Reading\<close>

text \<open>A number of digits within bounds.\<close>

definition num_in :: "string \<Rightarrow> int \<Rightarrow> int \<Rightarrow> int option" where
  "num_in ds lo hi =
     (if ds \<noteq> [] \<and> list_all is_digit ds \<and> lo \<le> int (dec_val ds) \<and> int (dec_val ds) \<le> hi
      then Some (int (dec_val ds)) else None)"

definition sub_text :: "string \<Rightarrow> nat \<Rightarrow> nat \<Rightarrow> string" where
  "sub_text s i n = take n (drop i s)"

definition parse_date :: "string \<Rightarrow> int option" where
  "parse_date s =
     (if length s < 10 \<or> s ! 4 \<noteq> CHR ''-'' \<or> s ! 7 \<noteq> CHR ''-'' then None
      else case (num_in (sub_text s 0 4) 0 9999, num_in (sub_text s 5 2) 1 12) of
             (Some y, Some mo) \<Rightarrow>
               let ls = month_lengths (leap y) in
               map_option (\<lambda>d. days_before (y - 1) + sum_list (take (nat mo - 1) ls) + d - 1 - 719162)
                 (num_in (sub_text s 8 2) 1 (ls ! (nat mo - 1)))
           | _ \<Rightarrow> None)"

definition parse_clock :: "string \<Rightarrow> int option" where
  "parse_clock s =
     (if length s < 9 \<or> s ! 0 \<noteq> CHR ''T'' \<or> s ! 3 \<noteq> CHR '':'' \<or> s ! 6 \<noteq> CHR '':'' then None
      else case (num_in (sub_text s 1 2) 0 23, num_in (sub_text s 4 2) 0 59, num_in (sub_text s 7 2) 0 59) of
             (Some h, Some mi, Some sec) \<Rightarrow> Some (3600 * h + 60 * mi + sec)
           | _ \<Rightarrow> None)"

text \<open>The fraction, of which nine digits count, and what follows it.\<close>

definition parse_fraction :: "string \<Rightarrow> int \<times> string" where
  "parse_fraction s =
     (case s of
        c # d # r \<Rightarrow>
          if c = CHR ''.'' \<and> is_digit d then
            let ds = takeWhile is_digit (d # r)
            in (int (dec_val (take 9 (ds @ replicate 9 (CHR ''0'')))), dropWhile is_digit (d # r))
          else (0, s)
      | _ \<Rightarrow> (0, s))"

definition parse_offset :: "string \<Rightarrow> int option" where
  "parse_offset s =
     (if s = ''Z'' then Some 0
      else if length s \<noteq> 6 \<or> (s ! 0 \<noteq> CHR ''+'' \<and> s ! 0 \<noteq> CHR ''-'') \<or> s ! 3 \<noteq> CHR '':'' then None
      else case (num_in (sub_text s 1 2) 0 23, num_in (sub_text s 4 2) 0 59) of
             (Some h, Some mi) \<Rightarrow> Some ((if s ! 0 = CHR ''-'' then - 1 else 1) * (3600 * h + 60 * mi))
           | _ \<Rightarrow> None)"

definition parse_moment :: "string \<Rightarrow> go_moment option" where
  "parse_moment s =
     (case (parse_date (take 10 s), parse_clock (take 9 (drop 10 s))) of
        (Some day, Some clock) \<Rightarrow>
          (case parse_fraction (drop 19 s) of (ns, r) \<Rightarrow>
             map_option (\<lambda>off. ((86400 * day + clock - off) * 1000000000 + ns, off)) (parse_offset r))
      | _ \<Rightarrow> None)"

text \<open>The zero time.\<close>

definition zero_moment :: go_moment where
  "zero_moment = (- 62135596800000000000, 0)"

lemma zero_moment_text: "moment_text zero_moment = Inr ''0001-01-01T00:00:00Z''"
  by code_simp

lemma zero_moment_read: "parse_moment ''0001-01-01T00:00:00Z'' = Some zero_moment"
  by code_simp

end
