(* ===== verification/Cli_Integrator.thy ===== *)
theory Cli_Integrator
  imports Cli_Parser Go_Crypto Go_Moment
begin

text \<open>
  Bundles and the manifest: \<open>packages/cli/internal/engine/integrator/integrator.go\<close>.  A value in
  \<open>Config\<close> is \<open>'y go_any\<close>, and a nil map or slice is \<open>None\<close>.  The two functions that make bundles return no error.
\<close>

record 'y Bundle =
  BType :: string
  BNamespace :: string
  BName :: string
  Content :: "string option"
  Hash :: string
  BConfig :: "(string, 'y go_any) gomap option"
  CreatedAt :: go_moment

record 'y Manifest =
  Version :: string
  ProjectID :: string
  Bundles :: "'y Bundle list option"
  MCreatedAt :: go_moment

definition slice_bytes :: "string option \<Rightarrow> string" where
  "slice_bytes c = (case c of None \<Rightarrow> [] | Some s \<Rightarrow> s)"

definition bundle_list :: "'y Manifest \<Rightarrow> 'y Bundle list" where
  "bundle_list m = (case Bundles m of None \<Rightarrow> [] | Some bs \<Rightarrow> bs)"

definition param_value :: "'y Param \<Rightarrow> 'y go_any" where
  "param_value v =
     AnyMap [(''type'', AnyStr (PType v)), (''required'', AnyBool (Required v)), (''default'', Default v)]"

definition logic_bundle_config :: "'y LogicConfig \<Rightarrow> (string, 'y go_any) gomap" where
  "logic_bundle_config config =
     [(''target'', AnyStr (Target config)), (''access'', AnyStr (Access config)), (''cache'', AnyStr (Cache config))] @
     (case Params config of
        None \<Rightarrow> []
      | Some ps \<Rightarrow> [(''params'', AnyMap (map (\<lambda>(k, v). (k, param_value v)) ps))])"

definition BundleLogic :: "'y LogicConfig \<Rightarrow> go_moment \<Rightarrow> 'y Bundle" where
  "BundleLogic config now =
     (let (content, bundleType) =
            (if SQL config \<noteq> [] then (Some (SQL config), ''sql'')
             else if JS config \<noteq> [] then (Some (JS config), ''js'')
             else (None, []))
      in \<lparr>BType = bundleType, BNamespace = CNamespace config, BName = CName config, Content = content,
          Hash = hex_encode (sha256 (slice_bytes content)), BConfig = Some (logic_bundle_config config), CreatedAt = now\<rparr>)"

definition BundleSchema :: "SchemaConfig \<Rightarrow> go_moment \<Rightarrow> 'y Bundle" where
  "BundleSchema config now =
     \<lparr>BType = ''schema'', BNamespace = ''schema'', BName = SAlias config, Content = Some (Raw config),
      Hash = hex_encode (sha256 (Raw config)), BConfig = None, CreatedAt = now\<rparr>"

definition CreateManifest :: "string \<Rightarrow> 'y Bundle list option \<Rightarrow> go_moment \<Rightarrow> go_moment \<Rightarrow> 'y Manifest" where
  "CreateManifest projectID bundles now now' =
     \<lparr>Version = ''v-'' @ dec_int (fst now), ProjectID = projectID, Bundles = bundles, MCreatedAt = now'\<rparr>"

text \<open>A valid configuration gives a bundle whose content is the code that is not blank, unless the
  other field holds white space: an SQL of spaces hides the JavaScript.\<close>

lemma BundleLogic_fields [simp]:
  "BNamespace (BundleLogic c now) = CNamespace c" "BName (BundleLogic c now) = CName c"
  "CreatedAt (BundleLogic c now) = now"
  by (simp_all add: BundleLogic_def Let_def split_beta)

end
