(* ===== verification/Go_Json_Write.thy ===== *)
theory Go_Json_Write
  imports Go_Json
begin

text \<open>
  \<open>json.Marshal\<close> of the values that \<open>interface{}\<close> holds: objects with their keys in order, arrays,
  strings, and float64 numbers, which are written with the fewest digits that read back as the
  same number (\<open>strconv.FormatFloat(f, 'f' or 'e', -1, 64)\<close>).
\<close>

section \<open>Numbers\<close>

definition float_ratio :: "nat \<times> int \<Rightarrow> nat \<times> nat" where
  "float_ratio f = (case f of (q, k) \<Rightarrow> if 0 \<le> k then (q * 2 ^ nat k, 1) else (q, 2 ^ nat (- k)))"

definition same_float :: "nat \<times> int \<Rightarrow> nat \<times> int \<Rightarrow> bool" where
  "same_float f g =
     (case (float_ratio f, float_ratio g) of ((a, b), (c, d)) \<Rightarrow> a * d = c * b)"

text \<open>The exponent \<open>e\<close> with \<open>10 ^ (e - 1) \<le> num / den < 10 ^ e\<close>.  The least float64 above 0 is
  above \<open>10 ^ -324\<close>, so 330 steps are enough.\<close>

fun lead_zeros :: "nat \<Rightarrow> nat \<Rightarrow> nat \<Rightarrow> nat" where
  "lead_zeros 0 num den = 0"
| "lead_zeros (Suc fuel) num den =
     (if den \<le> num * 10 then 0 else Suc (lead_zeros fuel (num * 10) den))"

definition dec_exp :: "nat \<Rightarrow> nat \<Rightarrow> int" where
  "dec_exp num den =
     (if den \<le> num then int (length (dec_nat (num div den)))
      else - int (lead_zeros 330 num den))"

text \<open>The decimals of \<open>n\<close> digits next to the number, the nearer one first, that read back as it.\<close>

definition candidates :: "nat \<times> int \<Rightarrow> nat \<Rightarrow> (nat \<times> int) list" where
  "candidates f n =
     (case float_ratio f of (num, den) \<Rightarrow>
        let x = dec_exp num den - int n;
            (a, b) = (if 0 \<le> x then (num, den * 10 ^ nat x) else (num * 10 ^ nat (- x), den));
            lo = a div b;
            near = (if round_even (a, b) = lo then [lo, Suc lo] else [Suc lo, lo])
        in map (\<lambda>m. (m, x))
             (filter (\<lambda>m. case to_float m x of Some g \<Rightarrow> same_float f g | None \<Rightarrow> False) near))"

fun first_found :: "(nat \<Rightarrow> 'a list) \<Rightarrow> nat list \<Rightarrow> 'a option" where
  "first_found g [] = None"
| "first_found g (n # ns) = (case g n of x # _ \<Rightarrow> Some x | [] \<Rightarrow> first_found g ns)"

definition shortest :: "nat \<times> int \<Rightarrow> nat \<times> int" where
  "shortest f = (case first_found (candidates f) [1..<18] of Some d \<Rightarrow> d | None \<Rightarrow> (0, 0))"

definition strip_zeros :: "string \<Rightarrow> string" where
  "strip_zeros ds = rev (dropWhile (\<lambda>c. c = CHR ''0'') (rev ds))"

text \<open>Digits \<open>ds\<close> after the point, times \<open>10 ^ dp\<close>.\<close>

definition fmt_f :: "string \<Rightarrow> int \<Rightarrow> string" where
  "fmt_f ds dp =
     (let n = nat dp in
      (if 0 < dp then take n ds @ replicate (n - length ds) (CHR ''0'') else ''0'') @
      (if int (length ds) > dp then CHR ''.'' # replicate (nat (- dp)) (CHR ''0'') @ drop n ds else []))"

definition fmt_e :: "string \<Rightarrow> int \<Rightarrow> string" where
  "fmt_e ds dp =
     (let e = dp - 1; es = dec_nat (nat \<bar>e\<bar>) in
      take 1 ds @ (if 1 < length ds then CHR ''.'' # drop 1 ds else []) @
      (if e < 0 then ''e-'' @ es else ''e+'' @ (if length es < 2 then CHR ''0'' # es else es)))"

definition float_text :: "bool \<Rightarrow> nat \<times> int \<Rightarrow> string" where
  "float_text neg f =
     (if neg then ''-'' else []) @
     (if fst f = 0 then ''0''
      else (case shortest f of (m, x) \<Rightarrow>
              let ds = strip_zeros (dec_nat m); dp = int (length (dec_nat m)) + x
              in (if dp \<le> - 6 \<or> 22 \<le> dp then fmt_e ds dp else fmt_f ds dp)))"

section \<open>Values\<close>

fun json_text :: "json \<Rightarrow> string" where
  "json_text JNull = ''null''"
| "json_text (JBool b) = (if b then ''true'' else ''false'')"
| "json_text (JNum neg f) = float_text neg f"
| "json_text (JStr s) = json_quote s"
| "json_text (JArr vs) = CHR ''['' # join_with '','' (map json_text vs) @ '']''"
| "json_text (JObj ms) =
     CHR ''{'' # join_with '','' (map (\<lambda>(k, t). json_quote k @ CHR '':'' # t)
       (sort_key fst (map (\<lambda>(k, v). (k, json_text v)) ms))) @ ''}''"

end
