(* ===== verification/Go_Json_Struct.thy ===== *)
theory Go_Json_Struct
  imports Go_Json_Write Go_Base64
begin

text \<open>
  Structs and JSON: \<open>json.Marshal\<close> and \<open>json.MarshalIndent\<close> of values whose members are already in the
  order in which they are written (the fields of a struct as declared, the keys of a map sorted),
  and the decoding of an object into the fields of a struct.
\<close>

section \<open>Printing\<close>

text \<open>
  \<open>ws d\<close> is the text between the parts of a value at depth \<open>d\<close>, and \<open>gap\<close> what follows a colon:
  both empty for \<open>Marshal\<close>, a line break with two spaces for each level, and one space, for
  \<open>MarshalIndent(v, "", "  ")\<close>.
\<close>

fun json_print :: "(nat \<Rightarrow> string) \<Rightarrow> string \<Rightarrow> nat \<Rightarrow> json \<Rightarrow> string" where
  "json_print ws gap d JNull = ''null''"
| "json_print ws gap d (JBool b) = (if b then ''true'' else ''false'')"
| "json_print ws gap d (JNum neg f) = float_text neg f"
| "json_print ws gap d (JStr s) = json_quote s"
| "json_print ws gap d (JArr vs) =
     (if vs = [] then ''[]''
      else CHR ''['' # ws (Suc d) @ join_with (CHR '','' # ws (Suc d)) (map (json_print ws gap (Suc d)) vs) @ ws d @ '']'')"
| "json_print ws gap d (JObj ms) =
     (if ms = [] then ''{}''
      else CHR ''{'' # ws (Suc d) @
        join_with (CHR '','' # ws (Suc d)) (map (\<lambda>(k, v). json_quote k @ CHR '':'' # gap @ json_print ws gap (Suc d) v) ms) @
        ws d @ ''}'')"

definition json_compact :: "json \<Rightarrow> string" where
  "json_compact j = json_print (\<lambda>_. []) [] 0 j"

definition json_indented :: "json \<Rightarrow> string" where
  "json_indented j = json_print (\<lambda>d. CHR 0x0A # replicate (2 * d) (CHR '' '')) '' '' 0 j"

text \<open>A value with the keys of its maps sorted.\<close>

definition sorted_obj :: "(string \<times> json) list \<Rightarrow> json" where
  "sorted_obj ms = JObj (sort_key fst ms)"

section \<open>Reading what was printed\<close>

text \<open>Values without numbers, as they are read back.\<close>

fun plain_json :: "json \<Rightarrow> bool" where
  "plain_json (JNum neg f) = False"
| "plain_json (JArr vs) = list_all plain_json vs"
| "plain_json (JObj ms) = list_all (\<lambda>(k, v). plain_json v) ms"
| "plain_json j = True"

fun raw_of :: "json \<Rightarrow> jraw" where
  "raw_of JNull = RNull"
| "raw_of (JBool b) = RBool b"
| "raw_of (JNum neg f) = RNull"
| "raw_of (JStr s) = RStr (to_valid s)"
| "raw_of (JArr vs) = RArr (map raw_of vs)"
| "raw_of (JObj ms) = RObj (map (\<lambda>(k, v). (to_valid k, raw_of v)) ms)"

fun json_depth :: "json \<Rightarrow> nat" where
  "json_depth (JArr vs) = Suc (foldr (max \<circ> json_depth) vs 0)"
| "json_depth (JObj ms) = Suc (foldr (\<lambda>(k, v). max (json_depth v)) ms 0)"
| "json_depth j = 0"

fun sep_toks :: "jtok list list \<Rightarrow> jtok list" where
  "sep_toks [] = []"
| "sep_toks [x] = x"
| "sep_toks (x # y # zs) = x @ TComma # sep_toks (y # zs)"

fun toks :: "json \<Rightarrow> jtok list" where
  "toks JNull = [TNull]"
| "toks (JBool b) = [if b then TTrue else TFalse]"
| "toks (JNum neg f) = []"
| "toks (JStr s) = [TStr (to_valid s)]"
| "toks (JArr vs) = TArr # sep_toks (map toks vs) @ [TArrEnd]"
| "toks (JObj ms) = TObj # sep_toks (map (\<lambda>(k, v). TStr (to_valid k) # TColon # toks v) ms) @ [TObjEnd]"

definition space_text :: "string \<Rightarrow> bool" where
  "space_text s \<longleftrightarrow> (\<forall>c \<in> set s. json_space c)"

lemma json_lex_spaces: "space_text u \<Longrightarrow> json_lex (u @ s) = json_lex s"
  by (induction u) (simp_all add: space_text_def json_lex.simps(2))

lemma punct_more [simp]: "punct (CHR ''['') = Some TArr" "punct (CHR '']'') = Some TArrEnd"
  by (simp_all add: punct_def)

lemma json_lex_word:
  "json_lex (''true'' @ s) = map_option (\<lambda>ts. TTrue # ts) (json_lex s)"
  "json_lex (''false'' @ s) = map_option (\<lambda>ts. TFalse # ts) (json_lex s)"
  "json_lex (''null'' @ s) = map_option (\<lambda>ts. TNull # ts) (json_lex s)"
  by (simp_all add: json_lex.simps(2) lex_tok_def json_space_def punct_def json_chars is_digit_def)

lemma prefix_fun: "map_option ((@) []) x = x" "map_option ((@) [t]) x = map_option ((#) t) x"
  by (cases x; simp)+

lemma json_lex_join:
  assumes "\<And>x s. x \<in> set xs \<Longrightarrow> json_lex (f x @ s) = map_option (\<lambda>ts. g x @ ts) (json_lex s)"
    and "space_text u"
  shows "json_lex (join_with (CHR '','' # u) (map f xs) @ s) = map_option (\<lambda>ts. sep_toks (map g xs) @ ts) (json_lex s)"
  using assms(1)
proof (induction xs rule: induct_list012)
  case (3 x y zs)
  from "3.IH"(2) [OF "3.prems"] have "json_lex (join_with (CHR '','' # u) (map f (y # zs)) @ s) =
      map_option (\<lambda>ts. sep_toks (map g (y # zs)) @ ts) (json_lex s)" by simp
  with "3.prems" [of x] show ?case
    by (simp add: json_lex_punct json_lex_spaces [OF assms(2)] option.map_comp comp_def)
qed (simp_all add: prefix_fun)

lemma json_lex_print:
  assumes ws: "\<And>d. space_text (ws d)" and gap: "space_text gap"
  shows "plain_json j \<Longrightarrow> json_lex (json_print ws gap d j @ s) = map_option (\<lambda>ts. toks j @ ts) (json_lex s)"
proof (induction j arbitrary: d s)
  case (JArr vs)
  have "json_lex (json_print ws gap (Suc d) v @ s) = map_option (\<lambda>ts. toks v @ ts) (json_lex s)" if "v \<in> set vs" for v s
    using JArr.IH [OF that] JArr.prems that by (simp add: list_all_iff)
  note vs = json_lex_join [OF this ws [of "Suc d"]]
  show ?case
    by (simp add: json_lex_punct json_lex_spaces ws vs option.map_comp comp_def)
next
  case (JObj ms)
  have "json_lex ((case m of (k, v) \<Rightarrow> json_quote k @ CHR '':'' # gap @ json_print ws gap (Suc d) v) @ s) =
      map_option (\<lambda>ts. (case m of (k, v) \<Rightarrow> TStr (to_valid k) # TColon # toks v) @ ts) (json_lex s)"
    if "m \<in> set ms" for m s
  proof (cases m)
    case (Pair k v)
    with that JObj.prems have "plain_json v" by (auto simp: list_all_iff)
    then show ?thesis
      using JObj.IH [of m v] that Pair
      by (simp add: json_lex_quote json_lex_punct json_lex_spaces gap option.map_comp comp_def)
  qed
  note ms = json_lex_join [OF this ws [of "Suc d"]]
  show ?case
    by (simp add: json_lex_punct json_lex_spaces ws ms option.map_comp comp_def)
qed (auto simp: json_lex_word [simplified] json_lex_quote prefix_fun)


text \<open>The machine reads the tokens of a value back into it, wherever it stands.\<close>

lemma jrun_members_any:
  assumes "\<And>k v fs ts. (k, v) \<in> set ms \<Longrightarrow> length fs + depth \<le> max_nesting \<Longrightarrow>
      jrun (Want, fs) (toks v @ ts) = jrun (After (raw_of v), fs) ts"
    and "length fs + depth < max_nesting" and "ms \<noteq> []"
  shows "jrun (Key acc, fs) (sep_toks (map (\<lambda>(k, v). TStr (to_valid k) # TColon # toks v) ms) @ TObjEnd # ts) =
    jrun (After (RObj (acc @ map (\<lambda>(k, v). (to_valid k, raw_of v)) ms)), fs) ts"
  using assms(1,3)
proof (induction ms arbitrary: acc rule: induct_list012)
  case (2 m)
  then show ?case using assms(2) by (cases m) (simp add: after_step_def)
next
  case (3 m m' ms)
  obtain k v where m: "m = (k, v)" by (cases m)
  have "jrun (Want, FObj acc (to_valid k) # fs) (toks v @ us) = jrun (After (raw_of v), FObj acc (to_valid k) # fs) us" for us
    using "3.prems"(1) [of k v "FObj acc (to_valid k) # fs"] assms(2) by (simp add: m)
  moreover have "jrun (Key (acc @ [(to_valid k, raw_of v)]), fs)
      (sep_toks (map (\<lambda>(k, v). TStr (to_valid k) # TColon # toks v) (m' # ms)) @ TObjEnd # ts) =
    jrun (After (RObj ((acc @ [(to_valid k, raw_of v)]) @ map (\<lambda>(k, v). (to_valid k, raw_of v)) (m' # ms))), fs) ts"
    by (rule "3.IH"(2)) (use "3.prems"(1) in auto)
  ultimately show ?case
    by (simp add: m after_step_def)
qed simp

lemma jrun_elems_any:
  assumes "\<And>v fs ts. v \<in> set vs \<Longrightarrow> length fs + depth \<le> max_nesting \<Longrightarrow>
      jrun (Want, fs) (toks v @ ts) = jrun (After (raw_of v), fs) ts"
    and "length fs + depth < max_nesting" and "vs \<noteq> []"
  shows "jrun (Want, FArr acc # fs) (sep_toks (map toks vs) @ TArrEnd # ts) =
    jrun (After (RArr (rev acc @ map raw_of vs)), fs) ts"
  using assms(1,3)
proof (induction vs arbitrary: acc rule: induct_list012)
  case (2 v)
  then show ?case using assms(2) by (simp add: after_step_def)
next
  case (3 v v' vs)
  have "jrun (Want, FArr acc # fs) (toks v @ us) = jrun (After (raw_of v), FArr acc # fs) us" for us
    using "3.prems"(1) [of v "FArr acc # fs"] assms(2) by simp
  moreover have "jrun (Want, FArr (raw_of v # acc) # fs) (sep_toks (map toks (v' # vs)) @ TArrEnd # ts) =
    jrun (After (RArr (rev (raw_of v # acc) @ map raw_of (v' # vs))), fs) ts"
    by (rule "3.IH"(2)) (use "3.prems"(1) in auto)
  ultimately show ?case
    by (simp add: after_step_def)
qed simp

lemma toks_head: "plain_json v \<Longrightarrow> \<exists>t ts. toks v = t # ts \<and> t \<noteq> TArrEnd"
  by (cases v) auto

lemma jrun_toks:
  "plain_json j \<Longrightarrow> length fs + json_depth j \<le> max_nesting \<Longrightarrow>
     jrun (Want, fs) (toks j @ ts) = jrun (After (raw_of j), fs) ts"
proof (induction j arbitrary: fs ts)
  case (JArr vs)
  let ?d = "foldr (max \<circ> json_depth) vs 0"
  have le: "v \<in> set vs \<Longrightarrow> json_depth v \<le> ?d" for v by (induction vs) (auto simp: max_def)
  have deep: "length fs + ?d < max_nesting" using JArr.prems(2) by simp
  show ?case
  proof (cases vs)
    case Nil
    then show ?thesis using deep by (simp add: want_step_def)
  next
    case (Cons v vs')
    have "plain_json v" using JArr.prems(1) Cons by simp
    then obtain t us where t: "sep_toks (map toks vs) = t # us" "t \<noteq> TArrEnd"
      using toks_head [of v] Cons by (cases vs') auto
    have IH: "jrun (Want, fs') (toks v @ ts') = jrun (After (raw_of v), fs') ts'"
      if "v \<in> set vs" "length fs' + ?d \<le> max_nesting" for v fs' ts'
      using JArr.IH [OF that(1)] JArr.prems(1) that le [OF that(1)] by (simp add: list_all_iff)
    have "jrun (WantOrEnd, fs) (sep_toks (map toks vs) @ TArrEnd # ts) =
        jrun (Want, FArr [] # fs) (sep_toks (map toks vs) @ TArrEnd # ts)"
      by (simp add: t)
    also have "\<dots> = jrun (After (RArr (rev [] @ map raw_of vs)), fs) ts"
      by (rule jrun_elems_any [where depth = ?d]) (use IH deep Cons in auto)
    finally show ?thesis using deep by (simp add: want_step_def)
  qed
next
  case (JObj ms)
  let ?d = "foldr (\<lambda>(k, v). max (json_depth v)) ms 0"
  have le: "(k, v) \<in> set ms \<Longrightarrow> json_depth v \<le> ?d" for k v by (induction ms) (auto simp: max_def)
  have deep: "length fs + ?d < max_nesting" using JObj.prems(2) by simp
  show ?case
  proof (cases ms)
    case Nil
    then show ?thesis using deep by (simp add: want_step_def)
  next
    case (Cons m ms')
    obtain k us where t: "sep_toks (map (\<lambda>(k, v). TStr (to_valid k) # TColon # toks v) ms) = TStr k # us"
      using Cons by (cases m; cases ms') auto
    have IH: "jrun (Want, fs') (toks v @ ts') = jrun (After (raw_of v), fs') ts'"
      if "(k, v) \<in> set ms" "length fs' + ?d \<le> max_nesting" for k v fs' ts'
      using JObj.IH [OF that(1), of v] JObj.prems(1) that le [OF that(1)] by (auto simp: list_all_iff)
    have "jrun (KeyOrEnd, fs) (sep_toks (map (\<lambda>(k, v). TStr (to_valid k) # TColon # toks v) ms) @ TObjEnd # ts) =
        jrun (Key [], fs) (sep_toks (map (\<lambda>(k, v). TStr (to_valid k) # TColon # toks v) ms) @ TObjEnd # ts)"
      by (simp add: t)
    also have "\<dots> = jrun (After (RObj ([] @ map (\<lambda>(k, v). (to_valid k, raw_of v)) ms)), fs) ts"
      by (rule jrun_members_any [where depth = ?d]) (use IH deep Cons in auto)
    finally show ?thesis using deep by (simp add: want_step_def)
  qed
qed (auto simp: want_step_def)

theorem raw_parse_print:
  assumes "\<And>d. space_text (ws d)" and "space_text gap" and "plain_json j" and "json_depth j \<le> max_nesting"
  shows "raw_parse (json_print ws gap d j) = Some (raw_of j)"
  using json_lex_print [where ws = ws and gap = gap and d = d and s = "[]", OF assms(1-3)] jrun_toks [OF assms(3), of "[]" "[]"] assms(4)
  by (simp add: raw_parse_def)

lemma space_layouts:
  "space_text []" "space_text '' ''" "space_text (CHR 0x0A # replicate n (CHR '' ''))"
  by (auto simp: space_text_def json_space_def)

lemma raw_parse_indented:
  "plain_json j \<Longrightarrow> json_depth j \<le> max_nesting \<Longrightarrow> raw_parse (json_indented j) = Some (raw_of j)"
  unfolding json_indented_def by (rule raw_parse_print) (simp_all add: space_layouts)

lemma raw_parse_compact:
  "plain_json j \<Longrightarrow> json_depth j \<le> max_nesting \<Longrightarrow> raw_parse (json_compact j) = Some (raw_of j)"
  unfolding json_compact_def by (rule raw_parse_print) (simp_all add: space_layouts)


section \<open>Decoding into structs\<close>

text \<open>
  A member sets the field whose name is the key up to case: \<open>encoding/json\<close> folds ASCII letters, and
  U+017F and U+212A, which fold to \<open>s\<close> and \<open>k\<close>.  Members with other keys are skipped, \<open>null\<close> leaves
  a string, boolean or struct as it is, and a value of another type is an error.
\<close>

fun json_fold :: "string \<Rightarrow> string" where
  "json_fold (a # b # c # s) =
     (if a = CHR 0xC5 \<and> b = CHR 0xBF then CHR ''s'' # json_fold (c # s)
      else if a = CHR 0xE2 \<and> b = CHR 0x84 \<and> c = CHR 0xAA then CHR ''k'' # json_fold s
      else lower_char a # json_fold (b # c # s))"
| "json_fold [a, b] = (if a = CHR 0xC5 \<and> b = CHR 0xBF then ''s'' else [lower_char a, lower_char b])"
| "json_fold [a] = [lower_char a]"
| "json_fold [] = []"

type_synonym 's decoder = "jraw \<Rightarrow> 's \<Rightarrow> 's res"

definition find_field :: "(string \<times> 's decoder) list \<Rightarrow> string \<Rightarrow> 's decoder option" where
  "find_field fields k = map_option snd (List.find (\<lambda>f. json_fold (fst f) = json_fold k) fields)"

fun decode_members :: "(string \<times> 's decoder) list \<Rightarrow> (string \<times> jraw) list \<Rightarrow> 's \<Rightarrow> 's res" where
  "decode_members fields [] s = Inr s"
| "decode_members fields ((k, v) # ms) s =
     (case find_field fields k of
        None \<Rightarrow> decode_members fields ms s
      | Some f \<Rightarrow> (case f v s of Inl e \<Rightarrow> Inl e | Inr s' \<Rightarrow> decode_members fields ms s'))"

definition decode_struct :: "(string \<times> 's decoder) list \<Rightarrow> 's decoder" where
  "decode_struct fields v s =
     (case v of RObj ms \<Rightarrow> decode_members fields ms s | RNull \<Rightarrow> Inr s | _ \<Rightarrow> Inl ErrDecode)"

definition decode_str :: "(string \<Rightarrow> 's \<Rightarrow> 's) \<Rightarrow> 's decoder" where
  "decode_str put v s = (case v of RStr x \<Rightarrow> Inr (put x s) | RNull \<Rightarrow> Inr s | _ \<Rightarrow> Inl ErrDecode)"

definition decode_bool :: "(bool \<Rightarrow> 's \<Rightarrow> 's) \<Rightarrow> 's decoder" where
  "decode_bool put v s = (case v of RBool b \<Rightarrow> Inr (put b s) | RNull \<Rightarrow> Inr s | _ \<Rightarrow> Inl ErrDecode)"

text \<open>The elements of a slice, each decoded into a zero value.\<close>

fun decode_all :: "'a decoder \<Rightarrow> 'a \<Rightarrow> jraw list \<Rightarrow> 'a list res" where
  "decode_all f zero [] = Inr []"
| "decode_all f zero (v # vs) =
     (case f v zero of
        Inl e \<Rightarrow> Inl e
      | Inr x \<Rightarrow> (case decode_all f zero vs of Inl e \<Rightarrow> Inl e | Inr xs \<Rightarrow> Inr (x # xs)))"

lemma decode_all_map:
  "(\<And>x. x \<in> set xs \<Longrightarrow> f (g x) zero = Inr (h x)) \<Longrightarrow> decode_all f zero (map g xs) = Inr (map h xs)"
  by (induction xs) simp_all

definition decode_slice :: "'a decoder \<Rightarrow> 'a \<Rightarrow> jraw \<Rightarrow> 'a list res" where
  "decode_slice f zero v =
     (case v of RArr vs \<Rightarrow> decode_all f zero vs | RNull \<Rightarrow> Inr [] | _ \<Rightarrow> Inl ErrDecode)"

text \<open>A slice field: \<open>null\<close> makes it nil.\<close>

definition decode_list :: "'a decoder \<Rightarrow> 'a \<Rightarrow> ('a list option \<Rightarrow> 's \<Rightarrow> 's) \<Rightarrow> 's decoder" where
  "decode_list f zero put v s =
     (case v of
        RNull \<Rightarrow> Inr (put None s)
      | RArr vs \<Rightarrow> (case decode_all f zero vs of Inl e \<Rightarrow> Inl e | Inr xs \<Rightarrow> Inr (put (Some xs) s))
      | _ \<Rightarrow> Inl ErrDecode)"

text \<open>A byte slice is base64 text; Go also takes an array of numbers, which is an error here.\<close>

definition decode_bytes :: "(string option \<Rightarrow> 's \<Rightarrow> 's) \<Rightarrow> 's decoder" where
  "decode_bytes put v s =
     (case v of
        RNull \<Rightarrow> Inr (put None s)
      | RStr x \<Rightarrow> (case std_decode x of None \<Rightarrow> Inl ErrDecode | Some b \<Rightarrow> Inr (put (Some b) s))
      | _ \<Rightarrow> Inl ErrDecode)"

text \<open>A value that was read is written with the keys of all its maps sorted.\<close>

fun json_sorted :: "json \<Rightarrow> json" where
  "json_sorted (JArr vs) = JArr (map json_sorted vs)"
| "json_sorted (JObj ms) = sorted_obj (map (\<lambda>(k, v). (k, json_sorted v)) ms)"
| "json_sorted j = j"

text \<open>The members of a map, each decoded into a zero value and put into the map.\<close>

fun decode_entries :: "'a decoder \<Rightarrow> 'a \<Rightarrow> (string \<times> jraw) list \<Rightarrow> (string, 'a) gomap \<Rightarrow> (string, 'a) gomap res" where
  "decode_entries f zero [] m = Inr m"
| "decode_entries f zero ((k, v) # ms) m =
     (case f v zero of Inl e \<Rightarrow> Inl e | Inr x \<Rightarrow> decode_entries f zero ms (gm_put k x m))"

text \<open>\<open>json.Unmarshal\<close> reads all of the text; \<open>Decode\<close> of a \<open>json.Decoder\<close> reads the first value.\<close>

definition json_unmarshal :: "'s decoder \<Rightarrow> string \<Rightarrow> 's \<Rightarrow> 's res" where
  "json_unmarshal f text s = (case raw_parse text of None \<Rightarrow> Inl ErrDecode | Some v \<Rightarrow> f v s)"

function first_value :: "jstate \<Rightarrow> string \<Rightarrow> jraw option" where
  "first_value st s =
     (case st of
        (After v, []) \<Rightarrow> Some v
      | _ \<Rightarrow>
          (case s of
             [] \<Rightarrow> None
           | c # r \<Rightarrow>
               if json_space c then first_value st r
               else (case lex_tok s of
                       None \<Rightarrow> None
                     | Some (t, r') \<Rightarrow>
                         (case jstep st t of None \<Rightarrow> None | Some st' \<Rightarrow> first_value st' r'))))"
  by pat_completeness auto
termination
  by (relation "measure (length \<circ> snd)") (auto dest!: lex_tok_shorter)

declare first_value.simps [simp del]

definition json_decode :: "'s decoder \<Rightarrow> string \<Rightarrow> 's \<Rightarrow> 's res" where
  "json_decode f text s = (case first_value (Want, []) text of None \<Rightarrow> Inl ErrDecode | Some v \<Rightarrow> f v s)"

text \<open>A text that is one value is read alike by both.\<close>

lemma first_value_all:
  "json_lex s = Some ts \<Longrightarrow> jrun st ts = Some v \<Longrightarrow> first_value st s = Some v"
proof (induction s arbitrary: st ts rule: json_lex.induct)
  case 1
  then show ?case by (subst first_value.simps) (auto split: prod.splits jmode.splits list.splits)
next
  case (2 c s)
  show ?case
  proof (cases "\<exists>u. st = (After u, [])")
    case True
    then obtain u where u: "st = (After u, [])" by blast
    have "jrun (After u, []) (t # ts') = None" for t ts' by (simp add: after_step_def)
    with "2.prems"(2) u have "ts = []" by (cases ts) auto
    with "2.prems"(2) u show ?thesis by (subst first_value.simps) simp
  next
    case False
    then have step: "first_value st (c # s) =
        (if json_space c then first_value st s
         else (case lex_tok (c # s) of
                 None \<Rightarrow> None
               | Some (t, r') \<Rightarrow> (case jstep st t of None \<Rightarrow> None | Some st' \<Rightarrow> first_value st' r')))"
      by (subst first_value.simps) (auto split: prod.splits jmode.splits list.splits)
    show ?thesis
    proof (cases "json_space c")
      case True
      with "2.IH"(1) "2.prems" step show ?thesis by (simp add: json_lex.simps(2))
    next
      case no: False
      with "2.prems"(1) obtain t r us where t: "lex_tok (c # s) = Some (t, r)" "json_lex r = Some us" "ts = t # us"
        by (auto simp: json_lex.simps(2) split: option.splits)
      with "2.prems"(2) obtain st' where "jstep st t = Some st'" "jrun st' us = Some v"
        by (auto split: option.splits)
      with "2.IH"(2) [OF no t(1) refl t(2)] t no step show ?thesis by simp
    qed
  qed
qed

lemma first_value_parse: "raw_parse s = Some v \<Longrightarrow> first_value (Want, []) s = Some v"
  by (auto simp: raw_parse_def first_value_all split: option.splits)

lemma decode_is_unmarshal: "raw_parse s = Some v \<Longrightarrow> json_decode f s x = json_unmarshal f s x"
  by (simp add: json_decode_def json_unmarshal_def first_value_parse)

section \<open>Values that are sent and answered\<close>

text \<open>A value with a line feed after it, as \<open>Encode\<close> writes it, is read back.\<close>

lemma raw_parse_line:
  assumes "plain_json j" and "json_depth j \<le> max_nesting"
  shows "raw_parse (json_compact j @ [CHR 0x0A]) = Some (raw_of j)"
proof -
  have "json_lex [CHR 0x0A] = Some []" by code_simp
  then have "json_lex (json_compact j @ [CHR 0x0A]) = Some (toks j)"
    using json_lex_print [where ws = "\<lambda>_. []" and gap = "[]" and d = 0 and s = "[CHR 0x0A]" and j = j] assms(1)
    by (simp add: json_compact_def space_layouts)
  then show ?thesis
    using jrun_toks [OF assms(1), of "[]" "[]"] assms(2) by (simp add: raw_parse_def)
qed

lemma decode_line:
  assumes "plain_json j" and "json_depth j \<le> max_nesting"
  shows "json_decode f (json_compact j @ [CHR 0x0A]) s = f (raw_of j) s"
  using raw_parse_line [OF assms] by (simp add: decode_is_unmarshal json_unmarshal_def)

lemma decode_sent:
  assumes "plain_json j" and "json_depth j \<le> max_nesting"
  shows "json_decode f (json_compact j) s = f (raw_of j) s"
  using raw_parse_compact [OF assms] by (simp add: decode_is_unmarshal json_unmarshal_def)

lemma nesting_small: "n \<le> 100 \<Longrightarrow> n \<le> max_nesting"
  by (simp add: max_nesting_def)

end
