(* ===== verification/Cli_Userconfig.thy ===== *)
theory Cli_Userconfig
  imports Go_Json_Struct Go_Walk
begin

text \<open>
  The user's profiles, \<open>packages/cli/internal/userconfig/config.go\<close>: a JSON file in the home directory.
\<close>

record Profile =
  HubURL :: string
  PProjectID :: string
  PToken :: string

record Config =
  Current :: string
  Profiles :: "(string, Profile) gomap"

definition no_profile :: Profile where
  "no_profile = \<lparr>HubURL = [], PProjectID = [], PToken = []\<rparr>"

text \<open>\<open>os.UserHomeDir\<close> reads \<open>HOME\<close>.\<close>

definition configPath :: "environ \<Rightarrow> string res" where
  "configPath env =
     (if env ''HOME'' = [] then Inl (ErrMsg ''$HOME is not defined'')
      else Inr (path_join [env ''HOME'', ''.santokit'', ''config.json'']))"

section \<open>The file\<close>

definition profile_decoder :: "Profile decoder" where
  "profile_decoder =
     decode_struct [(''hubUrl'', decode_str (\<lambda>x p. p\<lparr>HubURL := x\<rparr>)),
       (''projectId'', decode_str (\<lambda>x p. p\<lparr>PProjectID := x\<rparr>)),
       (''token'', decode_str (\<lambda>x p. p\<lparr>PToken := x\<rparr>))]"

text \<open>\<open>null\<close> makes the map nil, which \<open>Load\<close> turns into an empty one.\<close>

definition profiles_decoder :: "Config decoder" where
  "profiles_decoder v cfg =
     (case v of
        RObj ms \<Rightarrow>
          (case decode_entries profile_decoder no_profile ms (Profiles cfg) of
             Inl e \<Rightarrow> Inl e
           | Inr m \<Rightarrow> Inr (cfg\<lparr>Profiles := m\<rparr>))
      | RNull \<Rightarrow> Inr (cfg\<lparr>Profiles := []\<rparr>)
      | _ \<Rightarrow> Inl ErrDecode)"

definition config_decoder :: "Config decoder" where
  "config_decoder =
     decode_struct [(''current'', decode_str (\<lambda>x c. c\<lparr>Current := x\<rparr>)), (''profiles'', profiles_decoder)]"

definition empty_user_config :: Config where
  "empty_user_config = \<lparr>Current = [], Profiles = []\<rparr>"

definition Load :: "environ \<Rightarrow> fs \<Rightarrow> Config res \<times> fs" where
  "Load env w =
     (case configPath env of
        Inl e \<Rightarrow> (Inl e, w)
      | Inr path \<Rightarrow>
          (case os_ReadFile path w of
             (Inl e, w') \<Rightarrow> ((if e = ErrNotExist then Inr empty_user_config else Inl e), w')
           | (Inr data, w') \<Rightarrow> (json_unmarshal config_decoder data empty_user_config, w')))"

definition profile_json :: "Profile \<Rightarrow> json" where
  "profile_json p =
     JObj [(''hubUrl'', JStr (HubURL p)), (''projectId'', JStr (PProjectID p)), (''token'', JStr (PToken p))]"

definition config_json :: "Config \<Rightarrow> json" where
  "config_json cfg =
     JObj [(''current'', JStr (Current cfg)),
           (''profiles'', sorted_obj (map (\<lambda>(name, p). (name, profile_json p)) (Profiles cfg)))]"

definition Save :: "environ \<Rightarrow> Config \<Rightarrow> fs \<Rightarrow> unit res \<times> fs" where
  "Save env cfg w =
     (case configPath env of
        Inl e \<Rightarrow> (Inl e, w)
      | Inr path \<Rightarrow>
          (case os_MkdirAll (path_dir path) w of
             (Inl e, w') \<Rightarrow> (Inl e, w')
           | (Inr _, w') \<Rightarrow> os_WriteFile path (json_indented (config_json cfg)) w'))"

definition CurrentProfile :: "Config \<Rightarrow> Profile option" where
  "CurrentProfile c = (if Current c = [] then None else map_of (Profiles c) (Current c))"

section \<open>What is saved is loaded\<close>

text \<open>Text that is UTF-8 is kept as it is.\<close>

definition utf8_text :: "string \<Rightarrow> bool" where
  "utf8_text s \<longleftrightarrow> to_valid s = s"

definition utf8_config :: "Config \<Rightarrow> bool" where
  "utf8_config cfg \<longleftrightarrow>
     utf8_text (Current cfg) \<and>
     (\<forall>(name, p) \<in> set (Profiles cfg). utf8_text name \<and> utf8_text (HubURL p) \<and> utf8_text (PProjectID p) \<and> utf8_text (PToken p))"

lemma field_names:
  "json_fold ''hubUrl'' = ''huburl''" "json_fold ''projectId'' = ''projectid''" "json_fold ''token'' = ''token''"
  "json_fold ''current'' = ''current''" "json_fold ''profiles'' = ''profiles''"
  by (simp_all add: lower_char_def char_of_eq_iff)

lemma field_keys:
  "to_valid ''hubUrl'' = ''hubUrl''" "to_valid ''projectId'' = ''projectId''" "to_valid ''token'' = ''token''"
  "to_valid ''current'' = ''current''" "to_valid ''profiles'' = ''profiles''"
  by (rule to_valid_ascii, simp add: ascii_def)+

lemma decode_profile:
  assumes "utf8_text (HubURL p)" and "utf8_text (PProjectID p)" and "utf8_text (PToken p)"
  shows "profile_decoder (raw_of (profile_json p)) no_profile = Inr p"
  using assms
  by (simp add: profile_json_def profile_decoder_def decode_struct_def field_keys find_field_def field_names
      decode_str_def no_profile_def utf8_text_def del: to_valid.simps json_fold.simps)

lemma decode_profiles:
  "\<forall>(name, p) \<in> set ps. utf8_text name \<and> utf8_text (HubURL p) \<and> utf8_text (PProjectID p) \<and> utf8_text (PToken p) \<Longrightarrow>
     decode_entries profile_decoder no_profile
       (map (\<lambda>(k, v). (to_valid k, raw_of v)) (map (\<lambda>(name, p). (name, profile_json p)) ps)) m =
     Inr (fold (\<lambda>(name, p). gm_put name p) ps m)"
  by (induction ps arbitrary: m) (auto simp: decode_profile utf8_text_def)


lemma sort_key_map_values: "sort_key fst (map (\<lambda>(k, v). (k, f v)) ps) = map (\<lambda>(k, v). (k, f v)) (sort_key fst ps)"
proof (induction ps)
  case (Cons p ps)
  have "insort_key fst (case p of (k, v) \<Rightarrow> (k, f v)) (map (\<lambda>(k, v). (k, f v)) qs) =
      map (\<lambda>(k, v). (k, f v)) (insort_key fst p qs)" for qs
    by (induction qs) (auto split: prod.splits)
  with Cons show ?case by simp
qed simp

lemma map_of_fold_put: "map_of (fold (\<lambda>(k, v). gm_put k v) ps m) = map_of m ++ map_of (rev ps)"
  by (induction ps arbitrary: m) (auto simp: map_add_def fun_eq_iff split: option.splits)

lemma map_wf_fold_put: "map_wf m \<Longrightarrow> map_wf (fold (\<lambda>(k, v). gm_put k v) ps m)"
  by (induction ps arbitrary: m) auto

lemma map_of_sorted_put:
  assumes "map_wf ps"
  shows "map_of (fold (\<lambda>(k, v). gm_put k v) (sort_key fst ps) []) = map_of ps"
  using assms
  by (simp add: map_of_fold_put map_wf_def, intro map_of_same_set)
    (simp_all add: distinct_map rev_map [symmetric])

definition reloaded :: "Config \<Rightarrow> Config" where
  "reloaded cfg = cfg\<lparr>Profiles := fold (\<lambda>(name, p). gm_put name p) (sort_key fst (Profiles cfg)) []\<rparr>"

lemma decode_config:
  assumes "utf8_config cfg"
  shows "config_decoder (raw_of (config_json cfg)) empty_user_config = Inr (reloaded cfg)"
proof -
  let ?ps = "sort_key fst (Profiles cfg)"
  have "\<forall>(name, p) \<in> set ?ps. utf8_text name \<and> utf8_text (HubURL p) \<and> utf8_text (PProjectID p) \<and> utf8_text (PToken p)"
    using assms by (simp add: utf8_config_def)
  note ps = decode_profiles [OF this]
  have "utf8_text (Current cfg)" using assms by (simp add: utf8_config_def)
  then show ?thesis
    by (simp add: config_json_def sorted_obj_def sort_key_map_values config_decoder_def decode_struct_def
        field_keys find_field_def field_names decode_str_def profiles_decoder_def ps empty_user_config_def
        utf8_text_def reloaded_def del: to_valid.simps json_fold.simps map_map)
qed


lemma plain_config: "plain_json (config_json cfg) \<and> json_depth (config_json cfg) \<le> max_nesting"
proof -
  have d: "json_depth (profile_json p) = 1" for p by (simp add: profile_json_def)
  have "foldr (\<lambda>(k, v). max (json_depth v)) (map (\<lambda>(name, p). (name, profile_json p)) ps) 0 \<le> 1" for ps
    by (induction ps) (auto simp: d)
  from le_trans [OF this [of "sort_key fst (Profiles cfg)"], of 9998]
  have "foldr (\<lambda>(k, v). max (json_depth v))
      (map (\<lambda>(name, p). (name, profile_json p)) (sort_key fst (Profiles cfg))) 0 \<le> 9998" by simp
  moreover have "plain_json (profile_json p)" for p by (simp add: profile_json_def)
  ultimately show ?thesis
    by (auto simp: config_json_def sorted_obj_def sort_key_map_values list_all_iff max_nesting_def
        simp del: foldr_map)
qed

lemma unmarshal_config:
  "utf8_config cfg \<Longrightarrow> json_unmarshal config_decoder (json_indented (config_json cfg)) empty_user_config = Inr (reloaded cfg)"
  using plain_config [of cfg] by (simp add: json_unmarshal_def raw_parse_indented decode_config)

lemma Load_Save:
  assumes "utf8_config cfg" and "Save env cfg w = (Inr (), w')" and "fs_healthy w'"
  shows "fst (Load env w') = Inr (reloaded cfg)"
proof -
  obtain path w1 where path: "configPath env = Inr path"
    and wr: "os_WriteFile path (json_indented (config_json cfg)) w1 = (Inr (), w')"
    using assms(2) by (auto simp: Save_def split: sum.splits prod.splits)
  obtain w2 where "os_fault w' = (False, w2)" "fs_files w2 = fs_files w'"
    using os_fault_healthy [OF assms(3)] by blast
  with WriteFile_Inr [OF wr] have "fst (os_ReadFile path w') = Inr (json_indented (config_json cfg))"
    by (simp add: os_ReadFile_def)
  then show ?thesis
    using unmarshal_config [OF assms(1)] by (cases "os_ReadFile path w'") (simp add: Load_def path)
qed

text \<open>
  Property C38. Profiles survive the file: when saving a configuration whose texts are UTF-8 succeeds,
  the next load that the operating system does not disturb returns the same current name and the
  same profile under every name, whatever the old file held and in whatever order the runtime
  goes through the profiles.
\<close>

theorem config_survives_save:
  assumes "utf8_config cfg" and "map_wf (Profiles cfg)"
    and "Save env cfg w = (Inr (), w')" and "fs_healthy w'"
  shows "\<exists>cfg'. fst (Load env w') = Inr cfg' \<and> Current cfg' = Current cfg \<and> map_wf (Profiles cfg') \<and>
    map_of (Profiles cfg') = map_of (Profiles cfg) \<and> CurrentProfile cfg' = CurrentProfile cfg"
  using Load_Save [OF assms(1,3,4)] map_of_sorted_put [OF assms(2)]
  by (auto simp: reloaded_def CurrentProfile_def map_wf_fold_put)

definition sample_profiles :: Config where
  "sample_profiles =
     \<lparr>Current = ''dev'',
      Profiles = [(''prod'', \<lparr>HubURL = ''https://h'', PProjectID = ''p1'', PToken = ''t''\<rparr>),
        (''dev'', \<lparr>HubURL = ''http://localhost'', PProjectID = [], PToken = []\<rparr>)]\<rparr>"

definition empty_fs :: fs where
  "empty_fs = \<lparr>fs_dirs = [], fs_files = [], fs_faults = []\<rparr>"

theorem config_survives_save_witness:
  "\<exists>w' cfg'. Save (\<lambda>_. ''/home'') sample_profiles empty_fs = (Inr (), w') \<and>
     fst (Load (\<lambda>_. ''/home'') w') = Inr cfg' \<and> Current cfg' = ''dev'' \<and>
     map_of (Profiles cfg') ''prod'' = Some \<lparr>HubURL = ''https://h'', PProjectID = ''p1'', PToken = ''t''\<rparr>"
proof -
  have "list_all ascii ''dev''" "list_all ascii ''prod''" "list_all ascii ''https://h''" "list_all ascii ''p1''"
    "list_all ascii ''t''" "list_all ascii ''http://localhost''" "list_all ascii []"
    by (simp_all add: ascii_def)
  then have u: "utf8_config sample_profiles"
    by (simp add: utf8_config_def sample_profiles_def utf8_text_def to_valid_ascii del: to_valid.simps)
  have m: "map_wf (Profiles sample_profiles)" by (simp add: sample_profiles_def map_wf_def)
  have p: "configPath (\<lambda>_. ''/home'') = Inr ''/home/.santokit/config.json''"
    "path_dir ''/home/.santokit/config.json'' = ''/home/.santokit''"
    "path_key ''/home/.santokit/config.json'' = [''/'', ''home'', ''.santokit'', ''config.json'']"
    "path_key ''/home/.santokit'' = [''/'', ''home'', ''.santokit'']"
    by code_simp+
  obtain w' where w: "Save (\<lambda>_. ''/home'') sample_profiles empty_fs = (Inr (), w')" "fs_healthy w'"
    by (simp add: Save_def p os_MkdirAll_def os_fault_def empty_fs_def prefixes_of_def file_in_way_def
        dir_exists_def top_dir_def os_WriteFile_def fs_healthy_def Let_def upt_rec)
  from config_survives_save [OF u m w] w(1) show ?thesis
    by (auto simp: sample_profiles_def)
qed

end
