(* ===== verification/Cli_Communicator.thy ===== *)
theory Cli_Communicator
  imports Cli_Integrator Cli_Userconfig Go_Client Go_Base64
begin

text \<open>
  The client of the hub: \<open>packages/cli/internal/engine/communicator/communicator.go\<close>.  Requests and
  answers are bytes; the network and the hub behind it are \<open>'w http_client\<close>.
\<close>

section \<open>Data\<close>

record CommConfig =
  CHubURL :: string
  CToken :: string
  CProjectID :: string

record 'w Communicator =
  comm_config :: CommConfig
  comm_client :: "'w http_client"

record ProjectConfig =
  Databases :: string
  Auth :: string
  Storage :: string

record Migration =
  MigID :: string
  MigProjectID :: string
  MigVersion :: string
  MigSQL :: string
  MigDescription :: string
  Applied :: bool

text \<open>\<open>Migrations\<close> is \<open>None\<close> for the nil slice.\<close>

record PlanResult =
  Migrations :: "Migration list option"
  HasChanges :: bool
  Summary :: string

section \<open>Configuration\<close>

text \<open>The settings of the environment come before those of the current profile; an error of loading
  the profiles is ignored.\<close>

definition env_config :: "environ \<Rightarrow> Profile \<Rightarrow> CommConfig" where
  "env_config env profile =
     \<lparr>CHubURL =
        (if env ''STK_HUB_URL'' \<noteq> [] then env ''STK_HUB_URL''
         else if HubURL profile \<noteq> [] then HubURL profile
         else ''https://hub.santokit.dev''),
      CToken = (if env ''STK_TOKEN'' \<noteq> [] then env ''STK_TOKEN'' else PToken profile),
      CProjectID = (if env ''STK_PROJECT_ID'' \<noteq> [] then env ''STK_PROJECT_ID'' else PProjectID profile)\<rparr>"

definition NewFromEnv :: "'w http_client \<Rightarrow> environ \<Rightarrow> fs \<Rightarrow> 'w Communicator \<times> fs" where
  "NewFromEnv cl env w =
     (case Load env w of (r, w') \<Rightarrow>
        let profile = (case r of
               Inl e \<Rightarrow> no_profile
             | Inr cfg \<Rightarrow> (case CurrentProfile cfg of None \<Rightarrow> no_profile | Some p \<Rightarrow> p))
        in (\<lparr>comm_config = env_config env profile, comm_client = cl\<rparr>, w'))"

section \<open>Requests\<close>

definition setHeaders :: "CommConfig \<Rightarrow> (string \<times> string) list" where
  "setHeaders cfg =
     [(''Content-Type'', ''application/json'')] @
     (if CToken cfg \<noteq> [] then [(''Authorization'', ''Bearer '' @ CToken cfg)] else [])"

definition setProjectHeader :: "string \<Rightarrow> (string \<times> string) list" where
  "setProjectHeader projectID =
     (if projectID \<noteq> [] then [(''X-Santokit-Project-ID'', projectID)] else [])"

definition hub_request :: "CommConfig \<Rightarrow> string \<Rightarrow> string \<Rightarrow> string \<Rightarrow> string \<Rightarrow> out_request" where
  "hub_request cfg method path projectID body =
     \<lparr>out_method = method, out_url = CHubURL cfg @ path,
      out_headers = setHeaders cfg @ setProjectHeader projectID, out_body = body\<rparr>"

text \<open>Building and sending, with the texts of the two errors.\<close>

definition exchange :: "'w Communicator \<Rightarrow> out_request \<Rightarrow> string \<Rightarrow> 'w \<Rightarrow> (nat \<times> string) res \<times> 'w" where
  "exchange c req failed w =
     (case new_request (comm_client c) (out_method req) (out_url req) of
        Some e \<Rightarrow> (Inl (ErrWrap ''failed to create request: '' e), w)
      | None \<Rightarrow>
          (case client_do (comm_client c) req w of
             (Inl e, w') \<Rightarrow> (Inl (ErrWrap failed e), w')
           | (Inr resp, w') \<Rightarrow> (Inr resp, w')))"

definition check_ok :: "(nat \<times> string) res \<Rightarrow> string res" where
  "check_ok r =
     (case r of
        Inl e \<Rightarrow> Inl e
      | Inr (status, body) \<Rightarrow> if status = 200 then Inr body else Inl (ErrMsg (''hub returned error: '' @ body)))"

definition no_answer :: "string res \<Rightarrow> unit res" where
  "no_answer r = (case r of Inl e \<Rightarrow> Inl e | Inr _ \<Rightarrow> Inr ())"

definition decode_answer :: "'a decoder \<Rightarrow> 'a \<Rightarrow> string \<Rightarrow> string res \<Rightarrow> 'a res" where
  "decode_answer f zero failed r =
     (case r of
        Inl e \<Rightarrow> Inl e
      | Inr body \<Rightarrow> (case json_decode f body zero of Inl e \<Rightarrow> Inl (ErrWrap failed e) | Inr x \<Rightarrow> Inr x))"

definition str_map :: "(string, string) gomap \<Rightarrow> json" where
  "str_map m = sorted_obj (map (\<lambda>(k, v). (k, JStr v)) m)"

section \<open>The manifest as JSON\<close>

text \<open>\<open>enc\<close> writes a value that is no string, boolean or map of \<open>any\<close>.  An empty or nil map is left out
  of a bundle.\<close>

fun any_json :: "('y \<Rightarrow> json res) \<Rightarrow> 'y go_any \<Rightarrow> json res" where
  "any_json enc (AnyStr s) = Inr (JStr s)"
| "any_json enc (AnyBool b) = Inr (JBool b)"
| "any_json enc (AnyOther y) = enc y"
| "any_json enc (AnyMap ms) =
     (case those (map (\<lambda>(k, v). case any_json enc v of Inl e \<Rightarrow> None | Inr j \<Rightarrow> Some (k, j)) ms) of
        None \<Rightarrow> Inl ErrDecode
      | Some js \<Rightarrow> Inr (sorted_obj js))"

definition bundle_json :: "('y \<Rightarrow> json res) \<Rightarrow> 'y Bundle \<Rightarrow> json res" where
  "bundle_json enc b =
     (case (moment_text (CreatedAt b), any_json enc (AnyMap (case BConfig b of None \<Rightarrow> [] | Some m \<Rightarrow> m))) of
        (Inr t, Inr cfg) \<Rightarrow>
          Inr (JObj ([(''type'', JStr (BType b)), (''namespace'', JStr (BNamespace b)), (''name'', JStr (BName b)),
             (''content'', case Content b of None \<Rightarrow> JNull | Some s \<Rightarrow> JStr (std_encode s)), (''hash'', JStr (Hash b))] @
             (case BConfig b of None \<Rightarrow> [] | Some m \<Rightarrow> if m = [] then [] else [(''config'', cfg)]) @
             [(''created_at'', JStr t)]))
      | _ \<Rightarrow> Inl ErrDecode)"

definition manifest_json :: "('y \<Rightarrow> json res) \<Rightarrow> 'y Manifest \<Rightarrow> json res" where
  "manifest_json enc m =
     (case (moment_text (MCreatedAt m),
            those (map (\<lambda>b. case bundle_json enc b of Inl e \<Rightarrow> None | Inr j \<Rightarrow> Some j) (bundle_list m))) of
        (Inr t, Some bs) \<Rightarrow>
          Inr (JObj [(''version'', JStr (Version m)), (''project_id'', JStr (ProjectID m)),
             (''bundles'', case Bundles m of None \<Rightarrow> JNull | Some _ \<Rightarrow> JArr bs), (''created_at'', JStr t)])
      | _ \<Rightarrow> Inl ErrDecode)"

text \<open>Reading it: what is no string, boolean or map is kept as a JSON value.\<close>

fun json_any :: "json \<Rightarrow> json go_any" where
  "json_any (JStr s) = AnyStr s"
| "json_any (JBool b) = AnyBool b"
| "json_any (JObj ms) = AnyMap (map (\<lambda>(k, v). (k, json_any v)) ms)"
| "json_any j = AnyOther j"

definition decode_moment :: "(go_moment \<Rightarrow> 's \<Rightarrow> 's) \<Rightarrow> 's decoder" where
  "decode_moment put v s =
     (case v of
        RNull \<Rightarrow> Inr s
      | RStr x \<Rightarrow> (case parse_moment x of None \<Rightarrow> Inl ErrDecode | Some t \<Rightarrow> Inr (put t s))
      | _ \<Rightarrow> Inl ErrDecode)"

definition decode_any_map :: "((string, json go_any) gomap option \<Rightarrow> 's \<Rightarrow> 's) \<Rightarrow> 's decoder" where
  "decode_any_map put v s =
     (case raw_value v of
        Some JNull \<Rightarrow> Inr (put None s)
      | Some (JObj ms) \<Rightarrow> Inr (put (Some (map (\<lambda>(k, j). (k, json_any j)) ms)) s)
      | _ \<Rightarrow> Inl ErrDecode)"

definition zero_bundle :: "json Bundle" where
  "zero_bundle =
     \<lparr>BType = [], BNamespace = [], BName = [], Content = None, Hash = [], BConfig = None, CreatedAt = zero_moment\<rparr>"

definition bundle_decoder :: "json Bundle decoder" where
  "bundle_decoder =
     decode_struct [(''type'', decode_str (\<lambda>x b. b\<lparr>BType := x\<rparr>)), (''namespace'', decode_str (\<lambda>x b. b\<lparr>BNamespace := x\<rparr>)),
       (''name'', decode_str (\<lambda>x b. b\<lparr>BName := x\<rparr>)), (''content'', decode_bytes (\<lambda>x b. b\<lparr>Content := x\<rparr>)),
       (''hash'', decode_str (\<lambda>x b. b\<lparr>Hash := x\<rparr>)), (''config'', decode_any_map (\<lambda>x b. b\<lparr>BConfig := x\<rparr>)),
       (''created_at'', decode_moment (\<lambda>x b. b\<lparr>CreatedAt := x\<rparr>))]"

definition zero_manifest :: "json Manifest" where
  "zero_manifest = \<lparr>Version = [], ProjectID = [], Bundles = None, MCreatedAt = zero_moment\<rparr>"

definition manifest_decoder :: "json Manifest decoder" where
  "manifest_decoder =
     decode_struct [(''version'', decode_str (\<lambda>x m. m\<lparr>Version := x\<rparr>)), (''project_id'', decode_str (\<lambda>x m. m\<lparr>ProjectID := x\<rparr>)),
       (''bundles'', decode_list bundle_decoder zero_bundle (\<lambda>x m. m\<lparr>Bundles := x\<rparr>)),
       (''created_at'', decode_moment (\<lambda>x m. m\<lparr>MCreatedAt := x\<rparr>))]"


section \<open>The calls\<close>

definition PushManifest :: "('y \<Rightarrow> json res) \<Rightarrow> 'w Communicator \<Rightarrow> 'y Manifest \<Rightarrow> 'w \<Rightarrow> unit res \<times> 'w" where
  "PushManifest enc c manifest w =
     (case manifest_json enc manifest of
        Inl e \<Rightarrow> (Inl (ErrWrap ''failed to marshal manifest: '' e), w)
      | Inr j \<Rightarrow>
          (case exchange c (hub_request (comm_config c) ''POST'' ''/api/v1/manifest'' (ProjectID manifest) (json_compact j))
             ''failed to push manifest: '' w of
             (r, w') \<Rightarrow> (no_answer (check_ok r), w')))"

definition migration_decoder :: "Migration decoder" where
  "migration_decoder =
     decode_struct [(''id'', decode_str (\<lambda>x m. m\<lparr>MigID := x\<rparr>)), (''project_id'', decode_str (\<lambda>x m. m\<lparr>MigProjectID := x\<rparr>)),
       (''version'', decode_str (\<lambda>x m. m\<lparr>MigVersion := x\<rparr>)), (''sql'', decode_str (\<lambda>x m. m\<lparr>MigSQL := x\<rparr>)),
       (''description'', decode_str (\<lambda>x m. m\<lparr>MigDescription := x\<rparr>)), (''applied'', decode_bool (\<lambda>x m. m\<lparr>Applied := x\<rparr>))]"

definition zero_migration :: Migration where
  "zero_migration =
     \<lparr>MigID = [], MigProjectID = [], MigVersion = [], MigSQL = [], MigDescription = [], Applied = False\<rparr>"

definition zero_plan :: PlanResult where
  "zero_plan = \<lparr>Migrations = None, HasChanges = False, Summary = []\<rparr>"

definition plan_decoder :: "PlanResult decoder" where
  "plan_decoder =
     decode_struct [(''migrations'', decode_list migration_decoder zero_migration (\<lambda>x r. r\<lparr>Migrations := x\<rparr>)),
       (''has_changes'', decode_bool (\<lambda>x r. r\<lparr>HasChanges := x\<rparr>)), (''summary'', decode_str (\<lambda>x r. r\<lparr>Summary := x\<rparr>))]"

definition PlanSchema ::
  "'w Communicator \<Rightarrow> string \<Rightarrow> (string, string) gomap \<Rightarrow> 'w \<Rightarrow> PlanResult res \<times> 'w" where
  "PlanSchema c projectID schemas w =
     (case exchange c (hub_request (comm_config c) ''POST'' ''/api/v1/schema/plan'' projectID
          (json_compact (JObj [(''schemas'', str_map schemas)]))) ''failed to plan schema: '' w of
        (r, w') \<Rightarrow> (decode_answer plan_decoder zero_plan ''failed to decode plan: '' (check_ok r), w'))"

definition migration_json :: "Migration \<Rightarrow> json" where
  "migration_json m =
     JObj [(''id'', JStr (MigID m)), (''project_id'', JStr (MigProjectID m)), (''version'', JStr (MigVersion m)),
       (''sql'', JStr (MigSQL m)), (''description'', JStr (MigDescription m)), (''applied'', JBool (Applied m))]"

definition ApplySchema :: "'w Communicator \<Rightarrow> string \<Rightarrow> Migration list \<Rightarrow> 'w \<Rightarrow> unit res \<times> 'w" where
  "ApplySchema c projectID migrations w =
     (case exchange c (hub_request (comm_config c) ''POST'' ''/api/v1/schema/apply'' projectID
          (json_compact (JObj [(''migrations'', JArr (map migration_json migrations))]))) ''failed to apply schema: '' w of
        (r, w') \<Rightarrow> (no_answer (check_ok r), w'))"

definition ApplyConfig ::
  "'w Communicator \<Rightarrow> string \<Rightarrow> (string, string) gomap \<Rightarrow> 'w \<Rightarrow> unit res \<times> 'w" where
  "ApplyConfig c projectID configs w =
     (case exchange c (hub_request (comm_config c) ''POST'' ''/api/v1/config/apply'' projectID
          (json_compact (JObj [(''configs'', str_map configs)]))) ''failed to apply config: '' w of
        (r, w') \<Rightarrow> (no_answer (check_ok r), w'))"

definition project_config_decoder :: "ProjectConfig decoder" where
  "project_config_decoder =
     decode_struct [(''databases'', decode_str (\<lambda>x c. c\<lparr>Databases := x\<rparr>)), (''auth'', decode_str (\<lambda>x c. c\<lparr>Auth := x\<rparr>)),
       (''storage'', decode_str (\<lambda>x c. c\<lparr>Storage := x\<rparr>))]"

definition zero_project_config :: ProjectConfig where
  "zero_project_config = \<lparr>Databases = [], Auth = [], Storage = []\<rparr>"

definition GetConfig :: "'w Communicator \<Rightarrow> string \<Rightarrow> 'w \<Rightarrow> ProjectConfig res \<times> 'w" where
  "GetConfig c projectID w =
     (case exchange c (hub_request (comm_config c) ''GET'' ''/api/v1/config'' projectID []) ''failed to fetch config: '' w of
        (r, w') \<Rightarrow> (decode_answer project_config_decoder zero_project_config ''failed to decode config: '' (check_ok r), w'))"

text \<open>\<open>FetchManifest\<close> and \<open>ListSecrets\<close> do not look at the status: the body of an error is decoded as an
  answer.\<close>

definition any_body :: "(nat \<times> string) res \<Rightarrow> string res" where
  "any_body r = (case r of Inl e \<Rightarrow> Inl e | Inr (status, body) \<Rightarrow> Inr body)"

definition FetchManifest :: "'w Communicator \<Rightarrow> string \<Rightarrow> 'w \<Rightarrow> json Manifest res \<times> 'w" where
  "FetchManifest c projectID w =
     (case exchange c (hub_request (comm_config c) ''GET'' ''/api/v1/manifest'' projectID []) ''failed to fetch manifest: '' w of
        (r, w') \<Rightarrow> (decode_answer manifest_decoder zero_manifest ''failed to decode manifest: '' (any_body r), w'))"

definition SetSecret :: "'w Communicator \<Rightarrow> string \<Rightarrow> string \<Rightarrow> string \<Rightarrow> 'w \<Rightarrow> unit res \<times> 'w" where
  "SetSecret c projectID key value w =
     (case exchange c (hub_request (comm_config c) ''POST'' ''/api/v1/secrets'' projectID
          (json_compact (str_map [(''key'', key), (''value'', value)]))) ''failed to set secret: '' w of
        (r, w') \<Rightarrow> (no_answer (check_ok r), w'))"

definition keys_decoder :: "string list option decoder" where
  "keys_decoder v s = decode_list (decode_str (\<lambda>x _. x)) [] (\<lambda>x _. x) v s"

definition ListSecrets :: "'w Communicator \<Rightarrow> string \<Rightarrow> 'w \<Rightarrow> string list option res \<times> 'w" where
  "ListSecrets c projectID w =
     (case exchange c (hub_request (comm_config c) ''GET'' ''/api/v1/secrets'' projectID []) ''failed to list secrets: '' w of
        (r, w') \<Rightarrow> (decode_answer keys_decoder None ''failed to decode secrets: '' (any_body r), w'))"

definition DeleteSecret :: "'w Communicator \<Rightarrow> string \<Rightarrow> string \<Rightarrow> 'w \<Rightarrow> unit res \<times> 'w" where
  "DeleteSecret c projectID key w =
     (case exchange c (hub_request (comm_config c) ''DELETE'' (''/api/v1/secrets/'' @ key) projectID [])
        ''failed to delete secret: '' w of
        (r, w') \<Rightarrow> (no_answer (check_ok r), w'))"

end
