(* ===== verification/Cli_Logic.thy ===== *)
theory Cli_Logic
  imports Cli_Scanner Cli_Communicator "HOL-Library.Multiset"
begin

text \<open>
  \<open>stk logic apply\<close> and \<open>stk logic validate\<close>: \<open>packages/cli/internal/commands/logic.go\<close>.  A command
  returns its error, without the marker and the colours it is printed with; what it prints on
  success is not modelled.  \<open>rootDir\<close> is what \<open>os.Getwd\<close> gave, the empty string after an error.
\<close>

section \<open>From files to configurations\<close>

record 'y logicEntry =
  ENamespace :: string
  EName :: string
  EPublic :: bool
  Meta :: "'y LogicConfig option"
  EContent :: "'y LogicConfig option"

text \<open>Namespace, name and extension of a file under \<open>logic/\<close>; the error of \<open>Rel\<close> is ignored.\<close>

definition file_parts :: "string \<Rightarrow> string \<Rightarrow> string \<times> string \<times> string" where
  "file_parts logicRoot path =
     (let relPath = (case path_rel logicRoot path of None \<Rightarrow> [] | Some r \<Rightarrow> r);
          (dir, filename) = path_split relPath;
          ext = path_ext filename
      in (path_clean dir, take (length filename - length ext) filename, ext))"

definition entry_key :: "string \<Rightarrow> string \<Rightarrow> string" where
  "entry_key ns name = path_join [ns, name]"

definition entry_label :: "'y logicEntry \<Rightarrow> string" where
  "entry_label e = ENamespace e @ CHR ''/'' # EName e"

definition applyLogicMetadata :: "'y LogicConfig \<Rightarrow> 'y LogicConfig option \<Rightarrow> 'y LogicConfig" where
  "applyLogicMetadata target meta =
     (case meta of
        None \<Rightarrow> target
      | Some m \<Rightarrow>
          target\<lparr>Target := (if Target m \<noteq> [] then Target m else Target target),
                 Access := (if Access m \<noteq> [] then Access m else Access target),
                 Cache := (if Cache m \<noteq> [] then Cache m else Cache target),
                 Params := (if Params m \<noteq> None then Params m else Params target)\<rparr>)"

text \<open>What the content of a file does to its entry.\<close>

definition add_content ::
  "'y yaml \<Rightarrow> string \<Rightarrow> string \<Rightarrow> string \<Rightarrow> 'y logicEntry \<Rightarrow> 'y logicEntry res" where
  "add_content yaml path ext content entry =
     (if ext = ''.yaml'' \<or> ext = ''.yml'' then
        (case ParseLogicMetadata yaml content of
           Inl e \<Rightarrow> Inl (err_wrap (''Parse failed for '' @ path @ '': '') e)
         | Inr cfg \<Rightarrow> Inr (entry\<lparr>Meta := Some cfg\<rparr>))
      else if ext = ''.sql'' \<or> ext = ''.js'' then
        (if EContent entry \<noteq> None then Inl (ErrMsg (''Multiple logic sources found for '' @ entry_label entry))
         else (case ParseLogicFile yaml content path of
                 Inl e \<Rightarrow> Inl (err_wrap (''Parse failed for '' @ path @ '': '') e)
               | Inr cfg \<Rightarrow> Inr (entry\<lparr>EContent := Some cfg\<rparr>)))
      else Inr entry)"

text \<open>One turn of the first loop: the entry is found or made, then the file is read.\<close>

definition process_file ::
  "'y yaml \<Rightarrow> string \<Rightarrow> ScannedFile \<Rightarrow> (string, 'y logicEntry) gomap \<Rightarrow> fs \<Rightarrow> (string, 'y logicEntry) gomap res \<times> fs" where
  "process_file yaml logicRoot file entries w =
     (case file_parts logicRoot (SPath file) of
        (ns, name, ext) \<Rightarrow>
          let key = entry_key ns name;
              entry0 = (case map_of entries key of
                 Some e \<Rightarrow> e
               | None \<Rightarrow> \<lparr>ENamespace = ns, EName = name, EPublic = True, Meta = None, EContent = None\<rparr>);
              entry = (if IsPublic file then entry0 else entry0\<lparr>EPublic := False\<rparr>)
          in (case os_ReadFile (SPath file) w of
                (Inl e, w') \<Rightarrow> (Inl (ErrWrap (''Failed to read file '' @ SPath file @ '': '') e), w')
              | (Inr content, w') \<Rightarrow>
                  (case add_content yaml (SPath file) ext content entry of
                     Inl e \<Rightarrow> (Inl e, w')
                   | Inr entry' \<Rightarrow> (Inr (gm_put key entry' entries), w'))))"

fun process_files ::
  "'y yaml \<Rightarrow> string \<Rightarrow> ScannedFile list \<Rightarrow> (string, 'y logicEntry) gomap \<Rightarrow> fs \<Rightarrow> (string, 'y logicEntry) gomap res \<times> fs" where
  "process_files yaml logicRoot [] entries w = (Inr entries, w)"
| "process_files yaml logicRoot (file # files) entries w =
     (case process_file yaml logicRoot file entries w of
        (Inl e, w') \<Rightarrow> (Inl e, w')
      | (Inr entries', w') \<Rightarrow> process_files yaml logicRoot files entries' w')"

definition finish_entry :: "'y logicEntry \<Rightarrow> 'y LogicConfig res" where
  "finish_entry entry =
     (case EContent entry of
        None \<Rightarrow> Inl (ErrMsg (''Missing logic content for '' @ entry_label entry @ '' (expected .sql or .js)''))
      | Some content \<Rightarrow>
          let config = (applyLogicMetadata content (Meta entry))\<lparr>CNamespace := ENamespace entry, CName := EName entry\<rparr>
          in (case ValidateLogicConfig config of
                Inl e \<Rightarrow> Inl (ErrWrap (''Validation failed for '' @ entry_label entry @ '': '') e)
              | Inr _ \<Rightarrow> Inr config))"

fun finish_entries :: "(string, 'y logicEntry) gomap \<Rightarrow> 'y LogicConfig list res" where
  "finish_entries [] = Inr []"
| "finish_entries ((key, entry) # entries) =
     (case finish_entry entry of
        Inl e \<Rightarrow> Inl e
      | Inr config \<Rightarrow>
          (case finish_entries entries of Inl e \<Rightarrow> Inl e | Inr configs \<Rightarrow> Inr (config # configs)))"

text \<open>\<open>order\<close> is the order in which the runtime goes through the entries.\<close>

type_synonym 'y entry_order = "(string, 'y logicEntry) gomap \<Rightarrow> (string, 'y logicEntry) gomap"

definition buildLogicConfigs ::
  "'y yaml \<Rightarrow> 'y entry_order \<Rightarrow> string \<Rightarrow> ScannedFile list \<Rightarrow> fs \<Rightarrow> 'y LogicConfig list res \<times> fs" where
  "buildLogicConfigs yaml order rootDir files w =
     (case process_files yaml (path_join [rootDir, ''logic'']) files [] w of
        (Inl e, w') \<Rightarrow> (Inl e, w')
      | (Inr entries, w') \<Rightarrow> (finish_entries (order entries), w'))"

section \<open>The commands\<close>

definition logic_validate :: "'y yaml \<Rightarrow> 'y entry_order \<Rightarrow> string \<Rightarrow> fs \<Rightarrow> unit res \<times> fs" where
  "logic_validate yaml order rootDir w =
     (case ScanLogic (new_scanner rootDir) w of
        (Inl e, w1) \<Rightarrow> (Inl (ErrWrap ''Scan failed: '' e), w1)
      | (Inr files, w1) \<Rightarrow>
          if files = [] then (Inr (), w1)
          else (case buildLogicConfigs yaml order rootDir files w1 of
                  (Inl e, w2) \<Rightarrow> (Inl (if e = ErrPanic then ErrPanic else ErrMsg ''Logic validation failed.''), w2)
                | (Inr configs, w2) \<Rightarrow> (Inr (), w2)))"

text \<open>\<open>clock i\<close> is the \<open>i\<close>-th reading of \<open>time.Now()\<close>.\<close>

definition bundle_all :: "'y LogicConfig list \<Rightarrow> (nat \<Rightarrow> go_moment) \<Rightarrow> 'y Bundle list" where
  "bundle_all configs clock = map (\<lambda>(i, c). BundleLogic c (clock i)) (enumerate 0 configs)"

definition resolve_project :: "environ \<Rightarrow> 'w Communicator \<Rightarrow> string" where
  "resolve_project env comm =
     (if CProjectID (comm_config comm) = [] then env ''STK_PROJECT_ID'' else CProjectID (comm_config comm))"

definition logic_apply ::
  "'y yaml \<Rightarrow> ('y \<Rightarrow> json res) \<Rightarrow> 'y entry_order \<Rightarrow> (nat \<Rightarrow> go_moment) \<Rightarrow> 'w http_client \<Rightarrow> environ \<Rightarrow> string \<Rightarrow>
     fs \<Rightarrow> 'w \<Rightarrow> unit res \<times> fs \<times> 'w" where
  "logic_apply yaml enc order clock cl env rootDir w n =
     (case NewFromEnv cl env w of (comm, w1) \<Rightarrow>
       (case ScanLogic (new_scanner rootDir) w1 of
          (Inl e, w2) \<Rightarrow> (Inl (ErrWrap ''Scan failed: '' e), w2, n)
        | (Inr files, w2) \<Rightarrow>
            if files = [] then (Inr (), w2, n)
            else (case buildLogicConfigs yaml order rootDir files w2 of
                    (Inl e, w3) \<Rightarrow> (Inl e, w3, n)
                  | (Inr configs, w3) \<Rightarrow>
                      let bundles = bundle_all configs clock; k = length configs;
                          projectID = resolve_project env comm
                      in (if projectID = [] then (Inl (ErrMsg ''STK_PROJECT_ID is required''), w3, n)
                          else let manifest = CreateManifest projectID (if bundles = [] then None else Some bundles)
                                 (clock k) (clock (k + 1))
                            in (case PushManifest enc comm manifest n of
                                  (Inl e, n') \<Rightarrow> (Inl (ErrWrap ''Upload failed: '' e), w3, n')
                                | (Inr _, n') \<Rightarrow> (Inr (), w3, n'))))))"


section \<open>The entries\<close>

definition file_key :: "string \<Rightarrow> ScannedFile \<Rightarrow> string" where
  "file_key R f = (case file_parts R (SPath f) of (ns, name, ext) \<Rightarrow> entry_key ns name)"

definition code_file :: "string \<Rightarrow> ScannedFile \<Rightarrow> bool" where
  "code_file R f \<longleftrightarrow> snd (snd (file_parts R (SPath f))) \<in> {''.sql'', ''.js''}"

definition config_key :: "'y LogicConfig \<Rightarrow> string" where
  "config_key c = entry_key (CNamespace c) (CName c)"

text \<open>What the code of an entry comes from.\<close>

definition parsed_from :: "'y yaml \<Rightarrow> string \<Rightarrow> fs \<Rightarrow> ScannedFile \<Rightarrow> 'y LogicConfig \<Rightarrow> bool" where
  "parsed_from yaml R v f c \<longleftrightarrow>
     code_file R f \<and>
     (\<exists>text. map_of (fs_files v) (path_key (SPath f)) = Some text \<and> ParseLogicFile yaml text (SPath f) = Inr c)"

definition entries_ok ::
  "'y yaml \<Rightarrow> string \<Rightarrow> fs \<Rightarrow> ScannedFile list \<Rightarrow> (string, 'y logicEntry) gomap \<Rightarrow> bool" where
  "entries_ok yaml R v files es \<longleftrightarrow>
     map_wf es \<and> distinct (map (file_key R) (filter (code_file R) files)) \<and>
     (\<forall>f \<in> set files. code_file R f \<longrightarrow> (\<exists>e. map_of es (file_key R f) = Some e \<and> EContent e \<noteq> None)) \<and>
     (\<forall>k e. map_of es k = Some e \<longrightarrow> entry_key (ENamespace e) (EName e) = k \<and>
        (\<forall>c. EContent e = Some c \<longrightarrow> (\<exists>f \<in> set files. file_key R f = k \<and> parsed_from yaml R v f c)))"

lemma ReadFile_Inr: "os_ReadFile p w = (Inr text, w') \<Longrightarrow> map_of (fs_files w) (path_key p) = Some text"
  by (auto simp: os_ReadFile_def dest: os_fault_fields split: prod.splits if_splits option.splits)

lemma ReadFile_tree: "os_ReadFile p w = (r, w') \<Longrightarrow> same_tree w' w"
  using ReadFile_frame by (simp add: same_tree_def)

text \<open>Reading a file puts an entry with the same name and namespace back, with its code when the file
  holds code, and then only when it had none.\<close>

lemma add_content_cases:
  assumes "add_content yaml path ext content entry = Inr entry'"
  shows "ENamespace entry' = ENamespace entry \<and> EName entry' = EName entry \<and>
    (if ext \<in> {''.sql'', ''.js''}
     then EContent entry = None \<and> (\<exists>c. ParseLogicFile yaml content path = Inr c \<and> EContent entry' = Some c)
     else EContent entry' = EContent entry)"
  using assms by (auto simp: add_content_def split: if_splits sum.splits)

lemma process_file_Inr:
  assumes step: "process_file yaml R f es w = (Inr es', w')" and parts: "file_parts R (SPath f) = (ns, name, ext)"
    and e0: "e0 = (case map_of es (entry_key ns name) of
        Some e \<Rightarrow> e
      | None \<Rightarrow> \<lparr>ENamespace = ns, EName = name, EPublic = True, Meta = None, EContent = None\<rparr>)"
  obtains content e1 where "os_ReadFile (SPath f) w = (Inr content, w')"
    "add_content yaml (SPath f) ext content (if IsPublic f then e0 else e0\<lparr>EPublic := False\<rparr>) = Inr e1"
    "es' = gm_put (entry_key ns name) e1 es"
proof -
  let ?key = "entry_key ns name"
  have "process_file yaml R f es w =
      (case os_ReadFile (SPath f) w of
         (Inl e, w') \<Rightarrow> (Inl (ErrWrap (''Failed to read file '' @ SPath f @ '': '') e), w')
       | (Inr content, w') \<Rightarrow>
           (case add_content yaml (SPath f) ext content (if IsPublic f then e0 else e0\<lparr>EPublic := False\<rparr>) of
              Inl e \<Rightarrow> (Inl e, w')
            | Inr entry' \<Rightarrow> (Inr (gm_put ?key entry' es), w')))"
    unfolding process_file_def parts Let_def e0 case_prod_conv ..
  with step that show thesis by (auto split: sum.splits prod.splits)
qed

text \<open>Storing an entry keeps the invariant of the loop, when the entry keeps what it had and a
  code file gives it its content.\<close>

lemma entries_ok_put:
  assumes inv: "entries_ok yaml R v seen es" and e0_key: "entry_key (ENamespace e0) (EName e0) = file_key R f"
    and e0_Some: "\<And>e. map_of es (file_key R f) = Some e \<Longrightarrow> e0 = e"
    and e0_None: "map_of es (file_key R f) = None \<Longrightarrow> EContent e0 = None"
    and names: "ENamespace e1 = ENamespace e0" "EName e1 = EName e0"
    and content: "if code_file R f then EContent e0 = None \<and> (\<exists>c. parsed_from yaml R v f c \<and> EContent e1 = Some c)
      else EContent e1 = EContent e0"
  shows "entries_ok yaml R v (seen @ [f]) (gm_put (file_key R f) e1 es)"
  unfolding entries_ok_def
proof (intro conjI ballI allI impI)
  let ?key = "file_key R f" and ?es = "gm_put (file_key R f) e1 es"
  have held: "EContent e0 \<noteq> None" if "g \<in> set seen" "code_file R g" "file_key R g = ?key" for g
  proof -
    from inv that(1,2) have "\<exists>e. map_of es (file_key R g) = Some e \<and> EContent e \<noteq> None"
      unfolding entries_ok_def by blast
    with e0_Some that(3) show ?thesis by auto
  qed
  show "map_wf ?es" using inv by (simp add: entries_ok_def)
  show "distinct (map (file_key R) (filter (code_file R) (seen @ [f])))"
  proof -
    have "file_key R f \<notin> file_key R ` {g \<in> set seen. code_file R g}" if "code_file R f"
      using held content that by (force split: if_splits)
    with inv show ?thesis by (simp add: entries_ok_def)
  qed
  fix g assume g: "g \<in> set (seen @ [f])" "code_file R g"
  show "\<exists>e. map_of ?es (file_key R g) = Some e \<and> EContent e \<noteq> None"
  proof (cases "file_key R g = ?key")
    case True
    with g held [of g] content show ?thesis by (cases "g = f") (auto split: if_splits)
  next
    case False
    with g inv show ?thesis by (auto simp: entries_ok_def)
  qed
next
  let ?key = "file_key R f" and ?es = "gm_put (file_key R f) e1 es"
  fix k e assume e: "map_of ?es k = Some e"
  show "entry_key (ENamespace e) (EName e) = k"
    using e inv e0_key names by (auto simp: entries_ok_def split: if_splits)
  fix c assume c: "EContent e = Some c"
  show "\<exists>g \<in> set (seen @ [f]). file_key R g = k \<and> parsed_from yaml R v g c"
  proof (cases "k = ?key \<and> code_file R f")
    case True
    with e c content show ?thesis by auto
  next
    case False
    have "map_of es k = Some e \<or> k = ?key \<and> e = e1 \<and> (\<exists>e'. map_of es k = Some e' \<and> EContent e' = Some c)"
      using False e c content e0_None e0_Some
      by (cases "map_of es ?key") (auto split: if_splits)
    with inv c have "\<exists>g \<in> set seen. file_key R g = k \<and> parsed_from yaml R v g c"
      unfolding entries_ok_def by blast
    then show ?thesis by auto
  qed
qed

lemma process_file_ok:
  assumes inv: "entries_ok yaml R v seen es" and t: "same_tree w v"
    and step: "process_file yaml R f es w = (Inr es', w')"
  shows "entries_ok yaml R v (seen @ [f]) es' \<and> same_tree w' v"
proof -
  obtain ns name ext where parts: "file_parts R (SPath f) = (ns, name, ext)" by (cases "file_parts R (SPath f)")
  let ?key = "entry_key ns name"
  define e0 where "e0 = (case map_of es ?key of
      Some e \<Rightarrow> e
    | None \<Rightarrow> \<lparr>ENamespace = ns, EName = name, EPublic = True, Meta = None, EContent = None\<rparr>)"
  from process_file_Inr [OF step parts e0_def] obtain content e1 where
      rd: "os_ReadFile (SPath f) w = (Inr content, w')"
    and add: "add_content yaml (SPath f) ext content (if IsPublic f then e0 else e0\<lparr>EPublic := False\<rparr>) = Inr e1"
    and es': "es' = gm_put ?key e1 es" .
  have key: "file_key R f = ?key" and code: "code_file R f \<longleftrightarrow> ext \<in> {''.sql'', ''.js''}"
    by (simp_all add: file_key_def code_file_def parts)
  have stored: "map_of (fs_files v) (path_key (SPath f)) = Some content"
    using ReadFile_Inr [OF rd] t by (simp add: same_tree_def)
  have names: "ENamespace e1 = ENamespace e0" "EName e1 = EName e0"
    and content: "if code_file R f then EContent e0 = None \<and> (\<exists>c. parsed_from yaml R v f c \<and> EContent e1 = Some c)
      else EContent e1 = EContent e0"
    using add_content_cases [OF add] stored by (auto simp: code parsed_from_def split: if_splits)
  have e0: "entry_key (ENamespace e0) (EName e0) = file_key R f"
    using inv unfolding key by (auto simp: e0_def entries_ok_def split: option.splits)
  have "entries_ok yaml R v (seen @ [f]) (gm_put (file_key R f) e1 es)"
    by (rule entries_ok_put [OF inv e0 _ _ names content]) (simp_all add: e0_def key)
  then have "entries_ok yaml R v (seen @ [f]) es'" by (simp only: es' key)
  moreover have "same_tree w' v" using ReadFile_tree [OF rd] t same_tree_trans by blast
  ultimately show ?thesis ..
qed

lemma process_files_ok:
  "process_files yaml R files es w = (Inr es', w') \<Longrightarrow> entries_ok yaml R v seen es \<Longrightarrow> same_tree w v \<Longrightarrow>
     entries_ok yaml R v (seen @ files) es'"
proof (induction files arbitrary: es w seen)
  case (Cons f files)
  then obtain es1 w1 where 1: "process_file yaml R f es w = (Inr es1, w1)"
    and 2: "process_files yaml R files es1 w1 = (Inr es', w')"
    by (auto split: prod.splits sum.splits)
  from process_file_ok [OF Cons.prems(2,3) 1] Cons.IH [OF 2, of "seen @ [f]"] show ?case by simp
qed simp


section \<open>The configurations\<close>

lemma entries_content:
  "entries_ok yaml R v files es \<Longrightarrow> map_of es k = Some e \<Longrightarrow> EContent e = Some p \<Longrightarrow>
     \<exists>f \<in> set files. file_key R f = k \<and> parsed_from yaml R v f p"
  by (simp add: entries_ok_def)

lemma finish_entry_Inr:
  assumes "finish_entry e = Inr c"
  shows "is_ok (ValidateLogicConfig c) \<and> CNamespace c = ENamespace e \<and> CName c = EName e \<and>
    (\<exists>p. EContent e = Some p \<and> SQL c = SQL p \<and> JS c = JS p)"
  using assms
  by (auto simp: finish_entry_def Let_def is_ok_iff applyLogicMetadata_def split: option.splits sum.splits)

lemma finish_entries_iff:
  "finish_entries es = Inr cs \<longleftrightarrow> list_all2 (\<lambda>(k, e) c. finish_entry e = Inr c) es cs"
proof (induction es arbitrary: cs)
  case (Cons p es)
  show ?case by (cases p; cases cs) (auto simp flip: Cons.IH split: sum.splits)
qed auto

lemma list_all2_right: "list_all2 P xs ys \<Longrightarrow> y \<in> set ys \<Longrightarrow> \<exists>x \<in> set xs. P x y"
  by (induction rule: list_all2_induct) auto

lemma finish_entries_ok: "is_ok (finish_entries es) \<longleftrightarrow> (\<forall>(k, e) \<in> set es. is_ok (finish_entry e))"
proof (induction es)
  case (Cons p es)
  then show ?case by (cases p) (auto simp: is_ok_iff split: sum.splits)
qed (simp add: is_ok_iff)

text \<open>The configurations of entries, as a multiset, do not depend on their order.\<close>

lemma finish_entries_mset:
  assumes "finish_entries es = Inr cs"
  shows "mset cs = image_mset (\<lambda>(k, e). case finish_entry e of Inr c \<Rightarrow> c) (mset es)"
proof -
  have "list_all2 (\<lambda>(k, e) c. finish_entry e = Inr c) es cs"
    using assms by (simp add: finish_entries_iff)
  then have "cs = map (\<lambda>(k, e). case finish_entry e of Inr c \<Rightarrow> c) es"
    by (induction rule: list_all2_induct) auto
  then show ?thesis by simp
qed

text \<open>
  Building the configurations of a project in any order of its entries gives the same
  configurations, or fails in any order: the random order in which the runtime goes through the map
  of entries decides only the order of the bundles, and which error is reported.
\<close>

theorem build_any_order:
  assumes "\<And>es. mset (order es) = mset es" and "\<And>es. mset (order' es) = mset es"
  shows "case (fst (buildLogicConfigs yaml order root files w), fst (buildLogicConfigs yaml order' root files w)) of
      (Inr cs, Inr cs') \<Rightarrow> mset cs = mset cs'
    | (Inl _, Inl _) \<Rightarrow> True
    | _ \<Rightarrow> False"
proof (cases "process_files yaml (path_join [root, ''logic'']) files [] w")
  case (Pair r w')
  show ?thesis
  proof (cases r)
    case (Inl e)
    with Pair show ?thesis by (simp add: buildLogicConfigs_def)
  next
    case (Inr es)
    have "set (order es) = set (order' es)"
      using assms by (metis mset_eq_setD)
    then have ok: "is_ok (finish_entries (order es)) \<longleftrightarrow> is_ok (finish_entries (order' es))"
      by (simp add: finish_entries_ok)
    have "mset cs = mset cs'" if "finish_entries (order es) = Inr cs" "finish_entries (order' es) = Inr cs'" for cs cs'
      using that [THEN finish_entries_mset] assms by simp
    with ok Pair Inr show ?thesis
      by (auto simp: buildLogicConfigs_def is_ok_iff split: sum.splits)
  qed
qed

theorem build_any_order_witness:
  "case (fst (buildLogicConfigs (\<lambda>s c. Inr c :: unit LogicConfig res) id ''/p'' [] sample_project),
         fst (buildLogicConfigs (\<lambda>s c. Inr c) rev ''/p'' [] sample_project)) of
     (Inr cs, Inr cs') \<Rightarrow> mset cs = mset cs' | (Inl _, Inl _) \<Rightarrow> True | _ \<Rightarrow> False"
  by (rule build_any_order) simp_all

text \<open>The configurations that are made of the entries.\<close>

lemma finished_each:
  assumes inv: "entries_ok yaml R w files es" and fin: "finish_entries os = Inr configs" and perm: "mset os = mset es"
    and c: "c \<in> set configs"
  shows "\<exists>e. map_of es (config_key c) = Some e \<and> finish_entry e = Inr c"
proof -
  have wf: "map_wf es" using inv by (simp add: entries_ok_def)
  from list_all2_right [OF fin [unfolded finish_entries_iff] c] obtain k e where "(k, e) \<in> set os" "finish_entry e = Inr c"
    by auto
  moreover from this(1) have "map_of es k = Some e" using map_wf_pair [OF wf] mset_eq_setD [OF perm] by auto
  ultimately show ?thesis using inv finish_entry_Inr [of e c] by (auto simp: entries_ok_def config_key_def)
qed

lemma finished_keys:
  assumes inv: "entries_ok yaml R w files es" and fin: "finish_entries os = Inr configs" and perm: "mset os = mset es"
  shows "map config_key configs = map fst os" and "distinct (map config_key configs)"
    and "set (map config_key configs) = file_key R ` {f \<in> set files. code_file R f}"
proof -
  have wf: "map_wf es" using inv by (simp add: entries_ok_def)
  have mem: "(k, e) \<in> set os \<longleftrightarrow> map_of es k = Some e" for k e
    using map_wf_pair [OF wf] mset_eq_setD [OF perm] by auto
  have "list_all2 (\<lambda>(k, e) c. config_key c = k) os configs"
    using fin [unfolded finish_entries_iff] by (rule list.rel_mono_strong)
      (use inv mem finish_entry_Inr in \<open>fastforce simp: entries_ok_def config_key_def\<close>)
  then show keys: "map config_key configs = map fst os"
    by (induction rule: list_all2_induct) auto
  show "distinct (map config_key configs)"
    unfolding keys using perm wf by (metis map_wf_def mset_eq_imp_distinct_iff mset_map)
  show "set (map config_key configs) = file_key R ` {f \<in> set files. code_file R f}"
  proof (intro equalityI subsetI)
    fix k assume "k \<in> set (map config_key configs)"
    then obtain c where "c \<in> set configs" and k: "k = config_key c" by auto
    then obtain e where "map_of es k = Some e" "finish_entry e = Inr c" using finished_each [OF inv fin perm] by blast
    with finish_entry_Inr [of e c] entries_content [OF inv, of k e]
    show "k \<in> file_key R ` {f \<in> set files. code_file R f}" by (auto simp: parsed_from_def)
  next
    fix k assume "k \<in> file_key R ` {f \<in> set files. code_file R f}"
    then obtain e where "map_of es k = Some e" using inv by (auto simp: entries_ok_def)
    with mem have "(k, e) \<in> set os" by simp
    then show "k \<in> set (map config_key configs)" unfolding keys by force
  qed
qed

text \<open>
  Property C15. When a project builds, every configuration is valid, no two have the same namespace and
  name, and there is exactly one configuration for each SQL or JavaScript file: no file is lost and
  none is used twice.  The SQL and JavaScript of a configuration are those the parser takes from the
  text of its file, and metadata files change only target, access, cache and parameters.
\<close>

theorem built_configs:
  assumes "buildLogicConfigs yaml order root files w = (Inr configs, w')"
    and "\<And>es. mset (order es) = mset es"
  shows "(\<forall>c \<in> set configs. is_ok (ValidateLogicConfig c)) \<and>
    distinct (map (\<lambda>c. (CNamespace c, CName c)) configs) \<and>
    distinct (map (file_key (path_join [root, ''logic''])) (filter (code_file (path_join [root, ''logic''])) files)) \<and>
    mset (map config_key configs) =
      mset (map (file_key (path_join [root, ''logic''])) (filter (code_file (path_join [root, ''logic''])) files)) \<and>
    (\<forall>c \<in> set configs. \<exists>f \<in> set files. \<exists>p.
       file_key (path_join [root, ''logic'']) f = config_key c \<and> parsed_from yaml (path_join [root, ''logic'']) w f p \<and>
       SQL c = SQL p \<and> JS c = JS p)"
proof -
  define R where "R = path_join [root, ''logic'']"
  obtain es where pf: "process_files yaml R files [] w = (Inr es, w')" and fin: "finish_entries (order es) = Inr configs"
    using assms(1) by (auto simp: buildLogicConfigs_def R_def split: prod.splits sum.splits)
  have inv: "entries_ok yaml R w files es"
    using process_files_ok [OF pf, of w "[]"] by (simp add: entries_ok_def)
  note each = finished_each [OF inv fin assms(2)] and dk = finished_keys(2) [OF inv fin assms(2)]
  have df: "distinct (map (file_key R) (filter (code_file R) files))"
    using inv by (simp add: entries_ok_def)
  have "mset (map config_key configs) = mset (map (file_key R) (filter (code_file R) files))"
    using dk df finished_keys(3) [OF inv fin assms(2)] by (intro set_eq_iff_mset_eq_distinct [THEN iffD1]) auto
  moreover have "distinct (map (\<lambda>c. (CNamespace c, CName c)) configs)"
    using dk by (auto simp: distinct_map inj_on_def config_key_def)
  moreover have "\<forall>c \<in> set configs. is_ok (ValidateLogicConfig c)"
    using each finish_entry_Inr by blast
  moreover have "\<exists>f \<in> set files. \<exists>p. file_key R f = config_key c \<and> parsed_from yaml R w f p \<and> SQL c = SQL p \<and> JS c = JS p"
    if c: "c \<in> set configs" for c
    using each [OF c] finish_entry_Inr entries_content [OF inv] by metis
  ultimately show ?thesis using df unfolding R_def by blast
qed


definition ping_file :: ScannedFile where
  "ping_file = \<lparr>SPath = ''/p/logic/hello/ping.js'', SType = FileTypeJS, IsPublic = True\<rparr>"

lemma ping_built:
  "buildLogicConfigs (\<lambda>s c. Inr c :: unit LogicConfig res) id ''/p'' [ping_file] sample_project =
     (Inr [empty_config\<lparr>CNamespace := ''hello'', CName := ''ping'', JS := ''export''\<rparr>], sample_project)"
  by code_simp

theorem built_configs_witness:
  "config_key (empty_config\<lparr>CNamespace := ''hello'', CName := ''ping'', JS := ''export''\<rparr> :: unit LogicConfig) =
     file_key ''/p/logic'' ping_file \<and>
   parsed_from (\<lambda>s c. Inr c :: unit LogicConfig res) ''/p/logic'' sample_project ping_file (empty_config\<lparr>JS := ''export''\<rparr>)"
proof -
  let ?c = "empty_config\<lparr>CNamespace := ''hello'', CName := ''ping'', JS := ''export''\<rparr> :: unit LogicConfig"
  have R: "path_join [''/p'', ''logic''] = ''/p/logic''" by code_simp
  have "mset (id es) = mset es" for es :: "(string, unit logicEntry) gomap" by simp
  note built = built_configs [OF ping_built this, unfolded R]
  then have "\<forall>c \<in> set [?c]. \<exists>f \<in> set [ping_file]. \<exists>p. file_key ''/p/logic'' f = config_key c \<and>
      parsed_from (\<lambda>s c. Inr c :: unit LogicConfig res) ''/p/logic'' sample_project f p \<and> SQL c = SQL p \<and> JS c = JS p" by blast
  then obtain p where "file_key ''/p/logic'' ping_file = config_key ?c"
    and p: "parsed_from (\<lambda>s c. Inr c :: unit LogicConfig res) ''/p/logic'' sample_project ping_file p"
    unfolding list.set ball_simps bex_simps by blast
  moreover have "p = empty_config\<lparr>JS := ''export''\<rparr>"
  proof -
    have "map_of (fs_files sample_project) (path_key (SPath ping_file)) = Some ''export''" by code_simp
    moreover have "ParseLogicFile (\<lambda>s c. Inr c) ''export'' (SPath ping_file) = (Inr (empty_config\<lparr>JS := ''export''\<rparr>) :: unit LogicConfig res)"
      by code_simp
    ultimately show ?thesis using p by (auto simp: parsed_from_def)
  qed
  ultimately show ?thesis by simp
qed
end
