(* ===== verification/Cli_Init.thy ===== *)
theory Cli_Init
  imports Cli_Logic
begin

text \<open>
  \<open>stk init\<close>: \<open>packages/cli/internal/commands/init.go\<close>.  \<open>projectName\<close> is the argument of the command,
  empty without one.  The sample files are the texts of the source, line by line.
\<close>

section \<open>The sample files\<close>

definition of_lines :: "string list \<Rightarrow> string" where
  "of_lines = join_with [CHR 0x0A]"

definition schemaContent :: string where
  \<open>schemaContent = of_lines
     [''table "users" {'',
      ''  schema = schema.public'',
      ''  column "id" {'',
      ''    null = false'',
      ''    type = uuid'',
      ''    default = sql("gen_random_uuid()")'',
      ''  }'',
      ''  column "email" {'',
      ''    null = false'',
      ''    type = text'',
      ''  }'',
      ''  primary_key {'',
      ''    columns = [column.id]'',
      ''  }'',
      ''}'']\<close>

definition authContent :: string where
  \<open>authContent = of_lines
     [''providers:'',
      ''  - type: email'',
      ''    enabled: true'',
      ''rules:'',
      ''  - role: "*"'',
      ''    allow: true'',
      '''']\<close>

definition logicFront :: "string list" where
  \<open>logicFront =
     [''target: main'',
      ''access: public'',
      ''params:'',
      ''  name:'',
      ''    type: string'',
      ''    required: false'',
      ''    default: "World"'']\<close>

definition logicBody :: "string list" where
  \<open>logicBody =
     [''export default async function(context) {'',
      ''  const { name } = context.params;'',
      ''  return {'',
      ''    message: "Hello, " + name + "!"'',
      ''  };'',
      ''}'']\<close>

definition logicContent :: string where
  "logicContent = of_lines ([''---''] @ logicFront @ [''---'', ''''] @ logicBody)"

definition configContent :: string where
  \<open>configContent = of_lines
     [''{'',
      ''  "project_id": "",'',
      ''  "codegen": {'',
      ''    "output": ".stk/santokit-env.d.ts"'',
      ''  }'',
      ''}'']\<close>

definition typesContent :: string where
  "typesContent = of_lines [''import '' @ [CHR 0x27] @ ''@santokit/client'' @ [CHR 0x27] @ '';'', '''']"

definition tsconfigContent :: string where
  \<open>tsconfigContent = of_lines
     [''{'',
      ''  "compilerOptions": {'',
      ''    "target": "ES2020",'',
      ''    "module": "ESNext",'',
      ''    "moduleResolution": "Bundler",'',
      ''    "strict": true,'',
      ''    "skipLibCheck": true'',
      ''  },'',
      ''  "include": ['',
      ''    "src",'',
      ''    ".stk/**/*.d.ts"'',
      ''  ]'',
      ''}'']\<close>

section \<open>The command\<close>

definition init_dirs :: "string \<Rightarrow> string list" where
  "init_dirs name =
     [path_join [name, ''schema''], path_join [name, ''config''], path_join [name, ''logic''],
      path_join [name, ''logic'', ''hello''], path_join [name, ''.stk'']]"

fun make_dirs :: "string list \<Rightarrow> fs \<Rightarrow> unit res \<times> fs" where
  "make_dirs [] w = (Inr (), w)"
| "make_dirs (dir # dirs) w =
     (case os_MkdirAll dir w of
        (Inl e, w') \<Rightarrow> (Inl (ErrWrap (''Failed to create directory '' @ dir @ '': '') e), w')
      | (Inr _, w') \<Rightarrow> make_dirs dirs w')"

text \<open>The files that are written whether they exist or not, with the text of their errors.\<close>

definition init_files :: "string \<Rightarrow> (string \<times> string \<times> string) list" where
  "init_files name =
     [(''Failed to create sample schema: '', path_join [name, ''schema'', ''main.hcl''], schemaContent),
      (''Failed to create sample config: '', path_join [name, ''config'', ''auth.yaml''], authContent),
      (''Failed to create sample logic: '', path_join [name, ''logic'', ''hello'', ''ping.js''], logicContent),
      (''Failed to create project config: '', path_join [name, ''stk.config.json''], configContent),
      (''Failed to create types placeholder: '', path_join [name, ''.stk'', ''types.d.ts''], typesContent)]"

fun write_files :: "(string \<times> string \<times> string) list \<Rightarrow> fs \<Rightarrow> unit res \<times> fs" where
  "write_files [] w = (Inr (), w)"
| "write_files ((failed, path, content) # files) w =
     (case os_WriteFile path content w of
        (Inl e, w') \<Rightarrow> (Inl (ErrWrap failed e), w')
      | (Inr _, w') \<Rightarrow> write_files files w')"

definition write_tsconfig :: "string \<Rightarrow> fs \<Rightarrow> unit res \<times> fs" where
  "write_tsconfig name w =
     (let tsconfigPath = path_join [name, ''tsconfig.json''] in
      case os_Lstat tsconfigPath w of
        (Inl e, w') \<Rightarrow>
          if e = ErrNotExist
          then (case os_WriteFile tsconfigPath tsconfigContent w' of
                  (Inl e, w'') \<Rightarrow> (Inl (ErrWrap ''Failed to create tsconfig.json: '' e), w'')
                | (Inr _, w'') \<Rightarrow> (Inr (), w''))
          else (Inr (), w')
      | (Inr _, w') \<Rightarrow> (Inr (), w'))"

definition init_project :: "string \<Rightarrow> fs \<Rightarrow> unit res \<times> fs" where
  "init_project projectName w =
     (let name = (if projectName = [] then ''.'' else projectName) in
      case make_dirs (init_dirs name) w of
        (Inl e, w1) \<Rightarrow> (Inl e, w1)
      | (Inr _, w1) \<Rightarrow>
          (case write_files (init_files name) w1 of
             (Inl e, w2) \<Rightarrow> (Inl e, w2)
           | (Inr _, w2) \<Rightarrow> write_tsconfig name w2))"

section \<open>Directories and files that can be made\<close>

lemma in_prefixes: "q \<in> set (prefixes_of k) \<longleftrightarrow> q \<noteq> [] \<and> (\<exists>t. k = q @ t)"
proof -
  have "q \<in> set (prefixes_of k) \<longleftrightarrow> (\<exists>n. 0 < n \<and> n \<le> length k \<and> q = take n k)"
    by (auto simp: prefixes_of_def simp del: upt_Suc) (metis Suc_le_eq less_Suc_eq_le)
  also have "\<dots> \<longleftrightarrow> q \<noteq> [] \<and> (\<exists>t. k = q @ t)"
  proof
    assume "q \<noteq> [] \<and> (\<exists>t. k = q @ t)"
    then show "\<exists>n. 0 < n \<and> n \<le> length k \<and> q = take n k"
      by (intro exI [of _ "length q"]) auto
  qed (metis append_take_drop_id length_0_conv length_take min.absorb2 not_gr_zero)
  finally show ?thesis .
qed

lemma MkdirAll_ok:
  assumes "fs_healthy w" and "\<not> file_in_way w (path_key d)"
  shows "\<exists>w'. os_MkdirAll d w = (Inr (), w') \<and> fs_healthy w' \<and> fs_files w' = fs_files w \<and>
    fs_dirs w' = fs_dirs w @ filter (\<lambda>k. \<not> dir_exists w k) (prefixes_of (path_key d))"
proof -
  obtain u where u: "os_fault w = (False, u)" "fs_healthy u" "same_tree u w"
    using os_fault_healthy [OF assms(1)] by (auto simp: same_tree_def)
  have "dir_exists u = dir_exists w" "file_in_way u = file_in_way w"
    using same_tree_eqs [OF u(3)] by auto
  with u assms(2) show ?thesis
    by (auto simp: os_MkdirAll_def Let_def fs_healthy_def same_tree_def)
qed

text \<open>Directories keep the file system well-formed, for a path of plain names.\<close>

lemma MkdirAll_wf:
  assumes wf: "fs_wf w" and k: "abs_key k" and way: "\<not> file_in_way w k"
    and w': "fs_files w' = fs_files w" "fs_dirs w' = fs_dirs w @ filter (\<lambda>k. \<not> dir_exists w k) (prefixes_of k)"
  shows "fs_wf w' \<and> (\<forall>q. dir_exists w' q \<longleftrightarrow> dir_exists w q \<or> q \<in> set (prefixes_of k))"
proof -
  have ex: "dir_exists w' q \<longleftrightarrow> dir_exists w q \<or> q \<in> set (prefixes_of k)" for q
    by (auto simp: dir_exists_def w')
  have new: "q \<noteq> [] \<and> q \<noteq> [[slash]] \<and> dir_exists w' (butlast q) \<and> plain_elem (last q) \<and> map_of (fs_files w) q = None"
    if q: "q \<in> set (prefixes_of k)" "\<not> dir_exists w q" for q
  proof -
    obtain t where t: "k = q @ t" "q \<noteq> []" using q(1) by (auto simp: in_prefixes)
    have top: "q \<noteq> [[slash]]" using q(2) by (auto simp: dir_exists_def top_dir_def)
    have "hd q = [slash]" and pl: "\<forall>e \<in> set (tl q). plain_elem e"
      using k t by (auto simp: abs_key_def)
    with t(2) top have tl: "tl q \<noteq> []" by (cases q) auto
    then have "plain_elem (last q)" using pl t(2) by (metis last_in_set last_tl)
    moreover have "butlast q \<noteq> []" using tl by (cases q) auto
    then have "butlast q \<in> set (prefixes_of k)"
      unfolding in_prefixes t(1) by (metis append_assoc append_butlast_last_id t(2))
    then have "dir_exists w' (butlast q)" by (simp add: ex)
    moreover have "map_of (fs_files w) q = None"
      using way q(1) by (auto simp: file_in_way_def list_ex_iff)
    ultimately show ?thesis using t(2) top by blast
  qed
  have "fs_wf w'"
    unfolding fs_wf_def w' using wf new ex by (auto simp: fs_wf_def)
  with ex show ?thesis by blast
qed

lemma make_dirs_ok:
  assumes "fs_healthy w" and "fs_wf w"
    and "\<forall>d \<in> set ds. abs_key (path_key d) \<and> \<not> file_in_way w (path_key d)"
  shows "\<exists>w'. make_dirs ds w = (Inr (), w') \<and> fs_healthy w' \<and> fs_wf w' \<and> fs_files w' = fs_files w \<and>
    (\<forall>q. dir_exists w' q \<longleftrightarrow> dir_exists w q \<or> (\<exists>d \<in> set ds. q \<in> set (prefixes_of (path_key d))))"
  using assms
proof (induction ds arbitrary: w)
  case (Cons d ds)
  then obtain w1 where w1: "os_MkdirAll d w = (Inr (), w1)" "fs_healthy w1" "fs_files w1 = fs_files w"
    "fs_dirs w1 = fs_dirs w @ filter (\<lambda>k. \<not> dir_exists w k) (prefixes_of (path_key d))"
    using MkdirAll_ok [of w d] by auto
  have wf1: "fs_wf w1" and ex: "\<forall>q. dir_exists w1 q \<longleftrightarrow> dir_exists w q \<or> q \<in> set (prefixes_of (path_key d))"
    using MkdirAll_wf [OF Cons.prems(2) _ _ w1(3,4)] Cons.prems(3) by auto
  have "\<forall>d \<in> set ds. abs_key (path_key d) \<and> \<not> file_in_way w1 (path_key d)"
    using Cons.prems(3) w1(3) by (simp add: file_in_way_def)
  from Cons.IH [OF w1(2) wf1 this] w1(1,3) ex show ?case by auto
qed simp

lemma WriteFile_ok:
  assumes "fs_healthy w" and "\<not> dir_exists w (path_key p)" and "dir_exists w (butlast (path_key p))"
  shows "\<exists>w'. os_WriteFile p data w = (Inr (), w') \<and> fs_healthy w' \<and> fs_dirs w' = fs_dirs w \<and>
    fs_files w' = gm_put (path_key p) data (fs_files w)"
  using os_fault_healthy [OF assms(1)] assms(2,3)
  by (auto simp: os_WriteFile_def Let_def fs_healthy_def dir_exists_def)

lemma WriteFile_wf:
  assumes "fs_wf w" and "\<not> dir_exists w k" and "dir_exists w (butlast k)" and "plain_elem (last k)"
    and "fs_dirs w' = fs_dirs w" and "fs_files w' = gm_put k data (fs_files w)"
  shows "fs_wf w'"
proof -
  have "k \<noteq> []" "k \<noteq> [[slash]]" using assms(2) by (auto simp: dir_exists_def top_dir_def)
  moreover have "set (map fst (fs_files w')) = insert k (set (map fst (fs_files w)))"
    by (simp add: assms(6))
  ultimately show ?thesis
    using assms by (auto simp: fs_wf_def dir_exists_def)
qed

lemma write_files_ok:
  assumes "fs_healthy w" and "fs_wf w"
    and "\<forall>(f, p, data) \<in> set xs. \<not> dir_exists w (path_key p) \<and> dir_exists w (butlast (path_key p)) \<and>
      plain_elem (last (path_key p))"
  shows "\<exists>w'. write_files xs w = (Inr (), w') \<and> fs_healthy w' \<and> fs_wf w' \<and> fs_dirs w' = fs_dirs w \<and>
    map_of (fs_files w') = foldl (\<lambda>m (f, p, data). m(path_key p \<mapsto> data)) (map_of (fs_files w)) xs"
  using assms
proof (induction xs arbitrary: w)
  case (Cons x xs)
  obtain f p data where x: "x = (f, p, data)" by (cases x)
  with Cons.prems WriteFile_ok [of w p data] obtain w1 where
    w1: "os_WriteFile p data w = (Inr (), w1)" "fs_healthy w1" "fs_dirs w1 = fs_dirs w"
      "fs_files w1 = gm_put (path_key p) data (fs_files w)"
    by auto
  have wf1: "fs_wf w1"
    using WriteFile_wf [OF Cons.prems(2) _ _ _ w1(3,4)] Cons.prems(3) x by auto
  have "dir_exists w1 = dir_exists w" using w1(3) by (auto simp: dir_exists_def)
  with Cons.IH [OF w1(2) wf1] Cons.prems(3) show ?case
    using w1 x by auto
qed simp

section \<open>A new project\<close>

lemma join_names:
  assumes "is_abs root" and "es \<noteq> []" and "\<forall>e \<in> set es. plain_elem e"
  shows "path_join (root # es) = path_of (path_key root @ es) \<and> path_key (path_join (root # es)) = path_key root @ es"
proof -
  have "path_join (root # es) = path_join [root, join_with [slash] es]"
    using assms(1,2) by (cases root; cases es) auto
  also have "\<dots> = path_of (path_key root @ es)"
    using path_join_clean [OF assms] assms(1) by (simp add: path_key_def)
  finally have *: "path_join (root # es) = path_of (path_key root @ es)" .
  moreover have "abs_key (path_key root @ es)"
    using abs_key_path_key [OF assms(1)] assms(3) by (auto simp: abs_key_def)
  ultimately show ?thesis by (simp add: path_key_path_of)
qed

definition init_names :: "string list list" where
  "init_names = [[''schema'', ''main.hcl''], [''config'', ''auth.yaml''], [''logic'', ''hello'', ''ping.js''],
     [''stk.config.json''], [''.stk'', ''types.d.ts'']]"

lemma plain_names:
  "plain_elem ''schema''" "plain_elem ''config''" "plain_elem ''logic''" "plain_elem ''hello''" "plain_elem ''.stk''"
  "plain_elem ''main.hcl''" "plain_elem ''auth.yaml''" "plain_elem ''ping.js''" "plain_elem ''stk.config.json''"
  "plain_elem ''types.d.ts''" "plain_elem ''tsconfig.json''"
  by (simp_all add: plain_elem_def)

text \<open>What the command makes of a file system in which nothing is in the way.\<close>

definition init_tree :: "string list \<Rightarrow> fs \<Rightarrow> (string list \<rightharpoonup> string)" where
  "init_tree K w =
     (let m = (map_of (fs_files w))(K @ [''schema'', ''main.hcl''] \<mapsto> schemaContent,
            K @ [''config'', ''auth.yaml''] \<mapsto> authContent,
            K @ [''logic'', ''hello'', ''ping.js''] \<mapsto> logicContent,
            K @ [''stk.config.json''] \<mapsto> configContent,
            K @ [''.stk'', ''types.d.ts''] \<mapsto> typesContent)
      in (if entry_at w (K @ [''tsconfig.json'']) then m else m(K @ [''tsconfig.json''] \<mapsto> tsconfigContent)))"

definition init_clear :: "string list \<Rightarrow> fs \<Rightarrow> bool" where
  "init_clear K w \<longleftrightarrow>
     (\<forall>d \<in> {[''schema''], [''config''], [''logic'', ''hello''], [''.stk'']}. \<not> file_in_way w (K @ d)) \<and>
     (\<forall>f \<in> set init_names. \<not> dir_exists w (K @ f))"

lemma file_in_way_iff: "file_in_way w k \<longleftrightarrow> (\<exists>q t. k = q @ t \<and> q \<noteq> [] \<and> map_of (fs_files w) q \<noteq> None)"
  by (auto simp: file_in_way_def list_ex_iff Bex_def in_prefixes)

lemma file_in_way_append: "file_in_way w k \<Longrightarrow> file_in_way w (k @ t)"
  unfolding file_in_way_iff by (metis append_assoc)

text \<open>Looking at a name that is free.\<close>

lemma Lstat_free:
  assumes "fs_healthy w" and "\<not> entry_at w (path_key p)" and "\<not> file_in_way w (path_key p)"
  shows "\<exists>w'. os_Lstat p w = (Inl ErrNotExist, w') \<and> fs_healthy w' \<and> same_tree w' w"
proof -
  obtain f u where f: "os_fault w = (f, u)" by fastforce
  with os_fault_tree [OF f] assms show ?thesis
    using same_tree_eqs [of u w "path_key p"] by (auto simp: os_Lstat_def Let_def entry_at_def same_tree_def)
qed

lemma same_tree_wf: "same_tree u w \<Longrightarrow> fs_wf w \<Longrightarrow> fs_wf u"
  by (simp add: same_tree_def fs_wf_def dir_exists_def)

lemma write_tsconfig_ok:
  assumes wf: "fs_wf w" and h: "fs_healthy w" and k: "path_key (path_join [name, ''tsconfig.json'']) = K @ [''tsconfig.json'']"
    and K: "dir_exists w K" and way: "entry_at w (K @ [''tsconfig.json'']) \<or> \<not> file_in_way w (K @ [''tsconfig.json''])"
  shows "\<exists>w'. write_tsconfig name w = (Inr (), w') \<and> fs_wf w' \<and> fs_healthy w' \<and> fs_dirs w' = fs_dirs w \<and>
    map_of (fs_files w') =
      (if entry_at w (K @ [''tsconfig.json'']) then map_of (fs_files w)
       else (map_of (fs_files w))(K @ [''tsconfig.json''] \<mapsto> tsconfigContent))"
proof (cases "entry_at w (K @ [''tsconfig.json''])")
  case True
  let ?p = "path_join [name, ''tsconfig.json'']"
  obtain r w1 where ls: "os_Lstat ?p w = (r, w1)" by fastforce
  from Lstat_tree [OF ls, unfolded k] h True have w1: "same_tree w1 w" "fs_healthy w1" "\<exists>d. r = Inr d"
    by blast+
  obtain d where "r = Inr d" using w1(3) by blast
  then have "write_tsconfig name w = (Inr (), w1)"
    unfolding write_tsconfig_def Let_def ls by simp
  moreover have "fs_wf w1" using same_tree_wf [OF w1(1) wf] .
  ultimately show ?thesis using w1 True by (auto simp: same_tree_def)
next
  case False
  let ?p = "path_join [name, ''tsconfig.json'']"
  obtain w1 where ls: "os_Lstat ?p w = (Inl ErrNotExist, w1)" "fs_healthy w1" "same_tree w1 w"
    using Lstat_free [OF h, of ?p] False way unfolding k by blast
  have d: "\<not> dir_exists w1 (path_key ?p)" "dir_exists w1 (butlast (path_key ?p))"
    unfolding k using False K same_tree_eqs [OF ls(3)] by (auto simp: entry_at_def)
  obtain w2 where w2: "os_WriteFile ?p tsconfigContent w1 = (Inr (), w2)" "fs_healthy w2" "fs_dirs w2 = fs_dirs w1"
      "fs_files w2 = gm_put (path_key ?p) tsconfigContent (fs_files w1)"
    using WriteFile_ok [OF ls(2) d] by blast
  have "fs_wf w1" using same_tree_wf [OF ls(3) wf] .
  moreover have "plain_elem (last (path_key ?p))" unfolding k by (simp add: plain_elem_def)
  ultimately have "fs_wf w2" using WriteFile_wf [OF _ d _ w2(3,4)] by blast
  with False ls w2 show ?thesis
    by (auto simp: write_tsconfig_def k same_tree_def simp del: path_join.simps)
qed

lemma init_dir_keys:
  assumes "is_abs root"
  shows "path_key ` set (init_dirs root) = (\<lambda>d. path_key root @ d) `
    {[''schema''], [''config''], [''logic''], [''logic'', ''hello''], [''.stk'']}"
  using join_names [OF assms, THEN conjunct2] plain_names
  by (auto simp: init_dirs_def simp del: path_join.simps)

lemma init_dirs_ok:
  assumes wf: "fs_wf w" and h: "fs_healthy w" and root: "is_abs root" and clear: "init_clear (path_key root) w"
  obtains w1 where "make_dirs (init_dirs root) w = (Inr (), w1)" "fs_healthy w1" "fs_wf w1" "fs_files w1 = fs_files w"
    and "\<And>d. d \<in> {[], [''schema''], [''config''], [''logic''], [''logic'', ''hello''], [''.stk'']} \<Longrightarrow>
      dir_exists w1 (path_key root @ d)"
    and "\<And>f. f \<in> set init_names \<Longrightarrow> \<not> dir_exists w1 (path_key root @ f)"
    and "dir_exists w1 (path_key root @ [''tsconfig.json'']) \<longleftrightarrow> dir_exists w (path_key root @ [''tsconfig.json''])"
proof -
  let ?K = "path_key root"
  note kset = init_dir_keys [OF root]
  have K: "abs_key ?K" using abs_key_path_key [OF root] .
  then have K0: "?K \<noteq> []" by (auto simp: abs_key_def)
  have "abs_key (path_key d) \<and> \<not> file_in_way w (path_key d)" if "d \<in> set (init_dirs root)" for d
  proof -
    have "path_key d \<in> path_key ` set (init_dirs root)" using that by blast
    then show ?thesis
      unfolding kset using K plain_names clear file_in_way_append [of w "?K @ [''logic'']" "[''hello'']"]
      by (auto simp: abs_key_def init_clear_def)
  qed
  then obtain w1 where w1: "make_dirs (init_dirs root) w = (Inr (), w1)" "fs_healthy w1" "fs_wf w1"
      "fs_files w1 = fs_files w"
    and ex: "\<forall>q. dir_exists w1 q \<longleftrightarrow> dir_exists w q \<or> (\<exists>k \<in> path_key ` set (init_dirs root). q \<in> set (prefixes_of k))"
    using make_dirs_ok [OF h wf, of "init_dirs root"] by auto
  show thesis
  proof (rule that [OF w1])
    fix d assume "d \<in> {[], [''schema''], [''config''], [''logic''], [''logic'', ''hello''], [''.stk'']}"
    then show "dir_exists w1 (?K @ d)" using ex K0 unfolding kset by (auto simp: in_prefixes)
  next
    fix f assume "f \<in> set init_names"
    then show "\<not> dir_exists w1 (?K @ f)"
      using clear ex unfolding kset by (auto simp: in_prefixes init_clear_def init_names_def)
  next
    show "dir_exists w1 (?K @ [''tsconfig.json'']) \<longleftrightarrow> dir_exists w (?K @ [''tsconfig.json''])"
      using ex unfolding kset by (auto simp: in_prefixes)
  qed
qed

lemma init_files_ok:
  assumes root: "is_abs root" and h: "fs_healthy w" and wf: "fs_wf w"
    and dirs: "\<And>d. d \<in> {[], [''schema''], [''config''], [''logic''], [''logic'', ''hello''], [''.stk'']} \<Longrightarrow>
      dir_exists w (path_key root @ d)"
    and none: "\<And>f. f \<in> set init_names \<Longrightarrow> \<not> dir_exists w (path_key root @ f)"
  obtains w' where "write_files (init_files root) w = (Inr (), w')" "fs_healthy w'" "fs_wf w'" "fs_dirs w' = fs_dirs w"
    and "map_of (fs_files w') = (map_of (fs_files w))(path_key root @ [''schema'', ''main.hcl''] \<mapsto> schemaContent,
      path_key root @ [''config'', ''auth.yaml''] \<mapsto> authContent,
      path_key root @ [''logic'', ''hello'', ''ping.js''] \<mapsto> logicContent,
      path_key root @ [''stk.config.json''] \<mapsto> configContent,
      path_key root @ [''.stk'', ''types.d.ts''] \<mapsto> typesContent)"
proof -
  note join = join_names [OF root, THEN conjunct2]
  have "\<forall>(f, p, data) \<in> set (init_files root). \<not> dir_exists w (path_key p) \<and>
      dir_exists w (butlast (path_key p)) \<and> plain_elem (last (path_key p))"
    using join plain_names dirs none dirs [of "[]"]
    by (simp add: init_files_def init_names_def butlast_append del: path_join.simps)
  from write_files_ok [OF h wf this] obtain w' where w': "write_files (init_files root) w = (Inr (), w')"
      "fs_healthy w'" "fs_wf w'" "fs_dirs w' = fs_dirs w"
    and m: "map_of (fs_files w') = foldl (\<lambda>m (f, p, data). m(path_key p \<mapsto> data)) (map_of (fs_files w)) (init_files root)"
    by blast
  show thesis
    by (rule that [OF w']) (use join plain_names in \<open>simp add: m init_files_def del: path_join.simps\<close>)
qed

text \<open>No file stands above the compiler settings: it would stand above the directories too.\<close>

lemma tsconfig_way_clear:
  assumes clear: "init_clear K w"
    and m: "\<And>q. map_of (fs_files w2) q \<noteq> None \<Longrightarrow> map_of (fs_files w) q \<noteq> None \<or> (\<exists>f. f \<noteq> [] \<and> q = K @ f)"
  shows "entry_at w2 (K @ [''tsconfig.json'']) \<or> \<not> file_in_way w2 (K @ [''tsconfig.json''])"
proof (rule disjCI)
  assume "\<not> \<not> file_in_way w2 (K @ [''tsconfig.json''])"
  then obtain q t where q: "K @ [''tsconfig.json''] = q @ t" "map_of (fs_files w2) q \<noteq> None" "q \<noteq> []"
    by (auto simp: file_in_way_iff)
  show "entry_at w2 (K @ [''tsconfig.json''])"
  proof (cases "t = []")
    case True
    with q show ?thesis by (simp add: entry_at_def)
  next
    case False
    with q(1) obtain t' where t': "K = q @ t'" by (metis butlast_append butlast_snoc)
    with m [OF q(2)] have "map_of (fs_files w) q \<noteq> None" by auto
    with q(3) t' have "file_in_way w (K @ [''schema''])" by (auto simp: file_in_way_iff)
    with clear show ?thesis by (simp add: init_clear_def)
  qed
qed

lemma init_ok:
  assumes wf: "fs_wf w" and h: "fs_healthy w" and root: "is_abs root" and clear: "init_clear (path_key root) w"
  shows "\<exists>w'. init_project root w = (Inr (), w') \<and> fs_wf w' \<and> fs_healthy w' \<and>
    map_of (fs_files w') = init_tree (path_key root) w \<and> dir_exists w' (path_key root @ [''logic''])"
proof -
  let ?K = "path_key root" and ?ts = "path_key root @ [''tsconfig.json'']"
  from init_dirs_ok [OF wf h root clear] obtain w1 where w1: "make_dirs (init_dirs root) w = (Inr (), w1)"
      "fs_healthy w1" "fs_wf w1" "fs_files w1 = fs_files w"
    and dirs: "\<And>d. d \<in> {[], [''schema''], [''config''], [''logic''], [''logic'', ''hello''], [''.stk'']} \<Longrightarrow>
      dir_exists w1 (?K @ d)"
    and none: "\<And>f. f \<in> set init_names \<Longrightarrow> \<not> dir_exists w1 (?K @ f)"
    and ts1: "dir_exists w1 ?ts \<longleftrightarrow> dir_exists w ?ts"
    by blast
  from init_files_ok [OF root w1(2,3) dirs none] obtain w2 where w2: "write_files (init_files root) w1 = (Inr (), w2)"
      "fs_healthy w2" "fs_wf w2" "fs_dirs w2 = fs_dirs w1"
    and m2: "map_of (fs_files w2) = (map_of (fs_files w1))(?K @ [''schema'', ''main.hcl''] \<mapsto> schemaContent,
      ?K @ [''config'', ''auth.yaml''] \<mapsto> authContent, ?K @ [''logic'', ''hello'', ''ping.js''] \<mapsto> logicContent,
      ?K @ [''stk.config.json''] \<mapsto> configContent, ?K @ [''.stk'', ''types.d.ts''] \<mapsto> typesContent)"
    by blast
  have ts: "entry_at w2 ?ts \<longleftrightarrow> entry_at w ?ts"
    using ts1 by (simp add: entry_at_def m2 w1(4) dir_exists_def w2(4))
  have way: "entry_at w2 ?ts \<or> \<not> file_in_way w2 ?ts"
    by (rule tsconfig_way_clear [OF clear]) (auto simp: m2 w1(4) split: if_splits)
  have tsk: "path_key (path_join [root, ''tsconfig.json'']) = ?ts"
    using join_names [OF root, THEN conjunct2] plain_names by (simp del: path_join.simps)
  have Kd: "dir_exists w2 ?K" using dirs [of "[]"] w2(4) by (simp add: dir_exists_def)
  obtain w3 where w3: "write_tsconfig root w2 = (Inr (), w3)" "fs_wf w3" "fs_healthy w3" "fs_dirs w3 = fs_dirs w2"
    and m3: "map_of (fs_files w3) = (if entry_at w2 ?ts then map_of (fs_files w2)
        else (map_of (fs_files w2))(?ts \<mapsto> tsconfigContent))"
    using write_tsconfig_ok [OF w2(3,2) tsk Kd way] by blast
  have "root \<noteq> []" using root by auto
  then have "init_project root w = (Inr (), w3)"
    by (simp add: init_project_def w1(1) w2(1) w3(1))
  moreover have "map_of (fs_files w3) = init_tree ?K w"
    unfolding m3 ts m2 w1(4) init_tree_def by simp
  moreover have "dir_exists w3 (?K @ [''logic''])"
    using dirs [of "[''logic'']"] w2(4) w3(4) by (simp add: dir_exists_def)
  ultimately show ?thesis using w3 by blast
qed

section \<open>The new project is valid\<close>

lemma strip_common_prefix: "strip_common xs (xs @ ys) = ([], ys)"
  by (induction xs) (cases ys; simp)+

lemma path_rel_below:
  assumes "abs_key k" and "es \<noteq> []" and "\<forall>e \<in> set es. plain_elem e"
  shows "path_rel (path_of k) (path_of (k @ es)) = Some (join_with [slash] es)"
proof -
  have ke: "abs_key (k @ es)" using assms(1,3) by (auto simp: abs_key_def)
  have ne: "path_clean (path_of k) \<noteq> path_clean (path_of (k @ es))"
  proof
    assume "path_clean (path_of k) = path_clean (path_of (k @ es))"
    then have "path_elems (path_of k) = path_elems (path_of (k @ es))"
      by (metis is_abs_path_of path_elems_clean)
    with assms(1,2) ke show False
      by (auto simp: path_elems_path_of abs_key_def)
  qed
  have "tl (k @ es) = tl k @ es" using assms(1) by (auto simp: abs_key_def)
  then show ?thesis
    using ne assms(1) ke
    by (simp add: path_rel_def path_elems_path_of strip_common_prefix)
qed

definition frontText :: string where
  "frontText = [CHR 0x0A] @ of_lines logicFront @ [CHR 0x0A]"

text \<open>The settings that the front matter of the sample stands for.\<close>

definition sample_config :: "'y LogicConfig" where
  "sample_config = empty_config\<lparr>Target := ''main'', Access := ''public'',
     Params := Some [(''name'', \<lparr>PType = ''string'', Required = False, Default = AnyStr ''World''\<rparr>)]\<rparr>"

lemma sample_parts:
  "logicContent = dashes @ frontText @ dashes @ [CHR 0x0A, CHR 0x0A] @ of_lines logicBody"
  "front_text frontText"
  by code_simp+

lemma sample_body:
  "trim_space (trim_right ([CHR 0x0A, CHR 0x0A] @ of_lines logicBody)) = of_lines logicBody"
  by code_simp

lemma sample_parsed:
  assumes "yaml frontText empty_config = Inr sample_config"
  shows "ParseLogicFile yaml logicContent (d @ ''ping.js'') = Inr (sample_config\<lparr>JS := of_lines logicBody\<rparr>)"
proof -
  have "\<not> has_prefix (trim_space logicContent) ''/*''"
    unfolding sample_parts(1) front_visible by simp
  note no = comment_front_none [OF this]
  have "has_suffix (d @ ''ping.js'') ''.js'' \<and> \<not> has_suffix (d @ ''ping.js'') ''.sql''"
    by (simp add: has_suffix_def)
  then show ?thesis
    unfolding ParseLogicFile_def no sum.case prod.case
    unfolding sample_parts(1) dash_front_split [OF sample_parts(2)] assms sum.case sample_body prod.case
    by (simp add: set_content_def sample_config_def empty_config_def)
qed

lemma sample_finished:
  "finish_entry \<lparr>ENamespace = ''hello'', EName = ''ping'', EPublic = True, Meta = None,
      EContent = Some (sample_config\<lparr>JS := of_lines logicBody\<rparr>)\<rparr> =
     Inr (sample_config\<lparr>CNamespace := ''hello'', CName := ''ping'', JS := of_lines logicBody\<rparr>)"
proof -
  have "\<not> blank (of_lines logicBody)" "\<not> blank ''hello''" "\<not> blank ''ping''" "\<not> blank ''public''" "blank []"
    by code_simp+
  then show ?thesis
    by (simp add: finish_entry_def applyLogicMetadata_def ValidateLogicConfig_def sample_config_def empty_config_def
        allowed_types_def)
qed

lemma ping_parts:
  assumes "abs_key k"
  shows "file_parts (path_of k) (path_of (k @ [''hello'', ''ping.js''])) = (''hello'', ''ping'', ''.js'')"
proof -
  have "path_rel (path_of k) (path_of (k @ [''hello'', ''ping.js''])) = Some ''hello/ping.js''"
    using path_rel_below [OF assms, of "[''hello'', ''ping.js'']"] plain_names by simp
  moreover have "path_split ''hello/ping.js'' = (''hello/'', ''ping.js'')" "path_ext ''ping.js'' = ''.js''"
      "path_clean ''hello/'' = ''hello''"
    by code_simp+
  ultimately show ?thesis by (simp add: file_parts_def)
qed

lemma sample_built:
  assumes root: "is_abs root" and h: "fs_healthy w"
    and stored: "map_of (fs_files w) (path_key root @ [''logic'', ''hello'', ''ping.js'']) = Some logicContent"
    and yaml: "yaml frontText empty_config = Inr sample_config" and order: "\<And>es. mset (order es) = mset es"
  shows "fst (buildLogicConfigs yaml order root
      [\<lparr>SPath = path_of (path_key root @ [''logic'', ''hello'', ''ping.js'']), SType = FileTypeJS, IsPublic = True\<rparr>] w) =
    Inr [sample_config\<lparr>CNamespace := ''hello'', CName := ''ping'', JS := of_lines logicBody\<rparr>]"
proof -
  let ?R = "path_key root @ [''logic'']"
  let ?f = "path_of (path_key root @ [''logic'', ''hello'', ''ping.js''])"
  let ?e = "\<lparr>ENamespace = ''hello'', EName = ''ping'', EPublic = True, Meta = None,
      EContent = Some (sample_config\<lparr>JS := of_lines logicBody\<rparr>)\<rparr>"
  have R: "path_join [root, ''logic''] = path_of ?R" and k: "abs_key ?R"
    using join_names [OF root, of "[''logic'']"] plain_names abs_key_snoc [OF abs_key_path_key [OF root]] by auto
  then have kf: "abs_key (path_key root @ [''logic'', ''hello'', ''ping.js''])"
    using abs_key_snoc [of "?R @ [''hello'']" "''ping.js''"] abs_key_snoc [of ?R "''hello''"] plain_names by simp
  have parts: "file_parts (path_of ?R) ?f = (''hello'', ''ping'', ''.js'')"
    using ping_parts [OF k] by simp
  obtain d where "path_split ?f = (d, ''ping.js'')"
    using path_split_path_of [of "path_key root @ [''logic'', ''hello'']" "''ping.js''"] plain_names
      abs_key_snoc [of ?R "''hello''"] k by auto
  then have "?f = d @ ''ping.js''" using path_split_parts [of ?f] by simp
  then have parsed: "ParseLogicFile yaml logicContent ?f = Inr (sample_config\<lparr>JS := of_lines logicBody\<rparr>)"
    using sample_parsed [where yaml = yaml and d = d] yaml by simp
  obtain w1 where rd: "os_ReadFile ?f w = (Inr logicContent, w1)"
    using os_fault_healthy [OF h] stored by (auto simp: os_ReadFile_def path_key_path_of [OF kf])
  have key: "entry_key ''hello'' ''ping'' = ''hello/ping''" by code_simp
  have "process_files yaml (path_of ?R) [\<lparr>SPath = ?f, SType = FileTypeJS, IsPublic = True\<rparr>] [] w =
      (Inr [(''hello/ping'', ?e)], w1)"
    by (simp add: process_file_def parts rd add_content_def parsed key gm_put_def)
  moreover have "order [(''hello/ping'', ?e)] = [(''hello/ping'', ?e)]"
    using order [of "[(''hello/ping'', ?e)]"] by (simp add: mset_single_iff_right)
  ultimately show ?thesis
    by (simp add: buildLogicConfigs_def R sample_finished del: path_join.simps)
qed

lemma is_file_below: "is_file w (k @ t) \<Longrightarrow> t \<noteq> [] \<Longrightarrow> k @ t \<in> below w k"
  by (auto simp: is_file_def below_def fs_entries_def simp flip: map_of_eq_None_iff)

text \<open>The sample is the only logic file of a new project.\<close>

lemma only_sample:
  assumes fs: "map_of (fs_files w') = init_tree (path_key root) w"
    and none: "\<forall>e \<in> below w (path_key root @ [''logic'']). \<not> is_file w e"
  shows "{e \<in> below w' (path_key root @ [''logic'']). is_file w' e} = {path_key root @ [''logic'', ''hello'', ''ping.js'']}"
proof -
  let ?R = "path_key root @ [''logic'']" and ?p = "path_key root @ [''logic'', ''hello'', ''ping.js'']"
  have "e = ?p" if e: "e \<in> below w' ?R" "is_file w' e" for e
  proof -
    obtain t where t: "e = ?R @ t" "t \<noteq> []" using e(1) unfolding below_def by blast
    have "is_file w e \<or> e = ?p"
      using e(2) t by (auto simp: is_file_def fs init_tree_def Let_def split: if_splits)
    moreover have "is_file w e \<Longrightarrow> e \<in> below w ?R"
      using t is_file_below by blast
    ultimately show ?thesis using none by blast
  qed
  moreover have "is_file w' ?p" by (simp add: is_file_def fs init_tree_def Let_def)
  moreover from this have "?p \<in> below w' ?R"
    using is_file_below [of w' ?R "[''hello'', ''ping.js'']"] by simp
  ultimately show ?thesis by blast
qed

text \<open>
  Property C39. In a directory in which nothing is in the way and no logic file exists, \<open>stk init\<close>
  succeeds; afterwards the file system differs from the one before in exactly the sample files, which are
  written over existing ones, except that an existing \<open>tsconfig.json\<close> is kept.  \<open>stk logic validate\<close>
  accepts the new project: the scan finds the one sample, and it builds to the configuration of its front
  matter with its code, in the namespace of its directory.
\<close>

theorem init_then_validates:
  assumes "fs_wf w" and "fs_healthy w" and "is_abs root" and "init_clear (path_key root) w"
    and "\<forall>e \<in> below w (path_key root @ [''logic'']). \<not> is_file w e"
    and "yaml frontText empty_config = Inr sample_config" and "\<And>es. mset (order es) = mset es"
  shows "\<exists>w'. init_project root w = (Inr (), w') \<and> map_of (fs_files w') = init_tree (path_key root) w \<and>
    (\<exists>files w1. ScanLogic (new_scanner root) w' = (Inr files, w1) \<and>
       fst (buildLogicConfigs yaml order root files w1) =
         Inr [sample_config\<lparr>CNamespace := ''hello'', CName := ''ping'', JS := of_lines logicBody\<rparr>]) \<and>
    fst (logic_validate yaml order root w') = Inr ()"
proof -
  let ?R = "path_key root @ [''logic'']" and ?p = "path_key root @ [''logic'', ''hello'', ''ping.js'']"
  obtain w' where w': "init_project root w = (Inr (), w')" "fs_wf w'" "fs_healthy w'"
      "map_of (fs_files w') = init_tree (path_key root) w" "dir_exists w' ?R"
    using init_ok [OF assms(1-4)] by blast
  have R: "path_join [root, ''logic''] = path_of ?R" and k: "abs_key (path_key root)"
    using join_names [OF assms(3), of "[''logic'']"] plain_names abs_key_path_key [OF assms(3)] by auto
  have ak: "abs_key ?R" using abs_key_snoc [OF k] plain_names by simp
  have stored: "map_of (fs_files w') ?p = Some logicContent" by (simp add: w'(4) init_tree_def Let_def)
  have only: "{e \<in> below w' ?R. is_file w' e} = {?p}"
    by (rule only_sample [OF w'(4) assms(5)])
  obtain ks where "distinct ks" "set ks = {?p}"
    and scan: "\<And>files w1. scanDir (path_of ?R) w' = (Inr files, w1) \<Longrightarrow> files = List.map_filter scanned ks"
    using scan_ok [OF w'(2) k plain_names(3)] only
    by (auto simp: file_type_def path_ext_def path_split_def)
  then have ks: "ks = [?p]" by (cases ks; cases "tl ks") auto
  obtain files w1 where sc: "scanDir (path_of ?R) w' = (Inr files, w1)" and h1: "fs_healthy w1" and t1: "same_tree w1 w'"
    using Walk_ok [OF w'(2) ak, of scan_visit "[]"] w'(3,5)
    by (cases "scanDir (path_of ?R) w'") (auto simp: walked_def scanDir_def entry_at_def is_ok_iff)
  have "path_ext ''ping.js'' = ''.js''" by code_simp
  then have files: "files = [\<lparr>SPath = path_of ?p, SType = FileTypeJS, IsPublic = True\<rparr>]"
    using scan [OF sc] by (simp add: ks map_filter_simps scanned_def file_type_def)
  have "map_of (fs_files w1) ?p = Some logicContent" using stored t1 by (simp add: same_tree_def)
  note built = sample_built [where yaml = yaml and order = order, OF assms(3) h1 this assms(6,7), folded files]
  have sl: "ScanLogic (new_scanner root) w' = (Inr files, w1)"
    using sc by (simp add: ScanLogic_def new_scanner_def R del: path_join.simps)
  then have "fst (logic_validate yaml order root w') = Inr ()"
    using built files by (cases "buildLogicConfigs yaml order root files w1") (simp add: logic_validate_def)
  with w' sl built show ?thesis by blast
qed

text \<open>A home directory with a file of its own in the project's directory.\<close>

definition work_fs :: fs where
  "work_fs = \<lparr>fs_dirs = [[''/'', ''work'']], fs_files = [([''/'', ''work'', ''tsconfig.json''], ''{}'')], fs_faults = []\<rparr>"

theorem init_then_validates_witness:
  "\<exists>w'. init_project ''/work'' work_fs = (Inr (), w') \<and>
     map_of (fs_files w') [''/'', ''work'', ''tsconfig.json''] = Some ''{}'' \<and>
     map_of (fs_files w') [''/'', ''work'', ''config'', ''auth.yaml''] = Some authContent"
proof -
  have key: "path_key ''/work'' = [''/'', ''work'']" by code_simp
  have wf: "fs_wf work_fs" "fs_healthy work_fs" by code_simp+
  have clear: "init_clear (path_key ''/work'') work_fs"
    unfolding key by (auto simp: init_clear_def init_names_def work_fs_def file_in_way_iff dir_exists_def top_dir_def split: if_splits)
  have none: "\<forall>e \<in> below work_fs (path_key ''/work'' @ [''logic'']). \<not> is_file work_fs e"
    unfolding key by (auto simp: below_def fs_entries_def work_fs_def)
  have "mset (rev es) = mset es" for es :: "(string, unit logicEntry) gomap" by simp
  from init_then_validates [where yaml = "\<lambda>s c. Inr sample_config" and order = rev, OF wf _ clear none refl this]
  obtain w' where "init_project ''/work'' work_fs = (Inr (), w')"
      "map_of (fs_files w') = init_tree (path_key ''/work'') work_fs"
    by auto
  moreover have "entry_at work_fs [''/'', ''work'', ''tsconfig.json'']"
    by (simp add: entry_at_def work_fs_def)
  ultimately show ?thesis by (simp add: init_tree_def Let_def key work_fs_def)
qed

end
