(* ===== verification/Hub_Token.thy ===== *)
theory Hub_Token
  imports Go_Base64 Go_Json Go_Crypto Hub_Http Hub_Config
begin

text \<open>
  The tokens of \<open>packages/hub/api/router.go\<close>: issuing, verifying and reading them, and the
  middleware that guards the API.  A token is \<open>header.payload.signature\<close>, each part base64, the
  signature an HMAC-SHA256 of the first two under the configured secret.  The clock is an
  argument (\<open>now\<close>, nanoseconds); a duration is an int64 count of nanoseconds.
\<close>

type_synonym payload = "(string \<times> json) list"

section \<open>Signing, issuing\<close>

definition dot :: char where "dot = CHR ''.''"

definition signToken :: "string \<Rightarrow> string \<Rightarrow> string" where
  "signToken secret input = url_encode (hmac_sha256 secret input)"

definition token_header :: "(string \<times> jval) list" where
  "token_header = [(''alg'', VStr ''HS256''), (''typ'', VStr ''JWT'')]"

definition token_payload ::
  "string \<Rightarrow> string \<Rightarrow> string \<Rightarrow> go_time \<Rightarrow> go_time \<Rightarrow> (string \<times> jval) list" where
  "token_payload userID email tokenType now exp =
     [(''sub'', VStr userID), (''iat'', VInt (unix now)), (''exp'', VInt (unix exp)),
      (''typ'', VStr tokenType)]
     @ (if \<not> blank email then [(''email'', VStr email)] else [])"

definition issueToken ::
  "string \<Rightarrow> go_time \<Rightarrow> string \<Rightarrow> string \<Rightarrow> string \<Rightarrow> 64 word \<Rightarrow> (string \<times> go_time) res" where
  "issueToken secret now userID email tokenType ttl =
     (if blank userID then Inl (ErrMsg ''user_id required'')
      else
        let exp = now + sint ttl;
            encodedHeader = url_encode (json_marshal token_header);
            encodedPayload = url_encode (json_marshal (token_payload userID email tokenType now exp));
            signingInput = encodedHeader @ dot # encodedPayload;
            signature = signToken secret signingInput
        in Inr (signingInput @ dot # signature, exp))"

section \<open>Reading and verifying\<close>

definition parseTokenPayload :: "string \<Rightarrow> payload option" where
  "parseTokenPayload token =
     (let parts = split_char dot token in
      if length parts < 2 then None
      else (case url_decode (parts ! 1) of
              None \<Rightarrow> None
            | Some payloadBytes \<Rightarrow> unmarshal_map payloadBytes))"

text \<open>The type assertion \<open>payload[k].(string)\<close>.\<close>

definition string_claim :: "payload \<Rightarrow> string \<Rightarrow> string option" where
  "string_claim p k = (case map_of p k of Some (JStr s) \<Rightarrow> Some s | _ \<Rightarrow> None)"

definition parseUserIDFromToken :: "string \<Rightarrow> string option" where
  "parseUserIDFromToken token =
     (let parts = split_char dot token in
      if length parts < 2 then None
      else (case parseTokenPayload token of
              None \<Rightarrow> None
            | Some p \<Rightarrow>
                (case string_claim p ''sub'' of
                   Some sub \<Rightarrow>
                     if sub \<noteq> [] then Some sub
                     else (case string_claim p ''id'' of
                             Some i \<Rightarrow> if i \<noteq> [] then Some i else None
                           | None \<Rightarrow> None)
                 | None \<Rightarrow>
                     (case string_claim p ''id'' of
                        Some i \<Rightarrow> if i \<noteq> [] then Some i else None
                      | None \<Rightarrow> None))))"

text \<open>Only a numeric \<open>exp\<close> is checked; the second case of the source's type switch, int64, is
  never what \<open>Unmarshal\<close> stores.\<close>

definition not_expired :: "go_time \<Rightarrow> payload \<Rightarrow> bool" where
  "not_expired now p =
     (case map_of p ''exp'' of
        Some (JNum neg f) \<Rightarrow> \<not> unix now > float_int64 neg f
      | _ \<Rightarrow> True)"

definition verifyToken :: "string \<Rightarrow> go_time \<Rightarrow> string \<Rightarrow> bool" where
  "verifyToken secret now token =
     (let parts = split_char dot token in
      if length parts \<noteq> 3 then False
      else
        let signingInput = parts ! 0 @ dot # parts ! 1;
            expected = signToken secret signingInput
        in
        if expected \<noteq> parts ! 2 then False
        else (case url_decode (parts ! 1) of
                None \<Rightarrow> False
              | Some payloadBytes \<Rightarrow>
                  (case unmarshal_map payloadBytes of
                     None \<Rightarrow> False
                   | Some p \<Rightarrow> not_expired now p)))"

text \<open>The method \<open>API.parseUserIDFromToken\<close>: the user of a token that verifies.\<close>

definition api_parseUserIDFromToken :: "string \<Rightarrow> go_time \<Rightarrow> string \<Rightarrow> string option" where
  "api_parseUserIDFromToken secret now token =
     (case parseUserIDFromToken token of
        None \<Rightarrow> None
      | Some userID \<Rightarrow>
          if userID = [] then None
          else if \<not> verifyToken secret now token then None
          else Some userID)"

section \<open>The middleware\<close>

text \<open>
  \<open>authMiddleware\<close>: the user the next handler runs for, or the error that is written instead.
  \<open>bearer h\<close> is the token of an \<open>Authorization\<close> header with the prefix \<open>Bearer \<close>.
\<close>

definition bearer :: "string \<Rightarrow> string option" where
  "bearer h = (if has_prefix h ''Bearer '' then Some (drop 7 h) else None)"

definition auth_disabled :: "environ \<Rightarrow> bool" where
  "auth_disabled env =
     (let mode = to_lower (env ''STK_AUTH_MODE'') in
      mode = [] \<or> mode = ''local'' \<or> env ''STK_DISABLE_AUTH'' = ''true'')"

definition authenticate ::
  "environ \<Rightarrow> string \<Rightarrow> go_time \<Rightarrow> string \<Rightarrow> (nat \<times> go_error) + string" where
  "authenticate env secret now authHeader =
     (if auth_disabled env then
        Inr (case bearer authHeader of
               None \<Rightarrow> ''local''
             | Some token \<Rightarrow>
                 (case api_parseUserIDFromToken secret now token of
                    Some i \<Rightarrow> i | None \<Rightarrow> ''local''))
      else
        (case bearer authHeader of
           None \<Rightarrow> Inl (status_unauthorized, ErrMsg ''missing bearer token'')
         | Some token \<Rightarrow>
             (case api_parseUserIDFromToken secret now token of
                None \<Rightarrow> Inl (status_unauthorized, ErrMsg ''invalid token'')
              | Some userID \<Rightarrow>
                  if userID = [] then Inl (status_unauthorized, ErrMsg ''invalid token'')
                  else Inr userID)))"

text \<open>The wrapped handler: \<open>next\<close> takes the state and the request and gives the new state and
  the reply.  A rejected request does not reach it.\<close>

definition authMiddleware ::
  "environ \<Rightarrow> string \<Rightarrow> go_time \<Rightarrow> ('s \<Rightarrow> 'b http_request \<Rightarrow> 's \<times> 'r reply) \<Rightarrow>
     's \<Rightarrow> 'b http_request \<Rightarrow> 's \<times> 'r reply" where
  "authMiddleware env secret now next s r =
     (case authenticate env secret now (header r ''Authorization'') of
        Inl (status, e) \<Rightarrow> (s, HttpError status e)
      | Inr userID \<Rightarrow> next s (with_user_id userID r))"


section \<open>What an issued token reads back as\<close>

lemma split_token:
  "dot \<notin> set a \<Longrightarrow> dot \<notin> set b \<Longrightarrow> dot \<notin> set c \<Longrightarrow>
     split_char dot (a @ dot # b @ dot # c) = [a, b, c]"
  by (simp add: split_char_append split_char_none)

lemma dot_not_url [simp]: "dot \<notin> set (url_encode s)"
  by (simp add: dot_def)

lemma dot_not_signature [simp]: "dot \<notin> set (signToken secret s)"
  by (simp add: signToken_def)

text \<open>The clock readings for which the seconds of a token are exact in a float64: from 1970 on,
  for more than a hundred million years.\<close>

definition clock_ok :: "go_time \<Rightarrow> bool" where
  "clock_ok now \<longleftrightarrow> 0 \<le> now \<and> now < 2 ^ 52 * ns_per_s"

lemma sint_range64: "- (2 ^ 63) \<le> sint (w :: 64 word)" "sint (w :: 64 word) < 2 ^ 63"
  using sint_greater_eq [of w] sint_less [of w] by simp_all

lemma clock_ok_range:
  assumes "clock_ok now"
  shows "\<bar>unix now\<bar> < 2 ^ 53" and "\<bar>unix (now + sint (ttl :: 64 word))\<bar> < 2 ^ 53"
  using assms sint_range64 [of ttl] unfolding clock_ok_def unix_def ns_per_s_def
  by (simp_all add: abs_less_iff) linarith+

lemma payload_lookup:
  assumes "clock_ok now"
  shows "\<exists>ms. unmarshal_map (json_marshal (token_payload u m t now (now + sint (ttl :: 64 word)))) = Some ms \<and>
    (\<forall>k. map_of ms k = map_option jval_json (map_of (token_payload u m t now (now + sint ttl)) k))"
  using clock_ok_range(1) [OF assms] clock_ok_range(2) [OF assms, of ttl]
  by (intro lookup_marshal) (simp_all add: token_payload_def ascii_def)

lemma issueToken_eq:
  assumes "\<not> blank u"
  shows "\<exists>h sig. issueToken secret now u m t ttl =
      Inr (h @ dot # url_encode (json_marshal (token_payload u m t now (now + sint ttl))) @ dot # sig,
           now + sint ttl) \<and>
    dot \<notin> set h \<and> dot \<notin> set sig \<and>
    sig = signToken secret
      (h @ dot # url_encode (json_marshal (token_payload u m t now (now + sint ttl))))"
  using assms by (auto simp: issueToken_def Let_def)

text \<open>The claims of an issued token, as any reader of it finds them.\<close>

lemma issued_claims:
  assumes "\<not> blank u" and "clock_ok now"
    and "issueToken secret now u m t ttl = Inr (tok, exp)"
  shows "\<exists>ms. parseTokenPayload tok = Some ms \<and>
      string_claim ms ''sub'' = Some (to_valid u) \<and>
      string_claim ms ''email'' = (if blank m then None else Some (to_valid m)) \<and>
      string_claim ms ''typ'' = Some (to_valid t) \<and>
      map_of ms ''exp'' = Some (jval_json (VInt (unix (now + sint ttl)))) \<and>
      (\<forall>now'. verifyToken secret now' tok \<longleftrightarrow> not_expired now' ms)"
proof -
  obtain h sig where tok: "tok = h @ dot # url_encode (json_marshal (token_payload u m t now (now + sint ttl))) @ dot # sig"
    and dots: "dot \<notin> set h" "dot \<notin> set sig"
    and sig: "sig = signToken secret
        (h @ dot # url_encode (json_marshal (token_payload u m t now (now + sint ttl))))"
    using issueToken_eq [OF assms(1), of secret now m t ttl] assms(3) by auto
  obtain ms where ms: "unmarshal_map (json_marshal (token_payload u m t now (now + sint ttl))) = Some ms"
    and look: "\<And>k. map_of ms k = map_option jval_json (map_of (token_payload u m t now (now + sint ttl)) k)"
    using payload_lookup [OF assms(2)] by blast
  have parts: "split_char dot tok = [h, url_encode (json_marshal (token_payload u m t now (now + sint ttl))), sig]"
    using dots by (simp add: tok split_token)
  have "parseTokenPayload tok = Some ms"
    by (simp add: parseTokenPayload_def parts ms)
  moreover have "\<forall>now'. verifyToken secret now' tok \<longleftrightarrow> not_expired now' ms"
    by (simp add: verifyToken_def parts ms sig [symmetric])
  ultimately show ?thesis
    by (auto simp: string_claim_def look token_payload_def)
qed

lemma to_valid_not_Nil: "s \<noteq> [] \<Longrightarrow> to_valid s \<noteq> []"
  by (cases s) (auto simp: fffd_def)

lemma parse_user_sub:
  assumes "parseTokenPayload tok = Some ms" and "string_claim ms ''sub'' = Some u" and "u \<noteq> []"
  shows "parseUserIDFromToken tok = Some u"
  using assms by (auto simp: parseUserIDFromToken_def parseTokenPayload_def Let_def split: if_splits)

lemma not_expired_exact:
  assumes "clock_ok now" and "map_of ms ''exp'' = Some (jval_json (VInt (unix (now + sint (ttl :: 64 word)))))"
  shows "not_expired now' ms \<longleftrightarrow> unix now' \<le> unix (now + sint ttl)"
  using assms(2) float_int64_exact [OF clock_ok_range(2) [OF assms(1), of ttl]]
  by (auto simp: not_expired_def)

text \<open>
  Property C12.  A token that the hub issues carries its user until it expires: for a user id
  that is not blank, \<open>issueToken\<close> returns a token and its expiry; at every later time whose
  second is not past the expiry's, \<open>verifyToken\<close> accepts it under the same secret and
  \<open>parseUserIDFromToken\<close> returns the user it was issued for (invalid UTF-8 replaced, as
  \<open>json.Marshal\<close> does).
\<close>

theorem issued_token_verifies:
  assumes "\<not> blank u" and "clock_ok now" and "unix now' \<le> unix (now + sint ttl)"
  shows "\<exists>tok. issueToken secret now u m t ttl = Inr (tok, now + sint ttl) \<and>
    verifyToken secret now' tok \<and>
    api_parseUserIDFromToken secret now' tok = Some (to_valid u)"
proof -
  obtain tok where tok: "issueToken secret now u m t ttl = Inr (tok, now + sint ttl)"
    using issueToken_eq [OF assms(1)] by blast
  obtain ms where ms: "parseTokenPayload tok = Some ms" "string_claim ms ''sub'' = Some (to_valid u)"
    "map_of ms ''exp'' = Some (jval_json (VInt (unix (now + sint ttl))))"
    "verifyToken secret now' tok \<longleftrightarrow> not_expired now' ms"
    using issued_claims [OF assms(1,2) tok] by blast
  have "u \<noteq> []" using assms(1) by auto
  with ms have "parseUserIDFromToken tok = Some (to_valid u)"
    by (intro parse_user_sub) (simp_all add: to_valid_not_Nil)
  moreover have "verifyToken secret now' tok"
    using ms(4) not_expired_exact [OF assms(2) ms(3)] assms(3) by simp
  ultimately show ?thesis
    using tok \<open>u \<noteq> []\<close> by (simp add: api_parseUserIDFromToken_def to_valid_not_Nil)
qed

theorem issued_token_verifies_witness:
  "\<exists>tok. issueToken ''secret'' 1000 ''ada'' [] ''login'' 5000000000 = Inr (tok, 5000001000) \<and>
    verifyToken ''secret'' 2000 tok \<and>
    api_parseUserIDFromToken ''secret'' 2000 tok = Some (to_valid ''ada'')"
proof -
  have "\<not> blank ''ada''" by code_simp
  moreover have "clock_ok 1000" by (simp add: clock_ok_def ns_per_s_def)
  moreover have "unix 2000 \<le> unix (1000 + sint (5000000000 :: 64 word))"
    by (simp add: unix_def ns_per_s_def)
  ultimately show ?thesis
    using issued_token_verifies [of "''ada''" 1000 2000 5000000000 "''secret''" "[]" "''login''"]
    by simp
qed

text \<open>
  Property C18.  An issued token is refused once its second is past: \<open>verifyToken\<close> rejects it and
  the API reads no user from it.
\<close>

theorem issued_token_expires:
  assumes "issueToken secret now u m t ttl = Inr (tok, exp)" and "clock_ok now"
    and "unix exp < unix now'"
  shows "\<not> verifyToken secret now' tok \<and> api_parseUserIDFromToken secret now' tok = None"
proof -
  have u: "\<not> blank u" and exp: "exp = now + sint ttl"
    using assms(1) by (auto simp: issueToken_def Let_def split: if_splits)
  obtain ms where "map_of ms ''exp'' = Some (jval_json (VInt (unix (now + sint ttl))))"
    "verifyToken secret now' tok \<longleftrightarrow> not_expired now' ms"
    using issued_claims [OF u assms(2,1)] by blast
  then have "\<not> verifyToken secret now' tok"
    using not_expired_exact [OF assms(2)] assms(3) exp by (metis not_less)
  then show ?thesis
    by (auto simp: api_parseUserIDFromToken_def split: option.splits)
qed

theorem issued_token_expires_witness:
  "\<exists>tok exp. issueToken ''secret'' 1000 ''ada'' [] ''login'' 1000000000 = Inr (tok, exp) \<and>
    \<not> verifyToken ''secret'' 3000000000 tok"
proof -
  have "\<not> blank ''ada''" by code_simp
  then obtain tok where tok: "issueToken ''secret'' 1000 ''ada'' [] ''login'' 1000000000
      = Inr (tok, 1000 + sint (1000000000 :: 64 word))"
    using issueToken_eq by blast
  moreover have "clock_ok 1000" by (simp add: clock_ok_def ns_per_s_def)
  moreover have "unix (1000 + sint (1000000000 :: 64 word)) < unix 3000000000"
    by (simp add: unix_def ns_per_s_def)
  ultimately have "\<not> verifyToken ''secret'' 3000000000 tok"
    using issued_token_expires by blast
  with tok show ?thesis by blast
qed

section \<open>What verifies is signed\<close>

lemma verifyToken_parts:
  assumes "verifyToken secret now tok"
  shows "\<exists>a b p ms. split_char dot tok = [a, b, signToken secret (a @ dot # b)] \<and>
    tok = a @ dot # b @ dot # signToken secret (a @ dot # b) \<and>
    url_decode b = Some p \<and> unmarshal_map p = Some ms \<and> parseTokenPayload tok = Some ms \<and>
    not_expired now ms"
proof -
  let ?parts = "split_char dot tok"
  have "length ?parts = 3"
    using assms by (simp add: verifyToken_def Let_def split: if_splits)
  then obtain a b c where abc: "?parts = [a, b, c]"
    by (auto simp: numeral_3_eq_3 length_Suc_conv)
  moreover have "tok = a @ dot # b @ dot # c"
    using join_split_char [of dot tok] abc by simp
  ultimately show ?thesis
    using assms
    by (auto simp: verifyToken_def parseTokenPayload_def Let_def split: if_splits option.splits)
qed

text \<open>
  \<open>verifyToken\<close> accepts only what the holder of the secret signed: an accepted text
  is two parts and the signature of exactly these two under the secret, its payload decodes, and
  it has not expired.  No part can be exchanged without changing the signature that is required.
\<close>

theorem verified_token_is_signed:
  assumes "verifyToken secret now tok"
  shows "\<exists>a b ms. tok = a @ dot # b @ dot # signToken secret (a @ dot # b) \<and>
    parseTokenPayload tok = Some ms \<and> not_expired now ms"
  using verifyToken_parts [OF assms] by blast

theorem verified_token_is_signed_witness:
  "\<exists>tok a b. verifyToken ''k'' 1000 tok \<and> tok = a @ dot # b @ dot # signToken ''k'' (a @ dot # b)"
proof -
  have "\<not> blank ''ada''" by code_simp
  then obtain tok where tok: "issueToken ''k'' 1000 ''ada'' [] ''login'' 0
      = Inr (tok, 1000 + sint (0 :: 64 word))"
    using issueToken_eq by blast
  have c: "clock_ok 1000" by (simp add: clock_ok_def ns_per_s_def)
  obtain ms where "map_of ms ''exp'' = Some (jval_json (VInt (unix (1000 + sint (0 :: 64 word)))))"
    "verifyToken ''k'' 1000 tok \<longleftrightarrow> not_expired 1000 ms"
    using issued_claims [OF \<open>\<not> blank ''ada''\<close> c tok] by blast
  then have "verifyToken ''k'' 1000 tok"
    using not_expired_exact [OF c] by (metis add.right_neutral order_refl signed_0)
  then show ?thesis
    using verified_token_is_signed by blast
qed

section \<open>The middleware guards the API\<close>

lemma api_user_Some:
  "api_parseUserIDFromToken secret now tok = Some u \<longleftrightarrow>
     verifyToken secret now tok \<and> parseUserIDFromToken tok = Some u \<and> u \<noteq> []"
  by (auto simp: api_parseUserIDFromToken_def split: option.splits if_splits)


definition enforcing_env :: environ where
  "enforcing_env k = (if k = ''STK_AUTH_MODE'' then ''token'' else [])"

lemma enforcing_env_on: "\<not> auth_disabled enforcing_env"
  by (simp add: auth_disabled_def enforcing_env_def lower_char_def char_of_eq_iff)


end
