(* ===== verification/Hub_Vault.thy ===== *)
theory Hub_Vault
  imports "HOL-Library.Multiset" Go_Base64 Go_Crypto Sql_Store
begin

text \<open>
  The vault: \<open>packages/hub/internal/vault/vault.go\<close> (the service, which encrypts), and its two
  repositories, \<open>store/memory/vault.go\<close> (maps) and \<open>store/sqlstore/vault.go\<close> (a table).  The Go
  interface \<open>vault.Repository\<close> is a record of operations over a state; what the service relies
  on is the locale \<open>vault_repository\<close>, and both repositories are interpretations of it.
\<close>

section \<open>Types\<close>

record Secret =
  SKey :: string
  EncryptedVal :: string
  SProjectID :: string

record 's VaultRepository =
  repo_get :: "string \<Rightarrow> string \<Rightarrow> 's \<Rightarrow> Secret res \<times> 's"
  repo_set :: "Secret \<Rightarrow> 's \<Rightarrow> unit res \<times> 's"
  repo_delete :: "string \<Rightarrow> string \<Rightarrow> 's \<Rightarrow> unit res \<times> 's"
  repo_list :: "string \<Rightarrow> 's \<Rightarrow> string list res \<times> 's"

text \<open>The service keeps its key; \<open>NewService\<close> takes keys of 32 bytes only.\<close>

record vault_service =
  encryptionKey :: string

definition new_vault_service :: "string \<Rightarrow> vault_service res" where
  "new_vault_service key =
     (if length key \<noteq> 32 then Inl ErrInvalidKey else Inr \<lparr>encryptionKey = key\<rparr>)"

section \<open>Encryption\<close>

definition nonce_size :: nat where "nonce_size = 12"

text \<open>
  \<open>encrypt\<close> and \<open>decrypt\<close>.  \<open>rnd\<close> is the outcome of reading a nonce from the random source,
  \<open>None\<close> for an error.  The nonce is stored in front of the sealed text.
\<close>

definition seal_with :: "string \<Rightarrow> string option \<Rightarrow> string \<Rightarrow> string res" where
  "seal_with key rnd plaintext =
     (case new_cipher key of
        Inl e \<Rightarrow> Inl e
      | Inr block \<Rightarrow>
          (case rnd of
             None \<Rightarrow> Inl ErrIO
           | Some nonce \<Rightarrow> Inr (nonce @ gcm_seal block nonce plaintext)))"

definition encrypt :: "vault_service \<Rightarrow> string option \<Rightarrow> string \<Rightarrow> string res" where
  "encrypt s rnd plaintext = seal_with (encryptionKey s) rnd plaintext"

definition decrypt :: "vault_service \<Rightarrow> string \<Rightarrow> string res" where
  "decrypt s ciphertext =
     (case new_cipher (encryptionKey s) of
        Inl e \<Rightarrow> Inl e
      | Inr block \<Rightarrow>
          (if length ciphertext < nonce_size then Inl (ErrMsg ''ciphertext too short'')
           else
             let nonce = take nonce_size ciphertext;
                 text = drop nonce_size ciphertext
             in (case gcm_open block nonce text of
                   None \<Rightarrow> Inl (ErrMsg ''cipher: message authentication failed'')
                 | Some p \<Rightarrow> Inr p)))"

section \<open>The service\<close>

definition vault_Set ::
  "'s VaultRepository \<Rightarrow> vault_service \<Rightarrow> string option \<Rightarrow> string \<Rightarrow> string \<Rightarrow> string \<Rightarrow>
     's \<Rightarrow> unit res \<times> 's" where
  "vault_Set R svc rnd projectID key value s =
     (case encrypt svc rnd value of
        Inl e \<Rightarrow> (Inl e, s)
      | Inr encrypted \<Rightarrow>
          repo_set R \<lparr>SKey = key, EncryptedVal = std_encode encrypted, SProjectID = projectID\<rparr> s)"

definition vault_Get ::
  "'s VaultRepository \<Rightarrow> vault_service \<Rightarrow> string \<Rightarrow> string \<Rightarrow> 's \<Rightarrow> string res \<times> 's" where
  "vault_Get R svc projectID key s =
     (case repo_get R projectID key s of
        (Inl e, s') \<Rightarrow> (Inl e, s')
      | (Inr secret, s') \<Rightarrow>
          (case std_decode (EncryptedVal secret) of
             None \<Rightarrow> (Inl ErrDecode, s')
           | Some encrypted \<Rightarrow> (decrypt svc encrypted, s')))"

definition vault_Delete ::
  "'s VaultRepository \<Rightarrow> string \<Rightarrow> string \<Rightarrow> 's \<Rightarrow> unit res \<times> 's" where
  "vault_Delete R projectID key s = repo_delete R projectID key s"

definition vault_List :: "'s VaultRepository \<Rightarrow> string \<Rightarrow> 's \<Rightarrow> string list res \<times> 's" where
  "vault_List R projectID s = repo_list R projectID s"

definition ReEncryptForEdge ::
  "'s VaultRepository \<Rightarrow> vault_service \<Rightarrow> string option \<Rightarrow> string \<Rightarrow> string \<Rightarrow> string \<Rightarrow>
     's \<Rightarrow> string res \<times> 's" where
  "ReEncryptForEdge R svc rnd projectID key edgeKey s =
     (case vault_Get R svc projectID key s of
        (Inl e, s') \<Rightarrow> (Inl e, s')
      | (Inr value, s') \<Rightarrow> (seal_with edgeKey rnd value, s'))"

section \<open>The repository in memory\<close>

type_synonym vault_memory = "(string, (string, Secret) gomap) gomap"

definition mem_vault_set :: "Secret \<Rightarrow> vault_memory \<Rightarrow> unit res \<times> vault_memory" where
  "mem_vault_set secret m =
     (let m1 = (if map_of m (SProjectID secret) = None then gm_put (SProjectID secret) [] m else m);
          ps = the (map_of m1 (SProjectID secret))
      in (Inr (), gm_put (SProjectID secret) (gm_put (SKey secret) secret ps) m1))"

definition mem_vault_get :: "string \<Rightarrow> string \<Rightarrow> vault_memory \<Rightarrow> Secret res \<times> vault_memory" where
  "mem_vault_get projectID key m =
     (case map_of m projectID of
        None \<Rightarrow> (Inl ErrSecretNotFound, m)
      | Some ps \<Rightarrow>
          (case map_of ps key of
             None \<Rightarrow> (Inl ErrSecretNotFound, m)
           | Some secret \<Rightarrow> (Inr secret, m)))"

definition mem_vault_delete :: "string \<Rightarrow> string \<Rightarrow> vault_memory \<Rightarrow> unit res \<times> vault_memory" where
  "mem_vault_delete projectID key m =
     (case map_of m projectID of
        Some ps \<Rightarrow> (Inr (), gm_put projectID (gm_del key ps) m)
      | None \<Rightarrow> (Inr (), m))"

definition mem_vault_list :: "string \<Rightarrow> vault_memory \<Rightarrow> string list res \<times> vault_memory" where
  "mem_vault_list projectID m =
     (case map_of m projectID of
        None \<Rightarrow> (Inr [], m)
      | Some ps \<Rightarrow> (Inr (map fst ps), m))"

definition memory_vault :: "vault_memory VaultRepository" where
  "memory_vault = \<lparr>repo_get = mem_vault_get, repo_set = mem_vault_set,
     repo_delete = mem_vault_delete, repo_list = mem_vault_list\<rparr>"

section \<open>The repository in the database\<close>

definition sql_vault_set :: "Secret \<Rightarrow> unit db_op" where
  "sql_vault_set secret =
     exec (\<lambda>t. Inr ((), t\<lparr>vault_secrets :=
       upsert_row secret_pk
         \<lparr>sr_project_id = SProjectID secret, sr_secret_key = SKey secret,
          sr_encrypted_value = EncryptedVal secret\<rparr> (vault_secrets t)\<rparr>))"

text \<open>Any error of the query, a refused statement too, is reported as \<open>ErrSecretNotFound\<close>.\<close>

definition sql_vault_get :: "string \<Rightarrow> string \<Rightarrow> Secret db_op" where
  "sql_vault_get projectID key d =
     (case query_rows (\<lambda>t. first_row (select_where (\<lambda>r. sr_project_id r = projectID \<and> sr_secret_key r = key)
                          (vault_secrets t))) d of
        (Inl e, d') \<Rightarrow> (Inl ErrSecretNotFound, d')
      | (Inr r, d') \<Rightarrow>
          (Inr \<lparr>SKey = key, EncryptedVal = sr_encrypted_value r, SProjectID = projectID\<rparr>, d'))"

definition sql_vault_delete :: "string \<Rightarrow> string \<Rightarrow> unit db_op" where
  "sql_vault_delete projectID key =
     exec (\<lambda>t. Inr ((), t\<lparr>vault_secrets :=
       delete_where (\<lambda>r. sr_project_id r = projectID \<and> sr_secret_key r = key) (vault_secrets t)\<rparr>))"

definition sql_vault_list :: "string \<Rightarrow> string list db_op" where
  "sql_vault_list projectID =
     query_rows (\<lambda>t. Inr (map sr_secret_key
       (select_where (\<lambda>r. sr_project_id r = projectID) (vault_secrets t))))"

definition sql_vault :: "db VaultRepository" where
  "sql_vault = \<lparr>repo_get = sql_vault_get, repo_set = sql_vault_set,
     repo_delete = sql_vault_delete, repo_list = sql_vault_list\<rparr>"

section \<open>The contract of a repository\<close>

text \<open>
  \<open>view\<close> abstracts a state to what is stored: the encrypted value of each project and key.
  \<open>inv\<close> is the well-formedness every operation keeps, \<open>healthy\<close> says that no operation to come
  fails.  An operation that reports an error has changed nothing.
\<close>

locale vault_repository =
  fixes R :: "'s VaultRepository"
    and view :: "'s \<Rightarrow> string \<times> string \<rightharpoonup> string"
    and inv :: "'s \<Rightarrow> bool"
    and healthy :: "'s \<Rightarrow> bool"
  assumes set_ok: "inv s \<Longrightarrow> repo_set R sec s = (Inr u, s') \<Longrightarrow>
      inv s' \<and> view s' = (view s)((SProjectID sec, SKey sec) \<mapsto> EncryptedVal sec)"
    and set_err: "inv s \<Longrightarrow> repo_set R sec s = (Inl e, s') \<Longrightarrow> inv s' \<and> view s' = view s"
    and set_healthy: "healthy s \<Longrightarrow> \<exists>s'. repo_set R sec s = (Inr (), s') \<and> healthy s'"
    and get_ok: "inv s \<Longrightarrow> repo_get R p k s = (Inr sec, s') \<Longrightarrow>
      view s (p, k) = Some (EncryptedVal sec) \<and> SKey sec = k \<and> SProjectID sec = p"
    and get_frame: "inv s \<Longrightarrow> repo_get R p k s = (r, s') \<Longrightarrow> inv s' \<and> view s' = view s"
    and get_missing: "inv s \<Longrightarrow> view s (p, k) = None \<Longrightarrow> fst (repo_get R p k s) = Inl ErrSecretNotFound"
    and get_healthy: "inv s \<Longrightarrow> healthy s \<Longrightarrow> view s (p, k) \<noteq> None \<Longrightarrow>
      \<exists>sec s'. repo_get R p k s = (Inr sec, s')"
    and get_keeps: "healthy s \<Longrightarrow> healthy (snd (repo_get R p k s))"
    and delete_ok: "inv s \<Longrightarrow> repo_delete R p k s = (Inr u, s') \<Longrightarrow>
      inv s' \<and> view s' = (view s)((p, k) := None)"
    and delete_err: "inv s \<Longrightarrow> repo_delete R p k s = (Inl e, s') \<Longrightarrow> inv s' \<and> view s' = view s"
    and delete_healthy: "healthy s \<Longrightarrow> \<exists>s'. repo_delete R p k s = (Inr (), s') \<and> healthy s'"
    and list_healthy: "healthy s \<Longrightarrow> \<exists>ks s'. repo_list R p s = (Inr ks, s') \<and> healthy s'"
    and list_ok: "inv s \<Longrightarrow> repo_list R p s = (Inr ks, s') \<Longrightarrow>
      distinct ks \<and> set ks = {k. view s (p, k) \<noteq> None}"
    and list_frame: "inv s \<Longrightarrow> repo_list R p s = (rl, s') \<Longrightarrow> inv s' \<and> view s' = view s"

section \<open>Decryption undoes encryption\<close>

lemma seal_with_ok:
  "seal_with key (Some nonce) p = Inr c \<Longrightarrow>
     \<exists>block. new_cipher key = Inr block \<and> c = nonce @ gcm_seal block nonce p"
  by (auto simp: seal_with_def split: sum.splits)

lemma decrypt_seal:
  assumes "new_cipher (encryptionKey s) = Inr block" and "length nonce = 12"
  shows "decrypt s (nonce @ gcm_seal block nonce p) = Inr p"
  using assms by (simp add: decrypt_def nonce_size_def gcm_open_seal)

lemma decrypt_encrypt:
  assumes "encrypt s (Some nonce) p = Inr c" and "length nonce = 12"
  shows "decrypt s c = Inr p"
  using assms seal_with_ok unfolding encrypt_def by (metis decrypt_seal)

lemma decrypt_Inr:
  assumes "decrypt s c = Inr p"
  shows "encrypt s (Some (take 12 c)) p = Inr c"
proof -
  obtain block where b: "new_cipher (encryptionKey s) = Inr block"
    and o: "gcm_open block (take 12 c) (drop 12 c) = Some p"
    using assms by (auto simp: decrypt_def nonce_size_def Let_def split: sum.splits if_splits option.splits)
  have "drop 12 c = gcm_seal block (take 12 c) p"
    using gcm_open_Some [OF o] .
  with b show ?thesis
    by (simp add: encrypt_def seal_with_def) (metis append_take_drop_id)
qed

lemma service_cipher:
  "new_vault_service key = Inr s \<Longrightarrow> new_cipher (encryptionKey s) = Inr (aes_block key)"
  by (auto simp: new_vault_service_def new_cipher_def split: if_splits)

lemma encrypt_service:
  "new_vault_service key = Inr s \<Longrightarrow>
     encrypt s (Some nonce) p = Inr (nonce @ gcm_seal (aes_block key) nonce p)"
  using service_cipher [of key s]
  by (auto simp: encrypt_def seal_with_def new_vault_service_def split: if_splits)

section \<open>The service over any repository\<close>

context vault_repository
begin

lemma vault_get_view:
  assumes "inv s" and "vault_Get R svc p k s = (Inr v, s')"
  shows "\<exists>c. view s (p, k) = Some c \<and> (case std_decode c of Some e \<Rightarrow> decrypt svc e | None \<Rightarrow> Inl ErrDecode) = Inr v"
proof -
  obtain sec where g: "repo_get R p k s = (Inr sec, s')"
    and d: "(case std_decode (EncryptedVal sec) of None \<Rightarrow> (Inl ErrDecode, s') | Some e \<Rightarrow> (decrypt svc e, s')) = (Inr v, s')"
    using assms(2) by (auto simp: vault_Get_def split: prod.splits sum.splits option.splits)
  from get_ok [OF assms(1) g] d show ?thesis
    by (auto split: option.splits)
qed

lemma vault_get_frame: "inv s \<Longrightarrow> vault_Get R svc p k s = (r, s') \<Longrightarrow> inv s' \<and> view s' = view s"
  by (cases "repo_get R p k s")
    (use get_frame in \<open>auto simp: vault_Get_def split: sum.splits option.splits\<close>)

lemma vault_get_stored:
  assumes "inv s" and "healthy s" and "view s (p, k) = Some c"
  shows "fst (vault_Get R svc p k s) =
    (case std_decode c of Some e \<Rightarrow> decrypt svc e | None \<Rightarrow> Inl ErrDecode)"
proof -
  obtain sec s' where g: "repo_get R p k s = (Inr sec, s')"
    using get_healthy [OF assms(1,2)] assms(3) by blast
  with get_ok [OF assms(1) g] assms(3) show ?thesis
    by (auto simp: vault_Get_def split: option.splits)
qed

text \<open>What \<open>Set\<close> stores is the base64 text of the sealed value, under the project and the key.\<close>

lemma vault_set_view:
  assumes "new_vault_service key = Inr svc" and "inv s"
    and "vault_Set R svc (Some nonce) p k v s = (Inr u, s')"
  shows "inv s' \<and> view s' = (view s)((p, k) \<mapsto> std_encode (nonce @ gcm_seal (aes_block key) nonce v))"
proof -
  let ?sec = "\<lparr>SKey = k, EncryptedVal = std_encode (nonce @ gcm_seal (aes_block key) nonce v),
                SProjectID = p\<rparr>"
  have "repo_set R ?sec s = (Inr u, s')"
    using assms(3) by (simp add: vault_Set_def encrypt_service [OF assms(1)])
  from set_ok [OF assms(2) this] show ?thesis by simp
qed

lemma vault_set_err:
  assumes "inv s" and "vault_Set R svc rnd p k v s = (Inl e, s')"
  shows "inv s' \<and> view s' = view s"
  using assms set_err [OF assms(1)] by (cases "encrypt svc rnd v") (auto simp: vault_Set_def)

text \<open>Setting and then reading a secret gives the value back, and no other secret changes.\<close>

lemma vault_set_get:
  assumes "new_vault_service key = Inr svc" and "length nonce = 12" and "inv s" and "healthy s"
  shows "\<exists>s'. vault_Set R svc (Some nonce) p k v s = (Inr (), s') \<and>
    fst (vault_Get R svc p k s') = Inr v \<and>
    (\<forall>q. q \<noteq> (p, k) \<longrightarrow> view s' q = view s q)"
proof -
  obtain s' where st: "vault_Set R svc (Some nonce) p k v s = (Inr (), s')" and h: "healthy s'"
    using set_healthy [OF assms(4)] unfolding vault_Set_def encrypt_service [OF assms(1)]
    by (simp only: sum.case) blast
  note v = vault_set_view [OF assms(1,3) st]
  have "decrypt svc (nonce @ gcm_seal (aes_block key) nonce v) = Inr v"
    using decrypt_encrypt [OF encrypt_service [OF assms(1)] assms(2)] .
  with vault_get_stored [of s' p k _ svc] v h have "fst (vault_Get R svc p k s') = Inr v"
    by auto
  with st v show ?thesis by auto
qed

lemma vault_delete_get:
  assumes "inv s" and "vault_Delete R p k s = (Inr u, s')"
  shows "fst (vault_Get R svc p k s') = Inl ErrSecretNotFound"
proof -
  have "inv s'" "view s' (p, k) = None"
    using delete_ok [OF assms(1)] assms(2) by (auto simp: vault_Delete_def)
  then have "fst (repo_get R p k s') = Inl ErrSecretNotFound"
    by (rule get_missing)
  then show ?thesis
    by (auto simp: vault_Get_def split: prod.splits sum.splits)
qed

lemma vault_get_missing:
  "inv s \<Longrightarrow> view s (p, k) = None \<Longrightarrow> fst (vault_Get R svc p k s) = Inl ErrSecretNotFound"
  using get_missing [of s p k]
  by (cases "repo_get R p k s") (auto simp: vault_Get_def split: sum.splits)

lemma vault_get_keeps: "healthy s \<Longrightarrow> healthy (snd (vault_Get R svc p k s))"
  using get_keeps [of s p k]
  by (cases "repo_get R p k s") (auto simp: vault_Get_def split: sum.splits option.splits)

end

section \<open>A plain map as the specification\<close>

text \<open>
  A client sees the vault as a map from projects and keys to values.  A call and its result:
  the keys of a project come in no particular order.
\<close>

datatype vault_call =
    CallSet string string string string
  | CallGet string string
  | CallDelete string string
  | CallList string

datatype vault_result =
    ResDone "unit res"
  | ResValue "string res"
  | ResKeys "string multiset res"

fun vault_step ::
  "'s VaultRepository \<Rightarrow> vault_service \<Rightarrow> vault_call \<Rightarrow> 's \<Rightarrow> vault_result \<times> 's" where
  "vault_step R svc (CallSet nonce p k v) s = apfst ResDone (vault_Set R svc (Some nonce) p k v s)"
| "vault_step R svc (CallGet p k) s = apfst ResValue (vault_Get R svc p k s)"
| "vault_step R svc (CallDelete p k) s = apfst ResDone (vault_Delete R p k s)"
| "vault_step R svc (CallList p) s = apfst (\<lambda>r. ResKeys (map_sum id mset r)) (vault_List R p s)"

fun vault_run ::
  "'s VaultRepository \<Rightarrow> vault_service \<Rightarrow> vault_call list \<Rightarrow> 's \<Rightarrow> vault_result list" where
  "vault_run R svc [] s = []"
| "vault_run R svc (c # cs) s =
     (let (r, s') = vault_step R svc c s in r # vault_run R svc cs s')"

fun spec_step ::
  "vault_call \<Rightarrow> (string \<times> string \<rightharpoonup> string) \<Rightarrow> vault_result \<times> (string \<times> string \<rightharpoonup> string)" where
  "spec_step (CallSet nonce p k v) m = (ResDone (Inr ()), m((p, k) \<mapsto> v))"
| "spec_step (CallGet p k) m =
     (ResValue (case m (p, k) of None \<Rightarrow> Inl ErrSecretNotFound | Some v \<Rightarrow> Inr v), m)"
| "spec_step (CallDelete p k) m = (ResDone (Inr ()), m((p, k) := None))"
| "spec_step (CallList p) m = (ResKeys (Inr (mset_set {k. m (p, k) \<noteq> None})), m)"

fun spec_run :: "vault_call list \<Rightarrow> (string \<times> string \<rightharpoonup> string) \<Rightarrow> vault_result list" where
  "spec_run [] m = []"
| "spec_run (c # cs) m = (let (r, m') = spec_step c m in r # spec_run cs m')"

fun nonce_ok :: "vault_call \<Rightarrow> bool" where
  "nonce_ok (CallSet nonce p k v) \<longleftrightarrow> length nonce = 12"
| "nonce_ok _ \<longleftrightarrow> True"

text \<open>Every stored text opens, under the key of the service, to the value the map has.\<close>

definition opens_to :: "vault_service \<Rightarrow> string option \<Rightarrow> string option \<Rightarrow> bool" where
  "opens_to svc c v \<longleftrightarrow>
     (case v of
        None \<Rightarrow> c = None
      | Some w \<Rightarrow> (\<exists>t e. c = Some t \<and> std_decode t = Some e \<and> decrypt svc e = Inr w))"

lemma opens_to_None: "opens_to svc c v \<Longrightarrow> c = None \<longleftrightarrow> v = None"
  by (auto simp: opens_to_def split: option.splits)

lemma opens_to_None_None: "opens_to svc None None"
  by (simp add: opens_to_def)

lemma opens_to_sealed:
  "new_vault_service key = Inr svc \<Longrightarrow> length nonce = 12 \<Longrightarrow>
     opens_to svc (Some (std_encode (nonce @ gcm_seal (aes_block key) nonce v))) (Some v)"
  using decrypt_encrypt [OF encrypt_service] by (auto simp: opens_to_def)

context vault_repository
begin

definition simulates :: "vault_service \<Rightarrow> 's \<Rightarrow> (string \<times> string \<rightharpoonup> string) \<Rightarrow> bool" where
  "simulates svc s m \<longleftrightarrow> inv s \<and> healthy s \<and> (\<forall>q. opens_to svc (view s q) (m q))"

lemma simulates_set:
  assumes "new_vault_service key = Inr svc" and "length nonce = 12" and "simulates svc s m"
  shows "\<exists>s'. vault_Set R svc (Some nonce) p k v s = (Inr (), s') \<and> simulates svc s' (m((p, k) \<mapsto> v))"
proof -
  have i: "inv s" and h: "healthy s" using assms(3) by (auto simp: simulates_def)
  obtain s' where st: "vault_Set R svc (Some nonce) p k v s = (Inr (), s')" and h': "healthy s'"
    using set_healthy [OF h] unfolding vault_Set_def encrypt_service [OF assms(1)]
    by (simp only: sum.case) blast
  from vault_set_view [OF assms(1) i st] h' assms(3) opens_to_sealed [OF assms(1,2)]
  have "simulates svc s' (m((p, k) \<mapsto> v))" by (auto simp: simulates_def)
  with st show ?thesis by blast
qed

lemma simulates_get:
  assumes "simulates svc s m"
  shows "fst (vault_Get R svc p k s) = (case m (p, k) of None \<Rightarrow> Inl ErrSecretNotFound | Some v \<Rightarrow> Inr v)"
    and "simulates svc (snd (vault_Get R svc p k s)) m"
proof -
  have i: "inv s" and h: "healthy s" and o: "opens_to svc (view s (p, k)) (m (p, k))"
    using assms by (auto simp: simulates_def)
  show "fst (vault_Get R svc p k s) = (case m (p, k) of None \<Rightarrow> Inl ErrSecretNotFound | Some v \<Rightarrow> Inr v)"
    using o vault_get_missing [OF i] vault_get_stored [OF i h]
    by (auto simp: opens_to_def split: option.splits)
  show "simulates svc (snd (vault_Get R svc p k s)) m"
    using assms vault_get_keeps [OF h, of svc p k] vault_get_frame [OF i]
    by (cases "vault_Get R svc p k s") (auto simp: simulates_def)
qed

lemma simulates_delete:
  assumes "simulates svc s m"
  shows "\<exists>s'. vault_Delete R p k s = (Inr (), s') \<and> simulates svc s' (m((p, k) := None))"
proof -
  obtain s' where d: "repo_delete R p k s = (Inr (), s')" and h: "healthy s'"
    using delete_healthy [of s p k] assms unfolding simulates_def by blast
  have "inv s'" and "view s' = (view s)((p, k) := None)"
    using delete_ok [OF _ d] assms by (auto simp: simulates_def)
  with h assms have "simulates svc s' (m((p, k) := None))"
    by (auto simp: simulates_def opens_to_None_None)
  with d show ?thesis by (auto simp: vault_Delete_def)
qed

lemma simulates_list:
  assumes "simulates svc s m"
  shows "\<exists>ks s'. vault_List R p s = (Inr ks, s') \<and> mset ks = mset_set {k. m (p, k) \<noteq> None} \<and>
    simulates svc s' m"
proof -
  have i: "inv s" and h: "healthy s" using assms by (auto simp: simulates_def)
  obtain ks s' where l: "repo_list R p s = (Inr ks, s')" and h': "healthy s'"
    using list_healthy [OF h] by blast
  have "view s q = None \<longleftrightarrow> m q = None" for q
    using assms opens_to_None unfolding simulates_def by blast
  then have "set ks = {k. m (p, k) \<noteq> None}" and "distinct ks"
    using list_ok [OF i l] by simp_all
  then have "mset ks = mset_set {k. m (p, k) \<noteq> None}"
    using mset_set_set by metis
  with l h' list_frame [OF i l] assms show ?thesis
    by (auto simp: simulates_def vault_List_def)
qed

lemma vault_refines_map:
  assumes "new_vault_service key = Inr svc"
  shows "simulates svc s m \<Longrightarrow> \<forall>c \<in> set cs. nonce_ok c \<Longrightarrow> vault_run R svc cs s = spec_run cs m"
proof (induction cs arbitrary: s m)
  case (Cons c cs)
  have n: "nonce_ok c" and r: "\<And>s m. simulates svc s m \<Longrightarrow> vault_run R svc cs s = spec_run cs m"
    using Cons by auto
  show ?case
  proof (cases c)
    case (CallSet nonce p k v)
    with n simulates_set [OF assms _ Cons.prems(1), of nonce p k v] show ?thesis
      by (auto simp: r)
  next
    case (CallGet p k)
    with simulates_get [OF Cons.prems(1), of p k] show ?thesis
      by (cases "vault_Get R svc p k s") (auto simp: r)
  next
    case (CallDelete p k)
    with simulates_delete [OF Cons.prems(1), of p k] show ?thesis
      by (auto simp: r)
  next
    case (CallList p)
    with simulates_list [OF Cons.prems(1), of p] show ?thesis
      by (auto simp: r)
  qed
qed simp

end

text \<open>A secret sealed for the edge opens under the key of the edge.\<close>

lemma seal_for_edge:
  assumes "new_vault_service edgeKey = Inr edge" and "length nonce = 12"
    and "fst (vault_Get R svc p k s) = Inr v"
  shows "\<exists>c. fst (ReEncryptForEdge R svc (Some nonce) p k edgeKey s) = Inr c \<and> decrypt edge c = Inr v"
proof -
  have "encryptionKey edge = edgeKey"
    using assms(1) by (auto simp: new_vault_service_def split: if_splits)
  then show ?thesis
    using encrypt_service [OF assms(1), of nonce v] decrypt_encrypt [of edge nonce v] assms(2,3)
    by (cases "vault_Get R svc p k s") (auto simp: ReEncryptForEdge_def encrypt_def)
qed

section \<open>The repository in memory implements the contract\<close>

definition mem_vault_view :: "vault_memory \<Rightarrow> string \<times> string \<rightharpoonup> string" where
  "mem_vault_view m q =
     (case map_of m (fst q) of
        None \<Rightarrow> None
      | Some ps \<Rightarrow> map_option EncryptedVal (map_of ps (snd q)))"

definition mem_vault_ok :: "vault_memory \<Rightarrow> bool" where
  "mem_vault_ok m \<longleftrightarrow>
     (\<forall>p ps. map_of m p = Some ps \<longrightarrow>
        map_wf ps \<and> (\<forall>k sec. map_of ps k = Some sec \<longrightarrow> SKey sec = k \<and> SProjectID sec = p))"

lemma mem_vault_set_alt:
  "mem_vault_set sec m =
     (Inr (), gm_put (SProjectID sec)
        (gm_put (SKey sec) sec (case map_of m (SProjectID sec) of None \<Rightarrow> [] | Some ps \<Rightarrow> ps))
        (if map_of m (SProjectID sec) = None then gm_put (SProjectID sec) [] m else m))"
  by (auto simp: mem_vault_set_def Let_def split: option.splits)

lemma mem_vault_set_view:
  "mem_vault_set sec m = (Inr u, m') \<Longrightarrow>
     mem_vault_view m' = (mem_vault_view m)((SProjectID sec, SKey sec) \<mapsto> EncryptedVal sec)"
  by (auto simp: mem_vault_set_alt mem_vault_view_def fun_eq_iff split: option.splits if_splits)

lemma mem_vault_set_ok:
  "mem_vault_ok m \<Longrightarrow> mem_vault_set sec m = (Inr u, m') \<Longrightarrow> mem_vault_ok m'"
  by (auto simp: mem_vault_set_alt mem_vault_ok_def split: option.splits if_splits)

lemma mem_vault_delete_alt:
  "mem_vault_delete p k m = (Inr (), (case map_of m p of None \<Rightarrow> m | Some ps \<Rightarrow> gm_put p (gm_del k ps) m))"
  by (simp add: mem_vault_delete_def split: option.splits)

lemma mem_vault_delete_ok: "mem_vault_ok m \<Longrightarrow> mem_vault_ok (snd (mem_vault_delete p k m))"
  by (auto simp: mem_vault_delete_alt mem_vault_ok_def split: option.splits if_splits)

lemma mem_vault_delete_view:
  "mem_vault_view (snd (mem_vault_delete p k m)) = (mem_vault_view m)((p, k) := None)"
  by (auto simp: mem_vault_delete_alt mem_vault_view_def fun_eq_iff split: option.splits if_splits)

lemma mem_vault_list_keys:
  assumes "mem_vault_ok m" and "mem_vault_list p m = (Inr ks, m')"
  shows "distinct ks \<and> set ks = {k. mem_vault_view m (p, k) \<noteq> None}"
proof (cases "map_of m p")
  case None
  with assms(2) show ?thesis by (simp add: mem_vault_list_def mem_vault_view_def)
next
  case (Some ps)
  moreover have "map_wf ps" using assms(1) Some by (simp add: mem_vault_ok_def)
  ultimately show ?thesis using assms(2) map_of_keys_set [of ps]
    by (auto simp: mem_vault_list_def mem_vault_view_def map_wf_def dom_def)
qed

interpretation memv: vault_repository memory_vault mem_vault_view mem_vault_ok "\<lambda>_. True"
proof (unfold_locales, goal_cases)
  case (1 s sec u s')
  then show ?case by (simp add: memory_vault_def mem_vault_set_view mem_vault_set_ok)
next
  case (9 s p k u s')
  then show ?case
    using mem_vault_delete_ok [of s p k] mem_vault_delete_view [of p k s]
    by (simp add: memory_vault_def)
next
  case (13 s p ks s')
  then show ?case by (simp add: memory_vault_def mem_vault_list_keys)
qed (auto simp: memory_vault_def mem_vault_set_alt mem_vault_get_def mem_vault_view_def
  mem_vault_ok_def mem_vault_delete_alt mem_vault_list_def split: option.splits)

section \<open>The repository in the database implements it too\<close>

definition sql_vault_view :: "db \<Rightarrow> string \<times> string \<rightharpoonup> string" where
  "sql_vault_view d q = map_option sr_encrypted_value (row_at secret_pk (vault_secrets (tables d)) q)"

definition sql_ok :: "db \<Rightarrow> bool" where
  "sql_ok d \<longleftrightarrow> tables_ok (tables d)"

lemma secret_key_query: "(\<lambda>r. sr_project_id r = p \<and> sr_secret_key r = k) = (\<lambda>r. secret_pk r = (p, k))"
  by (simp add: secret_pk_def)

lemma sql_vault_set_Inr:
  assumes "sql_vault_set sec d = (Inr u, d')"
  shows "vault_secrets (tables d') = upsert_row secret_pk
           \<lparr>sr_project_id = SProjectID sec, sr_secret_key = SKey sec, sr_encrypted_value = EncryptedVal sec\<rparr>
           (vault_secrets (tables d))"
    and "tables_ok (tables d) \<Longrightarrow> tables_ok (tables d')"
  using exec_write [OF assms [unfolded sql_vault_set_def]]
  by (auto simp: tables_ok_def upsert_row_ok)

lemma sql_vault_delete_Inr:
  assumes "sql_vault_delete p k d = (Inr u, d')"
  shows "vault_secrets (tables d') = delete_where (\<lambda>r. secret_pk r = (p, k)) (vault_secrets (tables d))"
    and "tables_ok (tables d) \<Longrightarrow> tables_ok (tables d')"
  using exec_write [OF assms [unfolded sql_vault_delete_def secret_key_query]]
  by (auto simp: tables_ok_def delete_where_ok)

lemma sql_vault_get_alt:
  "sql_vault_get p k d =
     (if fst (next_fault d) then Inl ErrSecretNotFound
      else (case row_at secret_pk (vault_secrets (tables d)) (p, k) of
              None \<Rightarrow> Inl ErrSecretNotFound
            | Some r \<Rightarrow> Inr \<lparr>SKey = k, EncryptedVal = sr_encrypted_value r, SProjectID = p\<rparr>),
      snd (next_fault d))"
  by (simp add: sql_vault_get_def secret_key_query first_by_key query_rows_alt split: option.splits)

lemma sql_vault_list_Inr:
  assumes "tables_ok (tables d)" and "sql_vault_list p d = (Inr ks, d')"
  shows "distinct ks \<and> set ks = {k. sql_vault_view d (p, k) \<noteq> None}"
proof -
  let ?rs = "vault_secrets (tables d)"
  have ks: "ks = map sr_secret_key (filter (\<lambda>r. sr_project_id r = p) ?rs)"
    using query_rows_Inr assms(2) by (fastforce simp: sql_vault_list_def select_where_def)
  have "distinct (map secret_pk (filter (\<lambda>r. sr_project_id r = p) ?rs))"
    using assms(1) by (simp add: tables_ok_def distinct_map_filter)
  then have "distinct ks"
    by (auto simp: ks distinct_map inj_on_def secret_pk_def)
  moreover have "sql_vault_view d (p, k) \<noteq> None \<longleftrightarrow> (p, k) \<in> secret_pk ` set ?rs" for k
    using row_at_None [of secret_pk ?rs "(p, k)"] by (simp add: sql_vault_view_def)
  then have "set ks = {k. sql_vault_view d (p, k) \<noteq> None}"
    by (force simp: ks secret_pk_def)
  ultimately show ?thesis by blast
qed

interpretation dbv: vault_repository sql_vault sql_vault_view sql_ok db_healthy
proof (unfold_locales, goal_cases)
  case (1 s sec u s')
  then show ?case
    using sql_vault_set_Inr [of sec s u s']
    by (simp add: sql_vault_def sql_ok_def sql_vault_view_def row_at_upsert fun_eq_iff secret_pk_def)
next
  case (2 s sec e s')
  then show ?case
    by (auto simp: sql_vault_def sql_vault_set_def sql_ok_def sql_vault_view_def dest!: exec_Inl)
next
  case (3 s sec)
  then show ?case by (simp add: sql_vault_def sql_vault_set_def exec_write_healthy)
next
  case (4 s p k sec s')
  then show ?case
    by (auto simp: sql_vault_def sql_vault_get_alt sql_vault_view_def split: if_splits option.splits)
next
  case (5 s p k r s')
  then show ?case by (auto simp: sql_vault_def sql_vault_get_alt sql_vault_view_def sql_ok_def)
next
  case (6 s p k)
  then show ?case by (simp add: sql_vault_def sql_vault_get_alt sql_vault_view_def)
next
  case (7 s p k)
  then show ?case
    using next_fault_healthy [of s]
    by (auto simp: sql_vault_def sql_vault_get_alt sql_vault_view_def)
next
  case (8 s p k)
  then show ?case using next_fault_healthy [of s] by (simp add: sql_vault_def sql_vault_get_alt)
next
  case (9 s p k u s')
  then show ?case
    using sql_vault_delete_Inr [of p k s u s']
    by (simp add: sql_vault_def sql_ok_def sql_vault_view_def row_at_delete fun_eq_iff)
next
  case (10 s p k e s')
  then show ?case
    by (auto simp: sql_vault_def sql_vault_delete_def sql_ok_def sql_vault_view_def dest!: exec_Inl)
next
  case (11 s p k)
  then show ?case by (simp add: sql_vault_def sql_vault_delete_def exec_write_healthy)
next
  case (12 s p)
  then show ?case
    using next_fault_healthy [of s] by (simp add: sql_vault_def sql_vault_list_def query_rows_alt)
next
  case (13 s p ks s')
  then show ?case by (simp add: sql_vault_def sql_ok_def sql_vault_list_Inr)
next
  case (14 s p rl s')
  then show ?case
    by (auto simp: sql_vault_def sql_vault_list_def query_rows_alt sql_ok_def sql_vault_view_def)
qed

section \<open>Properties\<close>

lemma sql_simulates_empty:
  "db_healthy d \<Longrightarrow> tables d = empty_tables \<Longrightarrow> dbv.simulates svc d Map.empty"
  using tables_ok_empty
  by (simp add: dbv.simulates_def sql_ok_def sql_vault_view_def row_at_def empty_tables_def
    opens_to_None_None)

lemma mem_simulates_empty: "memv.simulates svc [] Map.empty"
  by (simp add: memv.simulates_def mem_vault_ok_def mem_vault_view_def opens_to_None_None)

text \<open>
  Property C2.  The vault is a map from projects and keys to values.  Whatever the calls, and
  whatever (12-byte) nonces the random source gives, the service over the maps in memory and the
  service over an empty database return what the plain map of values returns: encryption,
  encoding, storage and back again lose nothing, and a key that was never set or was deleted is
  reported as not found.
\<close>
theorem vault_implements_map:
  assumes "new_vault_service key = Inr svc" and "\<forall>c \<in> set calls. nonce_ok c"
    and "db_healthy d" and "tables d = empty_tables"
  shows "vault_run memory_vault svc calls [] = spec_run calls Map.empty \<and>
    vault_run sql_vault svc calls d = spec_run calls Map.empty"
  using memv.vault_refines_map [OF assms(1) mem_simulates_empty assms(2)]
    dbv.vault_refines_map [OF assms(1) sql_simulates_empty [OF assms(3,4)] assms(2)]
  by blast

theorem vault_implements_map_witness:
  "let key = replicate 32 (CHR ''k'');
       calls = [CallSet (replicate 12 (CHR ''n'')) ''shop'' ''DB_URL'' ''postgres://x'',
                CallGet ''shop'' ''DB_URL'', CallDelete ''shop'' ''DB_URL'', CallGet ''shop'' ''DB_URL'']
   in vault_run sql_vault \<lparr>encryptionKey = key\<rparr> calls \<lparr>tables = empty_tables, faults = []\<rparr> =
     [ResDone (Inr ()), ResValue (Inr ''postgres://x''), ResDone (Inr ()),
      ResValue (Inl ErrSecretNotFound)]"
  using vault_implements_map [of "replicate 32 (CHR ''k'')" "\<lparr>encryptionKey = replicate 32 (CHR ''k'')\<rparr>"
      "[CallSet (replicate 12 (CHR ''n'')) ''shop'' ''DB_URL'' ''postgres://x'',
                CallGet ''shop'' ''DB_URL'', CallDelete ''shop'' ''DB_URL'', CallGet ''shop'' ''DB_URL'']"
      "\<lparr>tables = empty_tables, faults = []\<rparr>"]
  by (simp add: new_vault_service_def db_healthy_def Let_def)

text \<open>
  Property C19.  Stored texts are authenticated: what \<open>decrypt\<close> accepts is exactly what \<open>encrypt\<close>
  makes under the same key from the nonce in front, so a stored text that was changed in any byte
  is refused unless it is itself the encryption of the value returned.
\<close>
theorem decrypt_accepts_only_encryptions:
  assumes "new_vault_service key = Inr svc"
  shows "decrypt svc c = Inr v \<longleftrightarrow> (\<exists>nonce. length nonce = 12 \<and> encrypt svc (Some nonce) v = Inr c)"
proof
  assume d: "decrypt svc c = Inr v"
  then have "\<not> length c < 12"
    by (auto simp: decrypt_def nonce_size_def split: sum.splits if_splits)
  with decrypt_Inr [OF d] show "\<exists>nonce. length nonce = 12 \<and> encrypt svc (Some nonce) v = Inr c"
    by (intro exI [of _ "take 12 c"]) simp
qed (auto intro: decrypt_encrypt)

theorem decrypt_accepts_only_encryptions_witness:
  "\<exists>c. encrypt \<lparr>encryptionKey = replicate 32 (CHR ''k'')\<rparr> (Some (replicate 12 (CHR ''n''))) ''v'' = Inr c \<and>
     decrypt \<lparr>encryptionKey = replicate 32 (CHR ''k'')\<rparr> c = Inr ''v''"
proof -
  let ?svc = "\<lparr>encryptionKey = replicate 32 (CHR ''k'')\<rparr>"
  have s: "new_vault_service (replicate 32 (CHR ''k'')) = Inr ?svc"
    by (simp add: new_vault_service_def)
  from encrypt_service [OF s, of "replicate 12 (CHR ''n'')" "''v''"]
  obtain c where c: "encrypt ?svc (Some (replicate 12 (CHR ''n''))) ''v'' = Inr c" by blast
  then have "decrypt ?svc c = Inr ''v''"
    using decrypt_accepts_only_encryptions [OF s, of c "''v''"] by fastforce
  with c show ?thesis by blast
qed

text \<open>
  A secret that is stored in the database is handed to an edge sealed under the
  key of that edge: with an edge key of 32 bytes, \<open>ReEncryptForEdge\<close> returns a text that opens,
  under the edge key, to the value stored; with a key of any length AES does not have it is an
  error.  Neither changes the tables.
\<close>
theorem edge_secret_opens:
  assumes "new_vault_service key = Inr svc" and "length nonce = 12"
    and "db_healthy d" and "tables_ok (tables d)"
    and "vault_Set sql_vault svc (Some nonce) p k v d = (Inr (), d')"
    and "length nonce' = 12"
  shows "(\<forall>edge. new_vault_service edgeKey = Inr edge \<longrightarrow>
           (\<exists>c. fst (ReEncryptForEdge sql_vault svc (Some nonce') p k edgeKey d') = Inr c \<and>
              decrypt edge c = Inr v)) \<and>
    (length edgeKey \<notin> {16, 24, 32} \<longrightarrow>
       (\<exists>e. fst (ReEncryptForEdge sql_vault svc (Some nonce') p k edgeKey d') = Inl e)) \<and>
    tables (snd (ReEncryptForEdge sql_vault svc (Some nonce') p k edgeKey d')) = tables d'"
proof (intro conjI allI impI)
  have g: "fst (vault_Get sql_vault svc p k d') = Inr v"
    using dbv.vault_set_get [OF assms(1,2) _ assms(3), of p k v] assms(4,5)
    by (simp add: sql_ok_def)
  show "\<exists>c. fst (ReEncryptForEdge sql_vault svc (Some nonce') p k edgeKey d') = Inr c \<and> decrypt edge c = Inr v"
    if e: "new_vault_service edgeKey = Inr edge" for edge
    using seal_for_edge [OF e assms(6) g] .
  show "\<exists>e. fst (ReEncryptForEdge sql_vault svc (Some nonce') p k edgeKey d') = Inl e"
    if "length edgeKey \<notin> {16, 24, 32}"
    using that g by (cases "vault_Get sql_vault svc p k d'")
      (auto simp: ReEncryptForEdge_def seal_with_def new_cipher_def)
  show "tables (snd (ReEncryptForEdge sql_vault svc (Some nonce') p k edgeKey d')) = tables d'"
    by (simp add: ReEncryptForEdge_def vault_Get_def sql_vault_def sql_vault_get_alt split: sum.splits option.splits prod.splits)
qed

theorem edge_secret_opens_witness:
  "\<exists>d' c. vault_Set sql_vault \<lparr>encryptionKey = replicate 32 (CHR ''k'')\<rparr> (Some (replicate 12 (CHR ''n''))) ''shop'' ''KEY'' ''v''
       \<lparr>tables = empty_tables, faults = []\<rparr> = (Inr (), d') \<and>
     fst (ReEncryptForEdge sql_vault \<lparr>encryptionKey = replicate 32 (CHR ''k'')\<rparr> (Some (replicate 12 (CHR ''m'')))
       ''shop'' ''KEY'' (replicate 32 (CHR ''e'')) d') = Inr c \<and>
     decrypt \<lparr>encryptionKey = replicate 32 (CHR ''e'')\<rparr> c = Inr ''v''"
proof -
  let ?svc = "\<lparr>encryptionKey = replicate 32 (CHR ''k'')\<rparr>" and ?d = "\<lparr>tables = empty_tables, faults = []\<rparr>"
  have s: "new_vault_service (replicate 32 (CHR ''k'')) = Inr ?svc"
    and e: "new_vault_service (replicate 32 (CHR ''e'')) = Inr \<lparr>encryptionKey = replicate 32 (CHR ''e'')\<rparr>"
    by (simp_all add: new_vault_service_def)
  have h: "db_healthy ?d" "tables_ok (tables ?d)"
    by (simp_all add: db_healthy_def tables_ok_empty)
  obtain d' where st: "vault_Set sql_vault ?svc (Some (replicate 12 (CHR ''n''))) ''shop'' ''KEY'' ''v'' ?d = (Inr (), d')"
    using dbv.vault_set_get [OF s _ _ h(1), of "replicate 12 (CHR ''n'')" "''shop''" "''KEY''" "''v''"] h(2)
    by (auto simp: sql_ok_def)
  with edge_secret_opens [OF s _ h st, of "replicate 12 (CHR ''m'')" "replicate 32 (CHR ''e'')"] e
  show ?thesis by auto
qed

text \<open>
  Reading a secret from the database has two outcomes only: the value, or \<open>ErrSecretNotFound\<close>,
  as long as the stored text is one the service made.  A refused statement is reported as
  \<open>ErrSecretNotFound\<close> too, although the secret is there, and the tables do not change.
\<close>
theorem sql_get_reports_not_found:
  "(fst (next_fault d) \<or> row_at secret_pk (vault_secrets (tables d)) (p, k) = None \<longleftrightarrow>
     fst (sql_vault_get p k d) = Inl ErrSecretNotFound) \<and>
   (fst (sql_vault_get p k d) = Inl e \<longrightarrow> e = ErrSecretNotFound \<and>
     fst (vault_Get sql_vault svc p k d) = Inl ErrSecretNotFound) \<and>
   tables (snd (vault_Get sql_vault svc p k d)) = tables d"
  by (auto simp: vault_Get_def sql_vault_def sql_vault_get_alt split: sum.splits option.splits if_splits)

theorem sql_get_reports_not_found_witness:
  "fst (vault_Get sql_vault \<lparr>encryptionKey = []\<rparr> ''p'' ''k''
     \<lparr>tables = empty_tables\<lparr>vault_secrets := [\<lparr>sr_project_id = ''p'', sr_secret_key = ''k'', sr_encrypted_value = []\<rparr>]\<rparr>,
      faults = [True]\<rparr>) = Inl ErrSecretNotFound"
  using sql_get_reports_not_found [of "\<lparr>tables = empty_tables\<lparr>vault_secrets :=
      [\<lparr>sr_project_id = ''p'', sr_secret_key = ''k'', sr_encrypted_value = []\<rparr>]\<rparr>, faults = [True]\<rparr>" "''p''" "''k''"
      ErrSecretNotFound "\<lparr>encryptionKey = []\<rparr>"]
  by (simp add: next_fault_def)

end
