(* ===== verification/Hub_ProjectConfig.thy ===== *)
theory Hub_ProjectConfig
  imports Sql_Store
begin

text \<open>
  The configuration of a project: \<open>packages/hub/internal/projectconfig/service.go\<close> and the table
  behind it, \<open>store/sqlstore/projectconfig.go\<close>.  A service without a repository keeps a map, one
  with a repository passes the calls on; \<open>pc_Set\<close> and \<open>pc_Get\<close> have both branches.  What a client
  relies on is the locale \<open>config_store\<close>, interpreted on the service in both modes.
\<close>

record Config =
  Databases :: string
  Auth :: string
  Storage :: string

definition empty_Config :: Config where
  "empty_Config = \<lparr>Databases = [], Auth = [], Storage = []\<rparr>"

record 's ConfigRepository =
  cfg_set :: "string \<Rightarrow> Config \<Rightarrow> 's \<Rightarrow> unit res \<times> 's"
  cfg_get :: "string \<Rightarrow> 's \<Rightarrow> Config res \<times> 's"

text \<open>The service: the map of \<open>NewService\<close> and the repository of \<open>NewServiceWithRepository\<close>, with
  the state behind the repository.\<close>

record 's pc_service =
  byProject :: "(string, Config) gomap"
  pc_repo :: "'s ConfigRepository option"
  repo_state :: 's

definition pc_Set :: "string \<Rightarrow> Config \<Rightarrow> 's pc_service \<Rightarrow> unit res \<times> 's pc_service" where
  "pc_Set projectID cfg s =
     (if projectID = [] then (Inl (ErrMsg ''projectID required''), s)
      else (case pc_repo s of
              Some r \<Rightarrow> (case cfg_set r projectID cfg (repo_state s) of (x, t) \<Rightarrow> (x, s\<lparr>repo_state := t\<rparr>))
            | None \<Rightarrow> (Inr (), s\<lparr>byProject := gm_put projectID cfg (byProject s)\<rparr>)))"

definition pc_Get :: "string \<Rightarrow> 's pc_service \<Rightarrow> Config res \<times> 's pc_service" where
  "pc_Get projectID s =
     (if projectID = [] then (Inl (ErrMsg ''projectID required''), s)
      else (case pc_repo s of
              Some r \<Rightarrow> (case cfg_get r projectID (repo_state s) of (x, t) \<Rightarrow> (x, s\<lparr>repo_state := t\<rparr>))
            | None \<Rightarrow>
                (case map_of (byProject s) projectID of
                   None \<Rightarrow> (Inl (ErrMsg ''project not found''), s)
                 | Some cfg \<Rightarrow> (Inr cfg, s))))"

section \<open>The table\<close>

definition sql_config_set :: "string \<Rightarrow> Config \<Rightarrow> unit db_op" where
  "sql_config_set projectID cfg =
     exec (\<lambda>t. Inr ((), t\<lparr>project_configs :=
       upsert_row cr_project_id
         \<lparr>cr_project_id = projectID, cr_databases = Databases cfg, cr_auth = Auth cfg,
          cr_storage = Storage cfg\<rparr> (project_configs t)\<rparr>))"

definition sql_config_get :: "string \<Rightarrow> Config db_op" where
  "sql_config_get projectID =
     db_bind (query_rows (\<lambda>t. first_row (select_where (\<lambda>r. cr_project_id r = projectID) (project_configs t))))
       (\<lambda>r. db_return \<lparr>Databases = cr_databases r, Auth = cr_auth r, Storage = cr_storage r\<rparr>)"

definition sql_config :: "db ConfigRepository" where
  "sql_config = \<lparr>cfg_set = sql_config_set, cfg_get = sql_config_get\<rparr>"

section \<open>The contract\<close>

locale config_store =
  fixes set_cfg :: "string \<Rightarrow> Config \<Rightarrow> 's \<Rightarrow> unit res \<times> 's"
    and get_cfg :: "string \<Rightarrow> 's \<Rightarrow> Config res \<times> 's"
    and view :: "'s \<Rightarrow> string \<rightharpoonup> Config"
    and healthy :: "'s \<Rightarrow> bool"
  assumes set_ok: "set_cfg p c s = (Inr u, s') \<Longrightarrow> view s' = (view s)(p \<mapsto> c)"
    and set_err: "set_cfg p c s = (Inl e, s') \<Longrightarrow> view s' = view s"
    and set_healthy: "healthy s \<Longrightarrow> p \<noteq> [] \<Longrightarrow> \<exists>s'. set_cfg p c s = (Inr (), s') \<and> healthy s'"
    and get_frame: "view (snd (get_cfg p s)) = view s"
    and get_ok: "fst (get_cfg p s) = Inr c \<Longrightarrow> view s p = Some c"
    and get_healthy: "healthy s \<Longrightarrow> p \<noteq> [] \<Longrightarrow> view s p = Some c \<Longrightarrow> fst (get_cfg p s) = Inr c"
    and get_missing: "view s p = None \<Longrightarrow> \<exists>e. fst (get_cfg p s) = Inl e"

text \<open>A sequence of settings, of which some may fail.\<close>

fun set_all :: "(string \<Rightarrow> Config \<Rightarrow> 's \<Rightarrow> unit res \<times> 's) \<Rightarrow> (string \<times> Config) list \<Rightarrow> 's \<Rightarrow> 's" where
  "set_all st [] s = s"
| "set_all st ((p, c) # cs) s = set_all st cs (snd (st p c s))"

text \<open>The last configuration of a project in a sequence of settings.\<close>

fun last_config :: "(string \<times> Config) list \<Rightarrow> string \<Rightarrow> Config option \<Rightarrow> Config option" where
  "last_config [] p d = d"
| "last_config ((q, c) # cs) p d = last_config cs p (if q = p then Some c else d)"

context config_store
begin

lemma set_all_view:
  "healthy s \<Longrightarrow> \<forall>(p, c) \<in> set cs. p \<noteq> [] \<Longrightarrow>
     healthy (set_all set_cfg cs s) \<and> view (set_all set_cfg cs s) p = last_config cs p (view s p)"
proof (induction cs arbitrary: s)
  case (Cons pc cs)
  obtain q c where pc: "pc = (q, c)" by fastforce
  obtain s' where st: "set_cfg q c s = (Inr (), s')" "healthy s'"
    using set_healthy [of s q c] Cons.prems pc by auto
  with Cons.IH [of s'] Cons.prems set_ok [OF st(1)] show ?case
    by (simp add: pc)
qed simp

lemma get_after_sets:
  assumes "healthy s" and "\<forall>(p, c) \<in> set cs. p \<noteq> []" and "p \<noteq> []"
  shows "case last_config cs p (view s p) of
      Some c \<Rightarrow> fst (get_cfg p (set_all set_cfg cs s)) = Inr c
    | None \<Rightarrow> \<exists>e. fst (get_cfg p (set_all set_cfg cs s)) = Inl e"
  using set_all_view [OF assms(1,2), of p] get_healthy [of _ p] assms(3) get_missing
  by (auto split: option.splits)

end

section \<open>The service in both modes\<close>

text \<open>A service with no repository, over its map.\<close>

definition pc_mem :: "(string, Config) gomap \<Rightarrow> unit pc_service" where
  "pc_mem m = \<lparr>byProject = m, pc_repo = None, repo_state = ()\<rparr>"

definition pc_sql :: "db \<Rightarrow> db pc_service" where
  "pc_sql d = \<lparr>byProject = [], pc_repo = Some sql_config, repo_state = d\<rparr>"

definition mem_cfg_set :: "string \<Rightarrow> Config \<Rightarrow> (string, Config) gomap \<Rightarrow> unit res \<times> (string, Config) gomap" where
  "mem_cfg_set p c m = apsnd byProject (pc_Set p c (pc_mem m))"

definition mem_cfg_get :: "string \<Rightarrow> (string, Config) gomap \<Rightarrow> Config res \<times> (string, Config) gomap" where
  "mem_cfg_get p m = apsnd byProject (pc_Get p (pc_mem m))"

definition db_cfg_set :: "string \<Rightarrow> Config \<Rightarrow> unit db_op" where
  "db_cfg_set p c d = apsnd repo_state (pc_Set p c (pc_sql d))"

definition db_cfg_get :: "string \<Rightarrow> Config db_op" where
  "db_cfg_get p d = apsnd repo_state (pc_Get p (pc_sql d))"

definition config_view :: "db \<Rightarrow> string \<rightharpoonup> Config" where
  "config_view d p =
     map_option (\<lambda>r. \<lparr>Databases = cr_databases r, Auth = cr_auth r, Storage = cr_storage r\<rparr>)
       (row_at cr_project_id (project_configs (tables d)) p)"

lemma db_cfg_set_alt:
  "db_cfg_set p c d = (if p = [] then (Inl (ErrMsg ''projectID required''), d) else sql_config_set p c d)"
  by (simp add: db_cfg_set_def pc_Set_def pc_sql_def sql_config_def split: prod.split)

lemma db_cfg_get_alt:
  "db_cfg_get p d = (if p = [] then (Inl (ErrMsg ''projectID required''), d) else sql_config_get p d)"
  by (simp add: db_cfg_get_def pc_Get_def pc_sql_def sql_config_def split: prod.split)

lemma sql_config_get_alt:
  "sql_config_get p d =
     (if fst (next_fault d) then Inl ErrDriver
      else (case config_view d p of None \<Rightarrow> Inl ErrNoRows | Some c \<Rightarrow> Inr c),
      snd (next_fault d))"
  by (auto simp: sql_config_get_def db_bind_def db_return_def first_by_key query_rows_alt config_view_def
      split: option.split)

interpretation memc: config_store mem_cfg_set mem_cfg_get "\<lambda>m p. if p = [] then None else map_of m p" "\<lambda>_. True"
  by unfold_locales
    (auto simp: mem_cfg_set_def mem_cfg_get_def pc_Set_def pc_Get_def pc_mem_def fun_eq_iff
      split: if_splits option.splits)

interpretation dbc: config_store db_cfg_set db_cfg_get "\<lambda>d p. if p = [] then None else config_view d p" db_healthy
proof (unfold_locales, goal_cases)
  case (1 p c s u s')
  then show ?case
    by (auto simp: db_cfg_set_alt sql_config_set_def config_view_def row_at_upsert fun_eq_iff
        split: if_splits dest!: exec_write)
next
  case (2 p c s e s')
  then show ?case
    by (auto simp: db_cfg_set_alt sql_config_set_def config_view_def fun_eq_iff split: if_splits dest!: exec_Inl)
next
  case (3 s p c)
  then show ?case
    by (simp add: db_cfg_set_alt sql_config_set_def exec_write_healthy)
next
  case (6 s p c)
  then show ?case
    using next_fault_healthy [of s] by (auto simp: db_cfg_get_alt sql_config_get_alt)
qed (auto simp: db_cfg_get_alt sql_config_get_alt config_view_def fun_eq_iff split: if_splits option.splits)

section \<open>Properties\<close>

text \<open>
  Property C21.  The last configuration wins, in both modes of the service: after any sequence of
  settings, reading a project gives the configuration set last for it, and an error when none was.
\<close>
theorem config_last_write_wins:
  assumes "\<forall>(q, c) \<in> set cs. q \<noteq> []" and "p \<noteq> []" and "db_healthy d" and "tables d = empty_tables"
  shows "(case last_config cs p None of
      Some c \<Rightarrow> fst (pc_Get p (pc_mem (set_all mem_cfg_set cs []))) = Inr c \<and>
        fst (pc_Get p (pc_sql (set_all db_cfg_set cs d))) = Inr c
    | None \<Rightarrow> (\<exists>e. fst (pc_Get p (pc_mem (set_all mem_cfg_set cs []))) = Inl e) \<and>
        (\<exists>e. fst (pc_Get p (pc_sql (set_all db_cfg_set cs d))) = Inl e))"
proof -
  have "config_view d p = None"
    using assms(4) by (simp add: config_view_def row_at_def empty_tables_def)
  then show ?thesis
    using memc.get_after_sets [where s = "[]" and cs = cs and p = p] dbc.get_after_sets [where s = d and cs = cs and p = p] assms
    by (auto simp: mem_cfg_get_def db_cfg_get_def split: option.splits)
qed

theorem config_last_write_wins_witness:
  "fst (pc_Get ''shop'' (pc_sql (set_all db_cfg_set
      [(''shop'', empty_Config), (''blog'', empty_Config), (''shop'', empty_Config\<lparr>Auth := ''jwt''\<rparr>)]
      \<lparr>tables = empty_tables, faults = []\<rparr>))) = Inr (empty_Config\<lparr>Auth := ''jwt''\<rparr>)"
  using config_last_write_wins [of
      "[(''shop'', empty_Config), (''blog'', empty_Config), (''shop'', empty_Config\<lparr>Auth := ''jwt''\<rparr>)]"
      "''shop''" "\<lparr>tables = empty_tables, faults = []\<rparr>"]
  by (simp add: db_healthy_def)

end
