(* ===== verification/Hub_Registry.thy ===== *)
theory Hub_Registry
  imports "HOL-Library.Multiset" Go_Base64 Go_Time Go_Json_Write Go_Files Hub_Config Sql_Store
begin

text \<open>
  The manifest registry: \<open>packages/hub/internal/registry/registry.go\<close> and its repositories
  \<open>store/memory/registry.go\<close> and \<open>store/sqlstore/registry.go\<close>.  \<open>Push\<close> saves a manifest under a
  version made from the clock and propagates it to the key-value store of the edges: a Redis
  server, whose client is a parameter, or files below the home directory.
\<close>

section \<open>Types\<close>

record Bundle =
  BType :: string
  Namespace :: string
  BName :: string
  BHash :: string
  Content :: string
  BConfig :: "(string \<times> json) list option"

record Manifest =
  MID :: string
  MProjectID :: string
  Version :: string
  Bundles :: "Bundle list"
  CreatedAt :: go_time
  CreatedBy :: string

record 's RegistryRepository =
  reg_latest :: "string \<Rightarrow> 's \<Rightarrow> Manifest res \<times> 's"
  reg_by_version :: "string \<Rightarrow> string \<Rightarrow> 's \<Rightarrow> Manifest res \<times> 's"
  reg_save :: "Manifest \<Rightarrow> 's \<Rightarrow> unit res \<times> 's"
  reg_versions :: "string \<Rightarrow> 's \<Rightarrow> string list res \<times> 's"

text \<open>The version is the local time of the push, to the second; \<open>zone\<close> is the offset of the local
  time zone in seconds.\<close>

definition generateVersion :: "int \<Rightarrow> go_time \<Rightarrow> string" where
  "generateVersion zone now = stamp (unix now + zone)"

section \<open>What the edges read\<close>

definition default_bundle_config :: "(string \<times> json) list" where
  "default_bundle_config = [(''target'', JStr ''main''), (''access'', JStr ''public'')]"

definition createServerBundle :: "Bundle \<Rightarrow> json" where
  "createServerBundle b =
     JObj [(''type'', JStr (BType b)), (''namespace'', JStr (Namespace b)), (''name'', JStr (BName b)),
           (''config'', JObj (case BConfig b of None \<Rightarrow> default_bundle_config | Some c \<Rightarrow> c)),
           (''content'', JStr (Content b)), (''hash'', JStr (BHash b))]"

definition edge_key :: "Bundle \<Rightarrow> string" where
  "edge_key b = Namespace b @ CHR ''/'' # BName b"

definition createEdgeLatest :: "string \<Rightarrow> string \<Rightarrow> Bundle list \<Rightarrow> json" where
  "createEdgeLatest projectID version bundles =
     JObj [(''project_id'', JStr projectID), (''version'', JStr version),
           (''bundles'', JObj (fold (\<lambda>b m. gm_put (edge_key b) (createServerBundle b) m) bundles []))]"

definition latest_key :: "string \<Rightarrow> string" where
  "latest_key projectID = ''project:'' @ projectID @ '':latest''"

definition logic_key :: "string \<Rightarrow> Bundle \<Rightarrow> string" where
  "logic_key projectID b = projectID @ '':logic:'' @ Namespace b @ CHR '':'' # BName b"

text \<open>The pairs that a push sets, in order.\<close>

definition edge_entries :: "string \<Rightarrow> string \<Rightarrow> Bundle list \<Rightarrow> (string \<times> string) list" where
  "edge_entries projectID version bundles =
     (latest_key projectID, json_text (createEdgeLatest projectID version bundles)) #
     map (\<lambda>b. (logic_key projectID b, json_text (createServerBundle b))) bundles"

section \<open>Propagation\<close>

text \<open>The Redis client, with its options \<open>'o\<close> and the state \<open>'r\<close> of the server.\<close>

record ('o, 'r) redis_client =
  ParseURL :: "string \<Rightarrow> 'o res"
  rd_Set :: "'o \<Rightarrow> string \<Rightarrow> string \<Rightarrow> 'r \<Rightarrow> unit res \<times> 'r"

text \<open>An error of one key is printed and the next key is set all the same.\<close>

fun set_entries :: "(string \<Rightarrow> string \<Rightarrow> 'w \<Rightarrow> unit res \<times> 'w) \<Rightarrow> (string \<times> string) list \<Rightarrow> 'w \<Rightarrow> 'w" where
  "set_entries put [] w = w"
| "set_entries put ((k, v) # es) w = set_entries put es (snd (put k v w))"

record ('s, 'r) reg_world =
  rw_repo :: 's
  rw_redis :: 'r
  rw_files :: fs

definition kv_dir :: "environ \<Rightarrow> string" where
  "kv_dir env = path_join [env ''HOME'', ''.santokit'', ''tmp'', ''kv'']"

definition file_propagate :: "environ \<Rightarrow> (string \<times> string) list \<Rightarrow> fs \<Rightarrow> fs" where
  "file_propagate env es w =
     (case os_MkdirAll (kv_dir env) w of
        (Inl _, w') \<Rightarrow> w'
      | (Inr _, w') \<Rightarrow> set_entries (\<lambda>k v. os_WriteFile (path_join [kv_dir env, k]) v) es w')"

definition propagate ::
  "environ \<Rightarrow> ('o, 'r) redis_client \<Rightarrow> (string \<times> string) list \<Rightarrow> ('s, 'r) reg_world \<Rightarrow> ('s, 'r) reg_world" where
  "propagate env rc es w =
     (if env ''STK_KV_REDIS'' \<noteq> [] \<and> is_ok (ParseURL rc (env ''STK_KV_REDIS''))
      then (case ParseURL rc (env ''STK_KV_REDIS'') of
              Inr opts \<Rightarrow> w\<lparr>rw_redis := set_entries (rd_Set rc opts) es (rw_redis w)\<rparr>
            | Inl _ \<Rightarrow> w)
      else w\<lparr>rw_files := file_propagate env es (rw_files w)\<rparr>)"

text \<open>\<open>Push\<close> reads the clock twice: for the version and for the creation time.\<close>

definition Push ::
  "'s RegistryRepository \<Rightarrow> environ \<Rightarrow> ('o, 'r) redis_client \<Rightarrow> int \<Rightarrow> go_time \<Rightarrow> go_time \<Rightarrow>
     string \<Rightarrow> Bundle list \<Rightarrow> string \<Rightarrow> ('s, 'r) reg_world \<Rightarrow> Manifest res \<times> ('s, 'r) reg_world" where
  "Push R env rc zone now now' projectID bundles userID w =
     (let m = \<lparr>MID = [], MProjectID = projectID, Version = generateVersion zone now,
               Bundles = bundles, CreatedAt = now', CreatedBy = userID\<rparr>
      in (case reg_save R m (rw_repo w) of
            (Inl e, s') \<Rightarrow> (Inl e, w\<lparr>rw_repo := s'\<rparr>)
          | (Inr _, s') \<Rightarrow>
              (Inr m, propagate env rc (edge_entries projectID (Version m) bundles) (w\<lparr>rw_repo := s'\<rparr>))))"

definition reg_GetLatest ::
  "'s RegistryRepository \<Rightarrow> string \<Rightarrow> ('s, 'r) reg_world \<Rightarrow> Manifest res \<times> ('s, 'r) reg_world" where
  "reg_GetLatest R projectID w = (case reg_latest R projectID (rw_repo w) of (x, s') \<Rightarrow> (x, w\<lparr>rw_repo := s'\<rparr>))"

section \<open>The repository in memory\<close>

type_synonym registry_memory = "(string, Manifest list) gomap"

definition mem_manifests :: "registry_memory \<Rightarrow> string \<Rightarrow> Manifest list" where
  "mem_manifests m p = (case map_of m p of None \<Rightarrow> [] | Some l \<Rightarrow> l)"

definition mem_reg_save :: "Manifest \<Rightarrow> registry_memory \<Rightarrow> unit res \<times> registry_memory" where
  "mem_reg_save manifest m =
     (Inr (), gm_put (MProjectID manifest) (mem_manifests m (MProjectID manifest) @ [manifest]) m)"

definition mem_reg_latest :: "string \<Rightarrow> registry_memory \<Rightarrow> Manifest res \<times> registry_memory" where
  "mem_reg_latest p m =
     (case map_of m p of
        None \<Rightarrow> (Inl (ErrMsg ''manifest not found''), m)
      | Some l \<Rightarrow> (if l = [] then (Inl (ErrMsg ''manifest not found''), m) else (Inr (last l), m)))"

definition mem_reg_by_version :: "string \<Rightarrow> string \<Rightarrow> registry_memory \<Rightarrow> Manifest res \<times> registry_memory" where
  "mem_reg_by_version p v m =
     (case map_of m p of
        None \<Rightarrow> (Inl (ErrMsg ''manifest not found''), m)
      | Some l \<Rightarrow>
          (case filter (\<lambda>x. Version x = v) l of
             [] \<Rightarrow> (Inl (ErrMsg ''manifest version not found''), m)
           | x # _ \<Rightarrow> (Inr x, m)))"

definition mem_reg_versions :: "string \<Rightarrow> registry_memory \<Rightarrow> string list res \<times> registry_memory" where
  "mem_reg_versions p m =
     (case map_of m p of None \<Rightarrow> (Inr [], m) | Some l \<Rightarrow> (Inr (sort (map Version l)), m))"

definition memory_registry :: "registry_memory RegistryRepository" where
  "memory_registry = \<lparr>reg_latest = mem_reg_latest, reg_by_version = mem_reg_by_version,
     reg_save = mem_reg_save, reg_versions = mem_reg_versions\<rparr>"

section \<open>The repository in the database\<close>

text \<open>
  The column \<open>bundles\<close> holds \<open>json.Marshal\<close> of the bundles; the model keeps the value that the
  text stands for.  Strings come back with invalid UTF-8 replaced, maps with their keys sorted,
  and the content of a bundle, a byte slice, as base64.  A nil and an empty slice are one list.
\<close>

fun json_norm :: "json \<Rightarrow> json" where
  "json_norm (JStr s) = JStr (to_valid s)"
| "json_norm (JArr vs) = JArr (map json_norm vs)"
| "json_norm (JObj ms) = JObj (fold (\<lambda>(k, v). gm_put k v) (sort_key fst (map (\<lambda>(k, v). (to_valid k, json_norm v)) ms)) [])"
| "json_norm j = j"

definition bundle_json :: "Bundle \<Rightarrow> json" where
  "bundle_json b =
     JObj ([(''type'', JStr (to_valid (BType b))), (''namespace'', JStr (to_valid (Namespace b))),
            (''name'', JStr (to_valid (BName b))), (''hash'', JStr (to_valid (BHash b))),
            (''content'', JStr (std_encode (Content b)))] @
           (case BConfig b of None \<Rightarrow> [] | Some c \<Rightarrow> if c = [] then [] else [(''config'', json_norm (JObj c))]))"

definition str_field :: "(string \<times> json) list \<Rightarrow> string \<Rightarrow> string res" where
  "str_field ms k =
     (case map_of ms k of
        None \<Rightarrow> Inr []
      | Some JNull \<Rightarrow> Inr []
      | Some (JStr s) \<Rightarrow> Inr s
      | _ \<Rightarrow> Inl ErrDecode)"

definition bytes_field :: "(string \<times> json) list \<Rightarrow> string \<Rightarrow> string res" where
  "bytes_field ms k =
     (case str_field ms k of
        Inl e \<Rightarrow> Inl e
      | Inr s \<Rightarrow> (case std_decode s of None \<Rightarrow> Inl ErrDecode | Some b \<Rightarrow> Inr b))"

definition map_field :: "(string \<times> json) list \<Rightarrow> string \<Rightarrow> (string \<times> json) list option res" where
  "map_field ms k =
     (case map_of ms k of
        None \<Rightarrow> Inr None
      | Some JNull \<Rightarrow> Inr None
      | Some (JObj m) \<Rightarrow> Inr (Some m)
      | _ \<Rightarrow> Inl ErrDecode)"

definition parse_bundle :: "json \<Rightarrow> Bundle res" where
  "parse_bundle j =
     (case j of
        JObj ms \<Rightarrow>
          (case (str_field ms ''type'', str_field ms ''namespace'', str_field ms ''name'',
                 str_field ms ''hash'', bytes_field ms ''content'', map_field ms ''config'') of
             (Inr t, Inr ns, Inr n, Inr h, Inr c, Inr cfg) \<Rightarrow>
               Inr \<lparr>BType = t, Namespace = ns, BName = n, BHash = h, Content = c, BConfig = cfg\<rparr>
           | _ \<Rightarrow> Inl ErrDecode)
      | _ \<Rightarrow> Inl ErrDecode)"

fun parse_bundles :: "json list \<Rightarrow> Bundle list res" where
  "parse_bundles [] = Inr []"
| "parse_bundles (j # js) =
     (case parse_bundle j of
        Inl e \<Rightarrow> Inl e
      | Inr b \<Rightarrow> (case parse_bundles js of Inl e \<Rightarrow> Inl e | Inr bs \<Rightarrow> Inr (b # bs)))"

definition unmarshal_bundles :: "json \<Rightarrow> Bundle list res" where
  "unmarshal_bundles j = (case j of JArr js \<Rightarrow> parse_bundles js | JNull \<Rightarrow> Inr [] | _ \<Rightarrow> Inl ErrDecode)"

definition manifest_id :: "string \<Rightarrow> string \<Rightarrow> string" where
  "manifest_id projectID version = projectID @ CHR '':'' # version"

definition sql_reg_save :: "Manifest \<Rightarrow> unit db_op" where
  "sql_reg_save m =
     exec (\<lambda>t. case insert_row mr_id
                  \<lparr>mr_id = manifest_id (MProjectID m) (Version m), mr_project_id = MProjectID m,
                   mr_version = Version m, mr_bundles = JArr (map bundle_json (Bundles m)),
                   mr_created_at = CreatedAt m, mr_created_by = CreatedBy m\<rparr> (registry_manifests t) of
                Inl e \<Rightarrow> Inl e
              | Inr rs \<Rightarrow> Inr ((), t\<lparr>registry_manifests := rs\<rparr>))"

definition row_manifest :: "manifest_row \<Rightarrow> Manifest res" where
  "row_manifest r =
     (case unmarshal_bundles (mr_bundles r) of
        Inl e \<Rightarrow> Inl e
      | Inr bs \<Rightarrow>
          Inr \<lparr>MID = mr_id r, MProjectID = mr_project_id r, Version = mr_version r, Bundles = bs,
               CreatedAt = mr_created_at r, CreatedBy = mr_created_by r\<rparr>)"

text \<open>\<open>ORDER BY\<close> is a stable sort of the rows.\<close>

definition sql_reg_latest :: "string \<Rightarrow> Manifest db_op" where
  "sql_reg_latest projectID =
     query_rows (\<lambda>t.
       (case first_row (sort_key (\<lambda>r. - mr_created_at r)
               (select_where (\<lambda>r. mr_project_id r = projectID) (registry_manifests t))) of
          Inl e \<Rightarrow> Inl e | Inr r \<Rightarrow> row_manifest r))"

definition sql_reg_by_version :: "string \<Rightarrow> string \<Rightarrow> Manifest db_op" where
  "sql_reg_by_version projectID version =
     query_rows (\<lambda>t.
       (case first_row (select_where (\<lambda>r. mr_project_id r = projectID \<and> mr_version r = version)
               (registry_manifests t)) of
          Inl e \<Rightarrow> Inl e | Inr r \<Rightarrow> row_manifest r))"

definition sql_reg_versions :: "string \<Rightarrow> string list db_op" where
  "sql_reg_versions projectID =
     query_rows (\<lambda>t. Inr (map mr_version (sort_key mr_created_at
       (select_where (\<lambda>r. mr_project_id r = projectID) (registry_manifests t)))))"

definition sql_registry :: "db RegistryRepository" where
  "sql_registry = \<lparr>reg_latest = sql_reg_latest, reg_by_version = sql_reg_by_version,
     reg_save = sql_reg_save, reg_versions = sql_reg_versions\<rparr>"

section \<open>The contract of a repository\<close>

text \<open>
  \<open>history\<close> abstracts a state to the manifests of each project in the order they were saved;
  \<open>stored\<close> is what a saved manifest is read back as.  The contract is for manifests that come in
  order: a manifest is \<open>newer\<close> than the earlier ones of its project when its creation time and
  its version are later, and its version has no colon.
\<close>

definition newer :: "Manifest list \<Rightarrow> Manifest \<Rightarrow> bool" where
  "newer hs m \<longleftrightarrow> (\<forall>x \<in> set hs. CreatedAt x < CreatedAt m \<and> Version x < Version m) \<and> CHR '':'' \<notin> set (Version m)"

locale registry_repository =
  fixes R :: "'s RegistryRepository"
    and history :: "'s \<Rightarrow> string \<Rightarrow> Manifest list"
    and stored :: "Manifest \<Rightarrow> Manifest"
    and inv :: "'s \<Rightarrow> bool"
    and healthy :: "'s \<Rightarrow> bool"
  assumes stored_project [simp]: "MProjectID (stored m) = MProjectID m"
    and stored_version [simp]: "Version (stored m) = Version m"
    and stored_created [simp]: "CreatedAt (stored m) = CreatedAt m"
    and save_newer: "inv s \<Longrightarrow> healthy s \<Longrightarrow> newer (history s (MProjectID m)) m \<Longrightarrow>
      \<exists>s'. reg_save R m s = (Inr (), s') \<and> inv s' \<and> healthy s' \<and>
        history s' = (history s)(MProjectID m := history s (MProjectID m) @ [stored m])"
    and save_err: "inv s \<Longrightarrow> reg_save R m s = (Inl e, s') \<Longrightarrow> history s' = history s"
    and latest: "inv s \<Longrightarrow> healthy s \<Longrightarrow> history s p \<noteq> [] \<Longrightarrow> fst (reg_latest R p s) = Inr (last (history s p))"
    and latest_none: "inv s \<Longrightarrow> history s p = [] \<Longrightarrow> \<exists>e. fst (reg_latest R p s) = Inl e"
    and by_version: "inv s \<Longrightarrow> healthy s \<Longrightarrow> m \<in> set (history s p) \<Longrightarrow>
      fst (reg_by_version R p (Version m) s) = Inr m"
    and versions: "inv s \<Longrightarrow> healthy s \<Longrightarrow> fst (reg_versions R p s) = Inr (map Version (history s p))"

text \<open>A push, as the two clock readings and the arguments.\<close>

record push_call =
  pc_zone :: int
  pc_now :: go_time
  pc_made :: go_time
  pc_project :: string
  pc_bundles :: "Bundle list"
  pc_user :: string

definition pushed_manifest :: "push_call \<Rightarrow> Manifest" where
  "pushed_manifest c =
     \<lparr>MID = [], MProjectID = pc_project c, Version = generateVersion (pc_zone c) (pc_now c),
      Bundles = pc_bundles c, CreatedAt = pc_made c, CreatedBy = pc_user c\<rparr>"

fun push_all ::
  "'s RegistryRepository \<Rightarrow> environ \<Rightarrow> ('o, 'r) redis_client \<Rightarrow> push_call list \<Rightarrow> ('s, 'r) reg_world \<Rightarrow>
     Manifest res list \<times> ('s, 'r) reg_world" where
  "push_all R env rc [] w = ([], w)"
| "push_all R env rc (c # cs) w =
     (case Push R env rc (pc_zone c) (pc_now c) (pc_made c) (pc_project c) (pc_bundles c) (pc_user c) w of
        (r, w') \<Rightarrow> apfst ((#) r) (push_all R env rc cs w'))"

text \<open>Pushes that come in order, each in a later second of one time zone than the one before.\<close>

fun in_order :: "int \<Rightarrow> go_time \<Rightarrow> push_call list \<Rightarrow> bool" where
  "in_order z t [] \<longleftrightarrow> True"
| "in_order z t (c # cs) \<longleftrightarrow>
     pc_zone c = z \<and> year_ok (unix (pc_now c) + z) \<and> unix t < unix (pc_now c) \<and>
     pc_now c \<le> pc_made c \<and> in_order z (pc_made c) cs"

lemma propagate_repo [simp]: "rw_repo (propagate env rc es w) = rw_repo w"
  by (simp add: propagate_def split: sum.split)

lemma Push_alt:
  "Push R env rc zone now now' p bs u w =
     (let m = \<lparr>MID = [], MProjectID = p, Version = generateVersion zone now, Bundles = bs,
               CreatedAt = now', CreatedBy = u\<rparr>;
          (x, s') = reg_save R m (rw_repo w)
      in (case x of
            Inl e \<Rightarrow> (Inl e, w\<lparr>rw_repo := s'\<rparr>)
          | Inr _ \<Rightarrow> (Inr m, propagate env rc (edge_entries p (Version m) bs) (w\<lparr>rw_repo := s'\<rparr>))))"
  by (simp add: Push_def Let_def split: prod.split sum.split)

section \<open>Versions order as times do\<close>

lemma generateVersion_mono:
  assumes "unix t < unix t'" and "year_ok (unix t + z)" and "year_ok (unix t' + z)"
  shows "generateVersion z t < generateVersion z t'"
  using assms by (simp add: generateVersion_def stamp_mono)

lemma digit_not_colon: "CHR '':'' \<notin> set (fixed w n)"
proof (induction w arbitrary: n)
  case (Suc w)
  have "is_digit (digit_char (n mod 10))" by simp
  then have "digit_char (n mod 10) \<noteq> CHR '':''" by (auto simp: is_digit_def)
  with Suc show ?case by auto
qed simp

lemma version_no_colon:
  assumes "year_ok (unix t + z)"
  shows "CHR '':'' \<notin> set (generateVersion z t)"
proof -
  have "list_all2 fits ws fs \<Longrightarrow> CHR '':'' \<notin> set (concat (map2 pad_int ws fs))" for ws fs
  proof (induction ws fs rule: list_all2_induct)
    case (Cons w ws f fs)
    have "pad_int w f = fixed w (nat f)"
      using Cons(1) fits_nat [of w f] by (simp add: fits_def pad_int_fixed)
    with Cons digit_not_colon [of w "nat f"] show ?case by simp
  qed simp
  from this [OF fields_fit [OF assms]] show ?thesis
    by (simp add: generateVersion_def stamp_fields)
qed

context registry_repository
begin

text \<open>The projects of a state whose manifests are all older than \<open>t\<close>.\<close>

definition older :: "int \<Rightarrow> go_time \<Rightarrow> 's \<Rightarrow> bool" where
  "older z t s \<longleftrightarrow> (\<forall>p. \<forall>x \<in> set (history s p). CreatedAt x \<le> t \<and>
     (\<exists>t'. unix t' \<le> unix t \<and> Version x = generateVersion z t' \<and> year_ok (unix t' + z)))"

lemma push_step:
  assumes "inv (rw_repo w)" and "healthy (rw_repo w)" and "older z t (rw_repo w)"
    and "in_order z t (c # cs)"
  shows "\<exists>w'. Push R env rc (pc_zone c) (pc_now c) (pc_made c) (pc_project c) (pc_bundles c) (pc_user c) w =
      (Inr (pushed_manifest c), w') \<and> inv (rw_repo w') \<and> healthy (rw_repo w') \<and>
      older z (pc_made c) (rw_repo w') \<and>
      history (rw_repo w') = (history (rw_repo w))(pc_project c :=
        history (rw_repo w) (pc_project c) @ [stored (pushed_manifest c)])"
proof -
  let ?m = "pushed_manifest c"
  have z: "pc_zone c = z" and y: "year_ok (unix (pc_now c) + z)" and lt: "unix t < unix (pc_now c)"
    and le: "pc_now c \<le> pc_made c"
    using assms(4) by simp_all
  then have t: "t < pc_made c" by (meson less_le_trans not_less unix_mono)
  have "newer (history (rw_repo w) (MProjectID ?m)) ?m"
    unfolding newer_def
  proof (intro conjI ballI)
    fix x assume "x \<in> set (history (rw_repo w) (MProjectID ?m))"
    then obtain t' where "CreatedAt x \<le> t" "unix t' \<le> unix t" "Version x = generateVersion z t'" "year_ok (unix t' + z)"
      using assms(3) unfolding older_def by blast
    with t lt y z generateVersion_mono [of t' "pc_now c" z]
    show "CreatedAt x < CreatedAt ?m" "Version x < Version ?m" by (auto simp: pushed_manifest_def)
  qed (simp add: pushed_manifest_def z version_no_colon [OF y])
  from save_newer [OF assms(1,2) this] obtain s' where
    s': "reg_save R ?m (rw_repo w) = (Inr (), s')" "inv s'" "healthy s'"
      "history s' = (history (rw_repo w))(pc_project c := history (rw_repo w) (pc_project c) @ [stored ?m])"
    by (auto simp: pushed_manifest_def)
  have u: "unix (pc_now c) \<le> unix (pc_made c)" using le by (rule unix_mono)
  have "older z (pc_made c) s'"
    unfolding older_def s'(4)
  proof (intro allI ballI)
    fix p x assume x: "x \<in> set (((history (rw_repo w))(pc_project c := history (rw_repo w) (pc_project c) @ [stored ?m])) p)"
    then consider "x \<in> set (history (rw_repo w) p)" | "x = stored ?m"
      by (auto split: if_splits)
    then show "CreatedAt x \<le> pc_made c \<and>
        (\<exists>t'. unix t' \<le> unix (pc_made c) \<and> Version x = generateVersion z t' \<and> year_ok (unix t' + z))"
    proof cases
      case 1
      with assms(3) obtain t' where "CreatedAt x \<le> t" "unix t' \<le> unix t" "Version x = generateVersion z t'" "year_ok (unix t' + z)"
        unfolding older_def by blast
      with t lt u show ?thesis by (intro conjI exI [of _ t']) auto
    next
      case 2
      with y z u show ?thesis by (intro conjI exI [of _ "pc_now c"]) (simp_all add: pushed_manifest_def)
    qed
  qed
  with s' show ?thesis
    by (simp add: Push_def Let_def pushed_manifest_def [symmetric])
qed

lemma push_all_history:
  assumes "inv (rw_repo w)" and "healthy (rw_repo w)" and "older z t (rw_repo w)" and "in_order z t cs"
  shows "\<exists>w'. push_all R env rc cs w = (map (\<lambda>c. Inr (pushed_manifest c)) cs, w') \<and>
    inv (rw_repo w') \<and> healthy (rw_repo w') \<and>
    (\<forall>p. history (rw_repo w') p = history (rw_repo w) p @
       map (\<lambda>c. stored (pushed_manifest c)) (filter (\<lambda>c. pc_project c = p) cs))"
  using assms
proof (induction cs arbitrary: w t)
  case (Cons c cs)
  from push_step [OF Cons.prems] obtain w1 where
    w1: "Push R env rc (pc_zone c) (pc_now c) (pc_made c) (pc_project c) (pc_bundles c) (pc_user c) w = (Inr (pushed_manifest c), w1)"
      "inv (rw_repo w1)" "healthy (rw_repo w1)" "older z (pc_made c) (rw_repo w1)"
    and h: "history (rw_repo w1) = (history (rw_repo w))(pc_project c := history (rw_repo w) (pc_project c) @ [stored (pushed_manifest c)])"
    by blast
  have "in_order z (pc_made c) cs" using Cons.prems(4) by simp
  from Cons.IH [OF w1(2-4) this] obtain w' where
    "push_all R env rc cs w1 = (map (\<lambda>c. Inr (pushed_manifest c)) cs, w')"
    "inv (rw_repo w')" "healthy (rw_repo w')"
    "\<forall>p. history (rw_repo w') p = history (rw_repo w1) p @ map (\<lambda>c. stored (pushed_manifest c)) (filter (\<lambda>c. pc_project c = p) cs)"
    by blast
  with w1(1) h show ?case by auto
qed simp

text \<open>After pushes in order, the last one of a project is the latest, and the versions are listed
  in the order of the pushes.\<close>

lemma latest_after_pushes:
  assumes "inv (rw_repo w)" and "healthy (rw_repo w)" and "\<forall>p. history (rw_repo w) p = []" and "in_order z t cs"
    and "filter (\<lambda>c. pc_project c = p) cs = ds" and "ds \<noteq> []"
  shows "\<exists>w'. push_all R env rc cs w = (map (\<lambda>c. Inr (pushed_manifest c)) cs, w') \<and>
    fst (reg_GetLatest R p w') = Inr (stored (pushed_manifest (last ds))) \<and>
    fst (reg_versions R p (rw_repo w')) = Inr (map (\<lambda>c. generateVersion z (pc_now c)) ds) \<and>
    (\<forall>c \<in> set ds. fst (reg_by_version R p (generateVersion z (pc_now c)) (rw_repo w')) = Inr (stored (pushed_manifest c)))"
proof -
  have zs: "in_order z t cs \<Longrightarrow> \<forall>c \<in> set cs. pc_zone c = z" for t
    by (induction cs arbitrary: t) auto
  have z: "\<forall>c \<in> set ds. pc_zone c = z" using zs [OF assms(4)] assms(5) by auto
  have "older z t (rw_repo w)" using assms(3) by (simp add: older_def)
  from push_all_history [OF assms(1,2) this assms(4), of env rc] obtain w' where
    w': "push_all R env rc cs w = (map (\<lambda>c. Inr (pushed_manifest c)) cs, w')" "inv (rw_repo w')" "healthy (rw_repo w')"
    and h: "history (rw_repo w') p = map (\<lambda>c. stored (pushed_manifest c)) ds"
    using assms(3,5) by auto
  have ne: "history (rw_repo w') p \<noteq> []" using h assms(6) by simp
  have "fst (reg_GetLatest R p w') = Inr (stored (pushed_manifest (last ds)))"
    using latest [OF w'(2,3) ne] h assms(6) by (cases "reg_latest R p (rw_repo w')") (simp add: reg_GetLatest_def last_map)
  moreover have "fst (reg_versions R p (rw_repo w')) = Inr (map (\<lambda>c. generateVersion z (pc_now c)) ds)"
    using versions [OF w'(2,3), of p] h z by (simp add: pushed_manifest_def)
  moreover have "fst (reg_by_version R p (generateVersion z (pc_now c)) (rw_repo w')) = Inr (stored (pushed_manifest c))"
    if "c \<in> set ds" for c
    using by_version [OF w'(2,3), of "stored (pushed_manifest c)" p] h z that by (simp add: pushed_manifest_def)
  ultimately show ?thesis using w'(1) by blast
qed

end

section \<open>The repository in memory implements the contract\<close>

definition mem_reg_ok :: "registry_memory \<Rightarrow> bool" where
  "mem_reg_ok m \<longleftrightarrow> (\<forall>p. sorted_wrt (<) (map Version (mem_manifests m p)))"

lemma filter_one_key:
  "distinct (map f xs) \<Longrightarrow> x \<in> set xs \<Longrightarrow> filter (\<lambda>y. f y = f x) xs = [x]"
proof (induction xs)
  case (Cons y ys)
  show ?case
  proof (cases "f y = f x")
    case True
    with Cons.prems have n: "f x \<notin> f ` set ys" by simp
    with Cons.prems(2) have "x = y" by auto
    with n show ?thesis by (auto simp: filter_empty_conv image_iff)
  next
    case False
    with Cons show ?thesis by auto
  qed
qed simp

lemma strict_sorted_distinct: "sorted_wrt (<) (xs :: 'a :: linorder list) \<Longrightarrow> sorted xs \<and> distinct xs"
  using strict_sorted_iff by blast

lemma mem_reg_latest_alt:
  "mem_reg_latest p m =
     (if mem_manifests m p = [] then Inl (ErrMsg ''manifest not found'') else Inr (last (mem_manifests m p)), m)"
  by (simp add: mem_reg_latest_def mem_manifests_def split: option.split)

lemma mem_reg_versions_alt: "mem_reg_versions p m = (Inr (sort (map Version (mem_manifests m p))), m)"
  by (simp add: mem_reg_versions_def mem_manifests_def split: option.split)

lemma mem_reg_save_manifests:
  "mem_manifests (snd (mem_reg_save x m)) = (mem_manifests m)(MProjectID x := mem_manifests m (MProjectID x) @ [x])"
  by (auto simp: mem_reg_save_def mem_manifests_def fun_eq_iff)

lemma mem_reg_by_version:
  assumes "mem_reg_ok m" and "x \<in> set (mem_manifests m p)"
  shows "mem_reg_by_version p (Version x) m = (Inr x, m)"
proof -
  obtain l where l: "map_of m p = Some l" "mem_manifests m p = l"
    using assms(2) by (cases "map_of m p") (simp_all add: mem_manifests_def)
  have "distinct (map Version l)"
    using assms(1) l strict_sorted_distinct by (auto simp: mem_reg_ok_def)
  with assms(2) l show ?thesis
    by (simp add: mem_reg_by_version_def filter_one_key [where f = Version])
qed

lemma mem_reg_save_ok:
  assumes "mem_reg_ok m" and "newer (mem_manifests m (MProjectID x)) x"
  shows "mem_reg_ok (snd (mem_reg_save x m))"
  using assms by (auto simp: mem_reg_ok_def mem_reg_save_manifests sorted_wrt_append newer_def)

interpretation memr: registry_repository memory_registry mem_manifests id mem_reg_ok "\<lambda>_. True"
proof (unfold_locales, goal_cases)
  case (4 s m)
  then show ?case
    using mem_reg_save_ok [of s m] mem_reg_save_manifests [of m s]
    by (simp add: memory_registry_def) (simp add: mem_reg_save_def)
next
  case (8 s m p)
  then show ?case by (simp add: memory_registry_def mem_reg_by_version)
next
  case (9 s p)
  then have "sorted (map Version (mem_manifests s p))"
    unfolding mem_reg_ok_def using strict_sorted_distinct by blast
  then show ?case by (simp add: memory_registry_def mem_reg_versions_alt sorted_sort_id)
qed (simp_all add: memory_registry_def mem_reg_save_def mem_reg_latest_alt)

section \<open>The repository in the database implements it too\<close>

definition norm_config :: "(string \<times> json) list \<Rightarrow> (string \<times> json) list" where
  "norm_config c = (case json_norm (JObj c) of JObj m \<Rightarrow> m | _ \<Rightarrow> [])"

definition norm_bundle :: "Bundle \<Rightarrow> Bundle" where
  "norm_bundle b =
     \<lparr>BType = to_valid (BType b), Namespace = to_valid (Namespace b), BName = to_valid (BName b),
      BHash = to_valid (BHash b), Content = Content b,
      BConfig = (case BConfig b of None \<Rightarrow> None | Some c \<Rightarrow> if c = [] then None else Some (norm_config c))\<rparr>"

definition stored_manifest :: "Manifest \<Rightarrow> Manifest" where
  "stored_manifest m =
     m\<lparr>MID := manifest_id (MProjectID m) (Version m), Bundles := map norm_bundle (Bundles m)\<rparr>"

lemma json_norm_obj: "json_norm (JObj c) = JObj (norm_config c)"
  by (simp add: norm_config_def)

lemma parse_bundle_json: "parse_bundle (bundle_json b) = Inr (norm_bundle b)"
  by (auto simp: parse_bundle_def bundle_json_def norm_bundle_def str_field_def bytes_field_def map_field_def
      std_roundtrip json_norm_obj simp del: json_norm.simps split: option.splits)

lemma parse_bundles_json: "parse_bundles (map bundle_json bs) = Inr (map norm_bundle bs)"
  by (induction bs) (simp_all add: parse_bundle_json)

definition manifest_row :: "Manifest \<Rightarrow> manifest_row" where
  "manifest_row m =
     \<lparr>mr_id = manifest_id (MProjectID m) (Version m), mr_project_id = MProjectID m,
      mr_version = Version m, mr_bundles = JArr (map bundle_json (Bundles m)),
      mr_created_at = CreatedAt m, mr_created_by = CreatedBy m\<rparr>"

lemma row_manifest_row: "row_manifest (manifest_row m) = Inr (stored_manifest m)"
  by (simp add: row_manifest_def manifest_row_def unmarshal_bundles_def parse_bundles_json stored_manifest_def)

text \<open>The rows of the table, of which each was made by a save: the manifests saved, in order.\<close>

definition sql_rows :: "db \<Rightarrow> string \<Rightarrow> manifest_row list" where
  "sql_rows d p = select_where (\<lambda>r. mr_project_id r = p) (registry_manifests (tables d))"

definition row_value :: "manifest_row \<Rightarrow> Manifest" where
  "row_value r =
     \<lparr>MID = mr_id r, MProjectID = mr_project_id r, Version = mr_version r,
      Bundles = (case unmarshal_bundles (mr_bundles r) of Inr bs \<Rightarrow> bs | Inl _ \<Rightarrow> []),
      CreatedAt = mr_created_at r, CreatedBy = mr_created_by r\<rparr>"

definition sql_history :: "db \<Rightarrow> string \<Rightarrow> Manifest list" where
  "sql_history d p = map row_value (sql_rows d p)"

definition row_ok :: "manifest_row \<Rightarrow> bool" where
  "row_ok r \<longleftrightarrow> mr_id r = manifest_id (mr_project_id r) (mr_version r) \<and> CHR '':'' \<notin> set (mr_version r) \<and>
     is_ok (unmarshal_bundles (mr_bundles r))"

definition sql_reg_ok :: "db \<Rightarrow> bool" where
  "sql_reg_ok d \<longleftrightarrow> (\<forall>r \<in> set (registry_manifests (tables d)). row_ok r) \<and>
     (\<forall>p. sorted_wrt (<) (map mr_created_at (sql_rows d p)) \<and> sorted_wrt (<) (map mr_version (sql_rows d p)))"

lemma row_value_row: "row_ok r \<Longrightarrow> row_manifest r = Inr (row_value r)"
  by (auto simp: row_manifest_def row_value_def row_ok_def is_ok_iff)

lemma row_value_new: "row_value (manifest_row m) = stored_manifest m"
  by (simp add: row_value_def manifest_row_def unmarshal_bundles_def parse_bundles_json stored_manifest_def)

lemma row_ok_new: "CHR '':'' \<notin> set (Version m) \<Longrightarrow> row_ok (manifest_row m)"
  by (simp add: row_ok_def manifest_row_def unmarshal_bundles_def parse_bundles_json)

lemma manifest_id_inject:
  assumes "CHR '':'' \<notin> set v" and "CHR '':'' \<notin> set v'" and "manifest_id p v = manifest_id p' v'"
  shows "p = p' \<and> v = v'"
proof -
  have t: "takeWhile (\<lambda>c. c \<noteq> CHR '':'') (rev (manifest_id q w)) = rev w" if "CHR '':'' \<notin> set w" for q w
  proof -
    have n: "\<And>c. c \<in> set (rev w) \<Longrightarrow> c \<noteq> CHR '':''" using that by auto
    show ?thesis using takeWhile_append2 [of "rev w" "\<lambda>c. c \<noteq> CHR '':''", OF n] by (simp add: manifest_id_def)
  qed
  from t [OF assms(1), of p] t [OF assms(2), of p'] assms(3) have "v = v'" by simp
  with assms(3) show ?thesis by (simp add: manifest_id_def)
qed

lemma sql_rows_ok: "sql_reg_ok d \<Longrightarrow> r \<in> set (sql_rows d p) \<Longrightarrow> row_ok r \<and> mr_project_id r = p"
  by (auto simp: sql_reg_ok_def sql_rows_def select_where_def)

lemma newer_rows:
  assumes "newer (sql_history d p) m" and "r \<in> set (sql_rows d p)"
  shows "mr_created_at r < CreatedAt m \<and> mr_version r < Version m"
proof -
  have "row_value r \<in> set (sql_history d p)" using assms(2) by (simp add: sql_history_def)
  with assms(1) have "CreatedAt (row_value r) < CreatedAt m \<and> Version (row_value r) < Version m"
    unfolding newer_def by blast
  then show ?thesis by (simp add: row_value_def)
qed

lemma sql_save_new_id:
  assumes "sql_reg_ok d" and "newer (sql_history d (MProjectID m)) m"
  shows "mr_id (manifest_row m) \<notin> mr_id ` set (registry_manifests (tables d))"
proof
  assume "mr_id (manifest_row m) \<in> mr_id ` set (registry_manifests (tables d))"
  then obtain r where r: "r \<in> set (registry_manifests (tables d))" "mr_id r = manifest_id (MProjectID m) (Version m)"
    by (auto simp: manifest_row_def)
  then have ok: "row_ok r" using assms(1) by (simp add: sql_reg_ok_def)
  have "CHR '':'' \<notin> set (mr_version r)" "CHR '':'' \<notin> set (Version m)"
    "manifest_id (mr_project_id r) (mr_version r) = manifest_id (MProjectID m) (Version m)"
    using r(2) ok assms(2) unfolding row_ok_def newer_def by simp_all
  from manifest_id_inject [OF this] have "mr_project_id r = MProjectID m \<and> mr_version r = Version m" .
  with r have "r \<in> set (sql_rows d (MProjectID m))" and v: "mr_version r = Version m"
    by (simp_all add: sql_rows_def select_where_def)
  from newer_rows [OF assms(2) this(1)] v show False by simp
qed

lemma sql_reg_save_alt:
  "sql_reg_save m = exec (\<lambda>t. case insert_row mr_id (manifest_row m) (registry_manifests t) of
      Inl e \<Rightarrow> Inl e | Inr rs \<Rightarrow> Inr ((), t\<lparr>registry_manifests := rs\<rparr>))"
  by (simp add: sql_reg_save_def manifest_row_def)

lemma sql_save_newer:
  assumes "sql_reg_ok d" and "db_healthy d" and "newer (sql_history d (MProjectID m)) m"
  shows "\<exists>d'. sql_reg_save m d = (Inr (), d') \<and> sql_reg_ok d' \<and> db_healthy d' \<and>
    sql_history d' = (sql_history d)(MProjectID m := sql_history d (MProjectID m) @ [stored_manifest m])"
proof -
  let ?d = "snd (sql_reg_save m d)"
  have st: "sql_reg_save m d = (Inr (), ?d)" and tb: "tables ?d = (tables d)\<lparr>registry_manifests := registry_manifests (tables d) @ [manifest_row m]\<rparr>"
    using sql_save_new_id [OF assms(1,3)] by (simp_all add: sql_reg_save_alt exec_healthy assms(2) insert_row_def)
  have h: "db_healthy ?d" by (simp add: sql_reg_save_alt exec_keeps_healthy assms(2))
  have rows: "sql_rows ?d p = sql_rows d p @ (if p = MProjectID m then [manifest_row m] else [])" for p
    by (simp add: sql_rows_def tb select_where_def manifest_row_def)
  have "sql_reg_ok ?d"
    using assms(1) newer_rows [OF assms(3)] row_ok_new [of m] assms(3)
    by (auto simp: sql_reg_ok_def tb rows sorted_wrt_append newer_def manifest_row_def)
  moreover have "sql_history ?d = (sql_history d)(MProjectID m := sql_history d (MProjectID m) @ [stored_manifest m])"
    by (auto simp: sql_history_def rows row_value_new)
  ultimately show ?thesis using st h by blast
qed

text \<open>Sorting rows whose keys increase, upwards and downwards.\<close>

lemma sort_key_increasing: "sorted_wrt (<) (map f xs) \<Longrightarrow> sort_key f xs = xs"
  using strict_sorted_distinct by (blast intro: sort_key_id_if_sorted)

lemma sort_key_decreasing:
  fixes f :: "'a \<Rightarrow> int"
  assumes "sorted_wrt (<) (map f xs)"
  shows "sort_key (\<lambda>x. - f x) xs = rev xs"
proof (rule properties_for_sort_key)
  have d: "distinct (map f xs)" using assms strict_sorted_distinct by blast
  fix k assume "k \<in> set (rev xs)"
  then have "filter (\<lambda>x. f x = f k) xs = [k]" using filter_one_key [OF d] by simp
  then show "filter (\<lambda>x. - f k = - f x) (rev xs) = filter (\<lambda>x. - f k = - f x) xs"
    by (simp add: eq_commute [of "f k"] rev_filter [symmetric])
next
  show "sorted (map (\<lambda>x. - f x) (rev xs))"
    using assms by (simp add: sorted_wrt_rev sorted_wrt_map rev_map [symmetric])
      (metis (mono_tags, lifting) less_imp_le neg_le_iff_le sorted_wrt_mono_rel)
qed simp

lemma first_row_rev: "first_row (rev xs) = (if xs = [] then Inl ErrNoRows else Inr (last xs))"
  by (cases xs rule: rev_cases) (simp_all add: first_row_def)

lemma sql_reg_latest_ok:
  assumes "sql_reg_ok d"
  shows "sql_reg_latest p d =
    (if fst (next_fault d) then Inl ErrDriver
     else if sql_history d p = [] then Inl ErrNoRows else Inr (last (sql_history d p)), snd (next_fault d))"
proof -
  have "sort_key (\<lambda>r. - mr_created_at r) (sql_rows d p) = rev (sql_rows d p)"
    using assms by (intro sort_key_decreasing) (simp add: sql_reg_ok_def)
  moreover have "row_manifest (last (sql_rows d p)) = Inr (row_value (last (sql_rows d p)))" if "sql_rows d p \<noteq> []"
    using that sql_rows_ok [OF assms] row_value_row by (meson last_in_set)
  ultimately show ?thesis
    by (simp add: sql_reg_latest_def query_rows_alt sql_rows_def [symmetric] first_row_rev sql_history_def last_map)
qed

lemma sql_reg_by_version_ok:
  assumes "sql_reg_ok d" and "db_healthy d" and "m \<in> set (sql_history d p)"
  shows "fst (sql_reg_by_version p (Version m) d) = Inr m"
proof -
  obtain r where r: "r \<in> set (sql_rows d p)" "m = row_value r"
    using assms(3) by (auto simp: sql_history_def)
  have "distinct (map mr_version (sql_rows d p))"
    using assms(1) strict_sorted_distinct by (auto simp: sql_reg_ok_def)
  from filter_one_key [OF this r(1)]
  have "filter (\<lambda>x. mr_project_id x = p \<and> mr_version x = mr_version r) (registry_manifests (tables d)) = [r]"
    by (simp add: sql_rows_def select_where_def conj_commute)
  then show ?thesis
    using r sql_rows_ok [OF assms(1) r(1)] row_value_row next_fault_healthy [OF assms(2)]
    by (simp add: sql_reg_by_version_def query_rows_alt select_where_def first_row_def row_value_def)
qed

interpretation dbr: registry_repository sql_registry sql_history stored_manifest sql_reg_ok db_healthy
proof (unfold_locales, goal_cases)
  case (4 s m)
  then show ?case by (simp add: sql_registry_def sql_save_newer)
next
  case (5 s m e s')
  then show ?case
    by (auto simp: sql_registry_def sql_reg_save_alt sql_history_def sql_rows_def fun_eq_iff dest!: exec_Inl)
next
  case (6 s p)
  then show ?case using next_fault_healthy [of s] by (simp add: sql_registry_def sql_reg_latest_ok)
next
  case (7 s p)
  then show ?case by (simp add: sql_registry_def sql_reg_latest_ok)
next
  case (8 s m p)
  then show ?case by (simp add: sql_registry_def sql_reg_by_version_ok)
next
  case (9 s p)
  then show ?case
    using next_fault_healthy [of s]
    by (simp add: sql_registry_def sql_reg_versions_def query_rows_alt sql_rows_def [symmetric] sql_reg_ok_def
        sort_key_increasing sql_history_def row_value_def comp_def)
qed (simp_all add: stored_manifest_def)

section \<open>Propagation\<close>

text \<open>A key-value store that takes every pair holds, in the end, the last value of each key.\<close>

lemma set_entries_view:
  assumes "\<And>k v w. view (snd (put k v w)) = (view w)(k \<mapsto> v)"
  shows "view (set_entries put es w) = (view w) ++ map_of (rev es)"
proof (induction es arbitrary: w)
  case (Cons e es)
  then show ?case using assms by (cases e) (simp add: map_add_def fun_eq_iff split: option.split)
qed simp

text \<open>The key of the latest bundle is not the key of a single one, whatever the names.\<close>

lemma latest_key_distinct: "latest_key p \<noteq> logic_key p b"
proof -
  have "p @ '':logic:'' @ r \<noteq> ''project:'' @ p @ '':latest''" for r
  proof (induction "length p" arbitrary: p rule: less_induct)
    case less
    show ?case
    proof
      assume eq: "p @ '':logic:'' @ r = ''project:'' @ p @ '':latest''"
      show False
      proof (cases "length ''project:'' \<le> length p")
        case True
        then have "take 8 (p @ '':logic:'' @ r) = take 8 p" by simp
        moreover have "take 8 (p @ '':logic:'' @ r) = ''project:''" unfolding eq by simp
        ultimately obtain q where q: "p = ''project:'' @ q" by (metis append_take_drop_id)
        with eq have "q @ '':logic:'' @ r = ''project:'' @ q @ '':latest''" by simp
        with less [of q] q show False by simp
      next
        case False
        then have "length p < 8" by simp
        then consider "p = []" | a where "p = [a]" | a b where "p = [a, b]" | a b c where "p = [a, b, c]"
          | a b c d where "p = [a, b, c, d]" | a b c d e where "p = [a, b, c, d, e]"
          | a b c d e f where "p = [a, b, c, d, e, f]" | a b c d e f g where "p = [a, b, c, d, e, f, g]"
          by (auto simp: numeral_eq_Suc less_Suc_eq length_Suc_conv)
        then show False using eq by cases auto
      qed
    qed
  qed
  from this [of "Namespace b @ CHR '':'' # BName b"] show ?thesis
    unfolding latest_key_def logic_key_def by (auto simp del: append.simps)
qed

lemma map_of_rev_latest:
  "map_of (rev (edge_entries p v bs)) (latest_key p) = Some (json_text (createEdgeLatest p v bs))"
proof -
  have "map_of (rev (map (\<lambda>b. (logic_key p b, json_text (createServerBundle b))) bs)) (latest_key p) = None"
    using latest_key_distinct by (auto simp: map_of_eq_None_iff)
  then show ?thesis by (simp add: edge_entries_def map_add_def)
qed

text \<open>A file whose directory does not exist is not written.\<close>

lemma WriteFile_no_dir:
  assumes "\<not> dir_exists w (butlast K)"
  shows "map_of (fs_files (snd (os_WriteFile q v w))) K = map_of (fs_files w) K \<and>
    fs_dirs (snd (os_WriteFile q v w)) = fs_dirs w"
proof -
  obtain f w' where f: "os_fault w = (f, w')" by fastforce
  from os_fault_fields [OF this] have "dir_exists w' = dir_exists w" by (simp add: dir_exists_def fun_eq_iff)
  with os_fault_fields [OF f] assms show ?thesis by (auto simp: os_WriteFile_def f Let_def)
qed

lemma set_entries_no_dir:
  assumes "\<not> dir_exists w (butlast K)"
  shows "map_of (fs_files (set_entries (\<lambda>k v. os_WriteFile (g k) v) es w)) K = map_of (fs_files w) K"
  using assms
proof (induction es arbitrary: w)
  case (Cons e es)
  obtain k v where e: "e = (k, v)" by fastforce
  let ?w = "snd (os_WriteFile (g k) v w)"
  have "map_of (fs_files ?w) K = map_of (fs_files w) K" "fs_dirs ?w = fs_dirs w"
    using WriteFile_no_dir [OF Cons.prems, of "g k" v] by blast+
  moreover from this have "\<not> dir_exists ?w (butlast K)" using Cons.prems by (simp add: dir_exists_def)
  ultimately show ?case using Cons.IH [of ?w] by (simp add: e)
qed simp

lemma MkdirAll_dirs:
  assumes "os_MkdirAll q w = (r, w')" and "length (path_key q) < length k"
  shows "dir_exists w' k \<longleftrightarrow> dir_exists w k"
proof -
  obtain f w1 where f: "os_fault w = (f, w1)" by fastforce
  have "k \<notin> set (prefixes_of (path_key q))" using assms(2) by (auto simp: prefixes_of_def)
  with os_fault_fields [OF f] assms(1) show ?thesis
    by (auto simp: os_MkdirAll_def f Let_def dir_exists_def split: if_splits)
qed

lemma file_propagate_no_dir:
  assumes "\<not> dir_exists w (butlast K)" and "length (path_key (kv_dir env)) < length (butlast K)"
  shows "map_of (fs_files (file_propagate env es w)) K = map_of (fs_files w) K"
proof -
  obtain r w' where m: "os_MkdirAll (kv_dir env) w = (r, w')" by fastforce
  with MkdirAll_dirs [OF m assms(2)] assms(1) have "\<not> dir_exists w' (butlast K)" by simp
  from set_entries_no_dir [OF this] MkdirAll_files [OF m] m show ?thesis
    by (simp add: file_propagate_def split: sum.split)
qed

lemma registry_operations [simp]:
  "reg_by_version sql_registry = sql_reg_by_version" "reg_versions sql_registry = sql_reg_versions"
  "reg_save sql_registry = sql_reg_save" "reg_latest sql_registry = sql_reg_latest"
  "reg_by_version memory_registry = mem_reg_by_version" "reg_versions memory_registry = mem_reg_versions"
  "reg_save memory_registry = mem_reg_save" "reg_latest memory_registry = mem_reg_latest"
  by (simp_all add: sql_registry_def memory_registry_def)

section \<open>Properties\<close>

text \<open>
  Property C5.  Pushes that come in order, each in a later second than the one before, in one time zone: every push
  succeeds; the latest manifest of a project is the one pushed last for it, with its bundles (as
  the store keeps them); the versions are listed in the order of the pushes; each version names
  its manifest.  It holds over an empty database and over the maps in memory.
\<close>
theorem pushes_in_order:
  assumes "in_order z t cs" and "filter (\<lambda>c. pc_project c = p) cs = ds" and "ds \<noteq> []"
    and "db_healthy (rw_repo w)" and "tables (rw_repo w) = empty_tables" and "rw_repo wm = []"
  shows "(\<exists>w'. push_all sql_registry env rc cs w = (map (\<lambda>c. Inr (pushed_manifest c)) cs, w') \<and>
      fst (reg_GetLatest sql_registry p w') = Inr (stored_manifest (pushed_manifest (last ds))) \<and>
      fst (sql_reg_versions p (rw_repo w')) = Inr (map (\<lambda>c. generateVersion z (pc_now c)) ds) \<and>
      (\<forall>c \<in> set ds. fst (sql_reg_by_version p (generateVersion z (pc_now c)) (rw_repo w')) =
         Inr (stored_manifest (pushed_manifest c)))) \<and>
    (\<exists>w'. push_all memory_registry env rc cs wm = (map (\<lambda>c. Inr (pushed_manifest c)) cs, w') \<and>
      fst (reg_GetLatest memory_registry p w') = Inr (pushed_manifest (last ds)) \<and>
      fst (mem_reg_versions p (rw_repo w')) = Inr (map (\<lambda>c. generateVersion z (pc_now c)) ds) \<and>
      (\<forall>c \<in> set ds. fst (mem_reg_by_version p (generateVersion z (pc_now c)) (rw_repo w')) =
         Inr (pushed_manifest c)))"
proof -
  have "sql_reg_ok (rw_repo w)" "\<forall>p. sql_history (rw_repo w) p = []"
    using assms(5) by (simp_all add: sql_reg_ok_def sql_history_def sql_rows_def empty_tables_def select_where_def)
  moreover have "mem_reg_ok (rw_repo wm)" "\<forall>p. mem_manifests (rw_repo wm) p = []"
    using assms(6) by (simp_all add: mem_reg_ok_def mem_manifests_def)
  ultimately show ?thesis
    using dbr.latest_after_pushes [where w = w and z = z and t = t and env = env and rc = rc, OF _ assms(4) _ assms(1,2,3)]
      memr.latest_after_pushes [where w = wm and z = z and t = t and env = env and rc = rc, OF _ TrueI _ assms(1,2,3)]
    by (simp add: registry_operations)
qed

text \<open>Concrete inputs: a Redis server that is a map, an empty hub, two pushes.\<close>

definition map_redis :: "(unit, (string, string) gomap) redis_client" where
  "map_redis = \<lparr>ParseURL = \<lambda>_. Inr (), rd_Set = \<lambda>_ k v r. (Inr (), gm_put k v r)\<rparr>"

definition fresh_world :: "'s \<Rightarrow> ('s, (string, string) gomap) reg_world" where
  "fresh_world s = \<lparr>rw_repo = s, rw_redis = [], rw_files = \<lparr>fs_dirs = [], fs_files = [], fs_faults = []\<rparr>\<rparr>"

definition fresh_db :: db where
  "fresh_db = \<lparr>tables = empty_tables, faults = []\<rparr>"

definition push_at :: "go_time \<Rightarrow> push_call" where
  "push_at t = \<lparr>pc_zone = 0, pc_now = t, pc_made = t, pc_project = ''shop'', pc_bundles = [], pc_user = ''ada''\<rparr>"

lemma fresh_db_facts [simp]: "db_healthy fresh_db" "tables fresh_db = empty_tables"
  by (simp_all add: fresh_db_def db_healthy_def)

lemma rw_repo_fresh [simp]: "rw_repo (fresh_world s) = s"
  by (simp add: fresh_world_def)

theorem pushes_in_order_witness:
  "\<exists>w'. push_all sql_registry (\<lambda>_. []) map_redis [push_at 0, push_at 2000000000] (fresh_world fresh_db) =
      ([Inr (pushed_manifest (push_at 0)), Inr (pushed_manifest (push_at 2000000000))], w') \<and>
    fst (reg_GetLatest sql_registry ''shop'' w') = Inr (stored_manifest (pushed_manifest (push_at 2000000000)))"
proof -
  have y: "year_ok 0" "year_ok 2" by code_simp+
  have o: "in_order 0 (- 1000000000) [push_at 0, push_at 2000000000]"
    using y by (simp add: push_at_def unix_def ns_per_s_def)
  have f: "filter (\<lambda>c. pc_project c = ''shop'') [push_at 0, push_at 2000000000] = [push_at 0, push_at 2000000000]"
    by (simp add: push_at_def)
  show ?thesis
    using pushes_in_order [OF o f, of "fresh_world fresh_db" "fresh_world []" "\<lambda>_. []" map_redis] by auto
qed



text \<open>
  With a Redis URL that parses and a client that stores every pair, a successful push
  leaves the latest bundle under its key, with the version of the push; a single bundle under each
  of the bundles' keys (of bundles with equal keys, one of them); and every other key, and the
  files, as they were.
\<close>
theorem push_propagates_to_redis:
  assumes "env ''STK_KV_REDIS'' \<noteq> []" and "ParseURL rc (env ''STK_KV_REDIS'') = Inr opts"
    and "\<And>k v r. view (snd (rd_Set rc opts k v r)) = (view r)(k \<mapsto> v)"
    and "Push R env rc z t t' p bs u w = (Inr m, w')"
  shows "view (rw_redis w') (latest_key p) = Some (json_text (createEdgeLatest p (Version m) bs)) \<and>
    (\<forall>b \<in> set bs. \<exists>b' \<in> set bs. logic_key p b' = logic_key p b \<and>
       view (rw_redis w') (logic_key p b) = Some (json_text (createServerBundle b'))) \<and>
    (\<forall>k. k \<noteq> latest_key p \<and> k \<notin> logic_key p ` set bs \<longrightarrow> view (rw_redis w') k = view (rw_redis w) k) \<and>
    rw_files w' = rw_files w"
proof -
  let ?es = "edge_entries p (Version m) bs"
  let ?bs = "map (\<lambda>b. (logic_key p b, json_text (createServerBundle b))) bs"
  have m: "Version m = generateVersion z t"
    using assms(4) by (auto simp: Push_def Let_def split: prod.splits sum.splits)
  have w': "rw_redis w' = set_entries (rd_Set rc opts) ?es (rw_redis w)" "rw_files w' = rw_files w"
    using assms(1,2,4) by (auto simp: Push_def Let_def propagate_def split: prod.splits sum.splits)
  have v: "view (rw_redis w') = view (rw_redis w) ++ map_of (rev ?es)"
    unfolding w' using set_entries_view [of view "rd_Set rc opts"] assms(3) by blast
  have one: "\<exists>b' \<in> set bs. logic_key p b' = logic_key p b \<and>
      map_of (rev ?es) (logic_key p b) = Some (json_text (createServerBundle b'))" if "b \<in> set bs" for b
  proof -
    have "logic_key p b \<in> fst ` set (rev ?bs)" using that by force
    then obtain t where t: "map_of (rev ?bs) (logic_key p b) = Some t"
      by (metis map_of_eq_None_iff not_None_eq)
    then have "(logic_key p b, t) \<in> set ?bs" by (metis map_of_SomeD set_rev)
    with t show ?thesis by (auto simp: edge_entries_def map_add_def)
  qed
  have "map_of (rev ?es) k = None" if "k \<noteq> latest_key p \<and> k \<notin> logic_key p ` set bs" for k
    using that by (auto simp: map_of_eq_None_iff edge_entries_def)
  then have other: "view (rw_redis w') k = view (rw_redis w) k" if "k \<noteq> latest_key p \<and> k \<notin> logic_key p ` set bs" for k
    using that by (simp add: v map_add_def)
  have "view (rw_redis w') (latest_key p) = Some (json_text (createEdgeLatest p (Version m) bs))"
    unfolding v by (rule map_add_find_right) (rule map_of_rev_latest)
  moreover have "\<exists>b' \<in> set bs. logic_key p b' = logic_key p b \<and>
      view (rw_redis w') (logic_key p b) = Some (json_text (createServerBundle b'))" if b: "b \<in> set bs" for b
  proof -
    obtain b' where "b' \<in> set bs" "logic_key p b' = logic_key p b"
      and f: "map_of (rev ?es) (logic_key p b) = Some (json_text (createServerBundle b'))"
      using one [OF b] by blast
    moreover have "view (rw_redis w') (logic_key p b) = Some (json_text (createServerBundle b'))"
      unfolding v by (rule map_add_find_right) (rule f)
    ultimately show ?thesis by blast
  qed
  ultimately show ?thesis using other w'(2) by blast
qed

theorem push_propagates_to_redis_witness:
  "\<exists>m w'. Push memory_registry (\<lambda>_. ''redis://kv'') map_redis 0 100 200 ''shop'' [] ''ada'' (fresh_world []) = (Inr m, w') \<and>
     map_of (rw_redis w') ''project:shop:latest'' = Some (json_text (createEdgeLatest ''shop'' (Version m) []))"
proof -
  obtain m w' where P: "Push memory_registry (\<lambda>_. ''redis://kv'') map_redis 0 100 200 ''shop'' [] ''ada'' (fresh_world []) = (Inr m, w')"
    by (simp add: Push_def Let_def mem_reg_save_def)
  have "map_of (rw_redis w') (latest_key ''shop'') = Some (json_text (createEdgeLatest ''shop'' (Version m) []))"
    using push_propagates_to_redis [where rc = map_redis and opts = "()" and view = map_of, OF _ _ _ P]
    by (simp add: map_redis_def)
  with P show ?thesis by (simp add: latest_key_def)
qed

text \<open>
  Without Redis, the files: a bundle whose namespace has a slash is not propagated.  Its key is
  a path with a directory that \<open>Push\<close> does not make, so the file of the bundle stays as it was,
  although the push succeeds.
\<close>
theorem nested_namespace_not_in_files:
  assumes "env ''STK_KV_REDIS'' = []" and "is_abs (env ''HOME'')"
    and "Push R env rc z t t' p bs u w = (Inr m, w')"
    and "b \<in> set bs" and "Namespace b = a @ slash # c"
    and "plain_elem (p @ '':logic:'' @ a)" and "plain_elem (c @ CHR '':'' # BName b)"
    and "path_key (kv_dir env) @ [p @ '':logic:'' @ a] \<notin> set (fs_dirs (rw_files w))"
  shows "map_of (fs_files (rw_files w')) (path_key (path_join [kv_dir env, logic_key p b])) =
    map_of (fs_files (rw_files w)) (path_key (path_join [kv_dir env, logic_key p b]))"
proof -
  let ?x = "p @ '':logic:'' @ a" and ?y = "c @ CHR '':'' # BName b"
  have abs: "is_abs (kv_dir env)" unfolding kv_dir_def using assms(2) by (rule is_abs_join)
  have key: "logic_key p b = join_with [slash] [?x, ?y]" by (simp add: logic_key_def assms(5))
  have "path_elems (path_join [kv_dir env, logic_key p b]) = path_elems (kv_dir env) @ [?x, ?y]"
    unfolding key by (rule path_elems_join [OF abs]) (use assms(6,7) in auto)
  moreover have "is_abs (path_join [kv_dir env, logic_key p b])" using abs by (rule is_abs_join)
  ultimately have K: "path_key (path_join [kv_dir env, logic_key p b]) = path_key (kv_dir env) @ [?x, ?y]"
    using abs by (simp add: path_key_def del: path_join.simps)
  have "rw_files w' = file_propagate env (edge_entries p (Version m) bs) (rw_files w)"
    using assms(1,3) by (auto simp: Push_def Let_def propagate_def split: prod.splits sum.splits)
  moreover have "\<not> dir_exists (rw_files w) (path_key (kv_dir env) @ [?x])"
    using assms(8) abs by (simp add: dir_exists_def top_dir_def path_key_def)
  ultimately show ?thesis
    using file_propagate_no_dir [of "rw_files w" "path_key (kv_dir env) @ [?x, ?y]" env]
    unfolding K by (simp add: butlast_append)
qed

definition nested_bundle :: Bundle where
  "nested_bundle = \<lparr>BType = ''sql'', Namespace = ''shop/items'', BName = ''get'', BHash = [], Content = ''select 1'', BConfig = None\<rparr>"

theorem nested_namespace_not_in_files_witness:
  "let env = (\<lambda>k. if k = ''HOME'' then ''/root'' else [])
   in \<exists>m w'. Push memory_registry env map_redis 0 100 200 ''p'' [nested_bundle] ''ada'' (fresh_world []) = (Inr m, w') \<and>
     map_of (fs_files (rw_files w')) (path_key (path_join [kv_dir env, logic_key ''p'' nested_bundle])) = None"
proof -
  let ?env = "\<lambda>k. if k = ''HOME'' then ''/root'' else ([] :: string)"
  obtain m w' where P: "Push memory_registry ?env map_redis 0 100 200 ''p'' [nested_bundle] ''ada'' (fresh_world []) = (Inr m, w')"
    by (simp add: Push_def Let_def mem_reg_save_def)
  have "map_of (fs_files (rw_files w')) (path_key (path_join [kv_dir ?env, logic_key ''p'' nested_bundle])) =
      map_of (fs_files (rw_files (fresh_world ([] :: registry_memory)))) (path_key (path_join [kv_dir ?env, logic_key ''p'' nested_bundle]))"
    by (rule nested_namespace_not_in_files [OF _ _ P, where b = nested_bundle and a = "''shop''" and c = "''items''"])
      (simp_all add: nested_bundle_def plain_elem_def fresh_world_def)
  with P show ?thesis by (simp add: fresh_world_def)
qed

end
