(* ===== verification/Hub_Schema.thy ===== *)
theory Hub_Schema
  imports Hub_Vault Go_Time
begin

text \<open>
  Schema management: \<open>packages/hub/internal/schema/schema.go\<close>.  The Atlas library is a parameter,
  the record \<open>atlas\<close> of the functions the service calls, over a state of type \<open>'w\<close> that stands for
  the databases it reaches.  The service keeps, per project, the schemas last planned and the
  schemas of the local mode, which it uses when no database can be reached.
\<close>

section \<open>Types\<close>

record Migration =
  MgID :: string
  MgProjectID :: string
  MgVersion :: string
  MgSQL :: string
  MgDescription :: string
  MgApplied :: bool

record PlanResult =
  Migrations :: "Migration list"
  HasChanges :: bool
  Summary :: string

type_synonym schemas = "(string, string) gomap"

record schema_service =
  atlasURL :: string
  sch_state :: "(string, schemas) gomap"
  lastPlanned :: "(string, schemas) gomap"

definition new_schema_service :: "string \<Rightarrow> schema_service" where
  "new_schema_service url = \<lparr>atlasURL = url, sch_state = [], lastPlanned = []\<rparr>"

text \<open>\<open>sqlclient.Open\<close>, the methods of the client it gives (\<open>'k\<close>) on realms (\<open>'r\<close>) and changes
  (\<open>'c\<close>), and the evaluation of HCL of the two drivers.\<close>

record ('w, 'k, 'r, 'c) atlas =
  atlas_open :: "string \<Rightarrow> 'w \<Rightarrow> 'k res \<times> 'w"
  client_name :: "'k \<Rightarrow> string"
  inspect_realm :: "'k \<Rightarrow> 'w \<Rightarrow> 'r res \<times> 'w"
  realm_diff :: "'k \<Rightarrow> 'r \<Rightarrow> 'r \<Rightarrow> 'c list res"
  plan_changes :: "'k \<Rightarrow> 'c list \<Rightarrow> 'w \<Rightarrow> string list res \<times> 'w"
  apply_changes :: "'k \<Rightarrow> 'c list \<Rightarrow> 'w \<Rightarrow> unit res \<times> 'w"
  postgres_eval :: "string \<Rightarrow> 'r res"
  sqlite_eval :: "string \<Rightarrow> 'r res"

section \<open>Helpers\<close>

definition copySchemas :: "schemas \<Rightarrow> schemas" where
  "copySchemas src = fold (\<lambda>(k, v) dst. gm_put k v dst) src []"

definition normalizeHCL :: "string \<Rightarrow> string" where
  "normalizeHCL value = trim_space value"

definition shortHash :: "string \<Rightarrow> string" where
  "shortHash value = hex_encode (take 6 (sha256 value))"

definition planSummary :: "nat \<Rightarrow> string" where
  "planSummary changeCount =
     (if changeCount = 0 then ''Local mode: no changes detected''
      else ''Local mode: '' @ dec_nat changeCount @ '' schema changes detected'')"

text \<open>The text that is evaluated: the files in the order of the loop, each with a line feed.\<close>

definition combined_hcl :: "schemas \<Rightarrow> string" where
  "combined_hcl schemas = concat (map (\<lambda>(alias, content). content @ [CHR 0x0A]) schemas)"

definition evalHCL :: "('w, 'k, 'r, 'c) atlas \<Rightarrow> string \<Rightarrow> string \<Rightarrow> 'r res" where
  "evalHCL A driverName hcl =
     (if driverName = ''postgres'' then postgres_eval A hcl
      else if driverName = ''sqlite3'' \<or> driverName = ''sqlite'' then sqlite_eval A hcl
      else (case postgres_eval A hcl of
              Inl e \<Rightarrow> Inl (ErrWrap (''unknown driver '' @ driverName @ '' and fallback failed: '') e)
            | Inr realm \<Rightarrow> Inr realm))"

section \<open>The local mode\<close>

definition schema_at :: "schemas option \<Rightarrow> string \<Rightarrow> string" where
  "schema_at current alias =
     (case current of None \<Rightarrow> [] | Some m \<Rightarrow> (case map_of m alias of None \<Rightarrow> [] | Some v \<Rightarrow> v))"

definition mock_migration :: "go_time \<Rightarrow> string \<Rightarrow> string \<times> string \<Rightarrow> Migration" where
  "mock_migration now projectID p =
     (case p of (alias, desired) \<Rightarrow>
        \<lparr>MgID = projectID @ CHR ''-'' # shortHash desired, MgProjectID = projectID,
         MgVersion = stamp (now div ns_per_s),
         MgSQL = ''-- Native Atlas driver failed. Mock migration for '' @ alias,
         MgDescription = ''schema update for '' @ alias @ '' (mock)'', MgApplied = False\<rparr>)"

text \<open>\<open>now i\<close> is the clock at the migration number \<open>i\<close> of the call.\<close>

fun mock_changes :: "(nat \<Rightarrow> go_time) \<Rightarrow> nat \<Rightarrow> string \<Rightarrow> schemas option \<Rightarrow> schemas \<Rightarrow> Migration list" where
  "mock_changes now i projectID current [] = []"
| "mock_changes now i projectID current ((alias, desired) # rest) =
     (if normalizeHCL (schema_at current alias) = normalizeHCL desired
      then mock_changes now i projectID current rest
      else mock_migration (now i) projectID (alias, desired) # mock_changes now (Suc i) projectID current rest)"

definition planMock :: "(nat \<Rightarrow> go_time) \<Rightarrow> string \<Rightarrow> schemas \<Rightarrow> schema_service \<Rightarrow> PlanResult res \<times> schema_service" where
  "planMock now projectID schemas sch =
     (let changes = mock_changes now 0 projectID (map_of (sch_state sch) projectID) schemas
      in (Inr \<lparr>Migrations = changes, HasChanges = 0 < length changes, Summary = planSummary (length changes)\<rparr>,
          sch\<lparr>lastPlanned := gm_put projectID (copySchemas schemas) (lastPlanned sch)\<rparr>))"

definition applyMock :: "string \<Rightarrow> Migration list \<Rightarrow> schema_service \<Rightarrow> unit res \<times> schema_service" where
  "applyMock projectID migrations sch =
     (case map_of (lastPlanned sch) projectID of
        None \<Rightarrow> (if length migrations = 0 then Inr () else Inl (ErrMsg ''no planned schemas to apply''), sch)
      | Some planned \<Rightarrow>
          (Inr (), sch\<lparr>sch_state := gm_put projectID (copySchemas planned) (sch_state sch),
                      lastPlanned := gm_del projectID (lastPlanned sch)\<rparr>))"

section \<open>The native mode\<close>

definition native_result :: "string \<Rightarrow> schemas \<Rightarrow> Migration list \<Rightarrow> schema_service \<Rightarrow> PlanResult res \<times> schema_service" where
  "native_result projectID schemas migrations sch =
     (Inr \<lparr>Migrations = migrations, HasChanges = 0 < length migrations,
           Summary = dec_nat (length migrations) @ '' changes proposed''\<rparr>,
      sch\<lparr>lastPlanned := gm_put projectID (copySchemas schemas) (lastPlanned sch)\<rparr>)"

definition plan_native ::
  "('w, 'k, 'r, 'c) atlas \<Rightarrow> go_time \<Rightarrow> string \<Rightarrow> schemas \<Rightarrow> 'k \<Rightarrow> schema_service \<Rightarrow> 'w \<Rightarrow>
     PlanResult res \<times> schema_service \<times> 'w" where
  "plan_native A now projectID schemas client sch w =
     (case inspect_realm A client w of
        (Inl e, w1) \<Rightarrow> (Inl (ErrWrap ''failed to inspect current schema: '' e), sch, w1)
      | (Inr current, w1) \<Rightarrow>
          (case evalHCL A (client_name A client) (combined_hcl schemas) of
             Inl e \<Rightarrow> (Inl (ErrWrap ''failed to evaluate schema HCL: '' e), sch, w1)
           | Inr desired \<Rightarrow>
               (case realm_diff A client current desired of
                  Inl e \<Rightarrow> (Inl (ErrWrap ''failed to calculate schema diff: '' e), sch, w1)
                | Inr changes \<Rightarrow>
                    (if changes = [] then
                       (case native_result projectID schemas [] sch of (r, sch') \<Rightarrow> (r, sch', w1))
                     else
                       (case plan_changes A client changes w1 of
                          (Inl e, w2) \<Rightarrow> (Inl (ErrWrap ''failed to plan changes: '' e), sch, w2)
                        | (Inr cmds, w2) \<Rightarrow>
                            (case native_result projectID schemas
                                [\<lparr>MgID = projectID @ CHR ''-'' # shortHash (combined_hcl schemas),
                                  MgProjectID = projectID, MgVersion = stamp (now div ns_per_s),
                                  MgSQL = join_with (CHR '';'' # [CHR 0x0A]) cmds,
                                  MgDescription = ''Schema update (Native)'', MgApplied = False\<rparr>] sch of
                               (r, sch') \<Rightarrow> (r, sch', w2)))))))"

text \<open>\<open>planned\<close> is in the order in which the loop of this call visits the schemas.\<close>

definition apply_native ::
  "('w, 'k, 'r, 'c) atlas \<Rightarrow> string \<Rightarrow> schemas \<Rightarrow> 'k \<Rightarrow> schema_service \<Rightarrow> 'w \<Rightarrow> unit res \<times> schema_service \<times> 'w" where
  "apply_native A projectID planned client sch w =
     (case inspect_realm A client w of
        (Inl e, w1) \<Rightarrow> (Inl (ErrWrap ''failed to inspect: '' e), sch, w1)
      | (Inr current, w1) \<Rightarrow>
          (case evalHCL A (client_name A client) (combined_hcl planned) of
             Inl e \<Rightarrow> (Inl (ErrWrap ''failed to eval HCL: '' e), sch, w1)
           | Inr desired \<Rightarrow>
               (case realm_diff A client current desired of
                  Inl e \<Rightarrow> (Inl (ErrWrap ''failed to diff: '' e), sch, w1)
                | Inr changes \<Rightarrow>
                    (if changes = [] then (Inr (), sch, w1)
                     else
                       (case apply_changes A client changes w1 of
                          (Inl e, w2) \<Rightarrow> (Inl (ErrWrap ''failed to apply changes: '' e), sch, w2)
                        | (Inr _, w2) \<Rightarrow>
                            (Inr (), sch\<lparr>lastPlanned := gm_del projectID (lastPlanned sch)\<rparr>, w2))))))"

section \<open>The service\<close>

text \<open>
  The service reads the URL of the database from the vault: \<open>R\<close> and \<open>svc\<close> are the vault's
  repository and service, \<open>s\<close> the state of the repository and \<open>w\<close> that of the databases.
\<close>

definition Plan ::
  "'s VaultRepository \<Rightarrow> vault_service \<Rightarrow> ('w, 'k, 'r, 'c) atlas \<Rightarrow> (nat \<Rightarrow> go_time) \<Rightarrow> string \<Rightarrow> schemas \<Rightarrow>
     schema_service \<times> 's \<times> 'w \<Rightarrow> PlanResult res \<times> schema_service \<times> 's \<times> 'w" where
  "Plan R svc A now projectID schemas st =
     (case st of (sch, s, w) \<Rightarrow>
        if projectID = [] then (Inl (ErrMsg ''projectID required''), sch, s, w)
        else if length schemas = 0 then (Inl (ErrMsg ''schemas required''), sch, s, w)
        else
          (case vault_Get R svc projectID ''database_url'' s of
             (url, s1) \<Rightarrow>
               let mock = (\<lambda>w1. case planMock now projectID schemas sch of (r, sch') \<Rightarrow> (r, sch', s1, w1))
               in (case url of
                     Inl _ \<Rightarrow> mock w
                   | Inr dbURL \<Rightarrow>
                       if dbURL = [] then mock w
                       else
                         (case atlas_open A dbURL w of
                            (Inl _, w1) \<Rightarrow> mock w1
                          | (Inr client, w1) \<Rightarrow>
                              (case plan_native A (now 0) projectID schemas client sch w1 of
                                 (r, sch', w2) \<Rightarrow> (r, sch', s1, w2))))))"

text \<open>\<open>ord\<close> is the order the runtime picks for the loop over the planned schemas.\<close>

definition Apply ::
  "'s VaultRepository \<Rightarrow> vault_service \<Rightarrow> ('w, 'k, 'r, 'c) atlas \<Rightarrow> (schemas \<Rightarrow> schemas) \<Rightarrow> string \<Rightarrow> Migration list \<Rightarrow>
     schema_service \<times> 's \<times> 'w \<Rightarrow> unit res \<times> schema_service \<times> 's \<times> 'w" where
  "Apply R svc A ord projectID migrations st =
     (case st of (sch, s, w) \<Rightarrow>
        if projectID = [] then (Inl (ErrMsg ''projectID required''), sch, s, w)
        else
          (case vault_Get R svc projectID ''database_url'' s of
             (url, s1) \<Rightarrow>
               let mock = (\<lambda>w1. case applyMock projectID migrations sch of (r, sch') \<Rightarrow> (r, sch', s1, w1))
               in (case url of
                     Inl _ \<Rightarrow> mock w
                   | Inr dbURL \<Rightarrow>
                       if dbURL = [] then mock w
                       else
                         (case map_of (lastPlanned sch) projectID of
                            None \<Rightarrow> (Inl (ErrMsg ''no planned schemas found''), sch, s1, w)
                          | Some schemas \<Rightarrow>
                              if length schemas = 0 then (Inl (ErrMsg ''no planned schemas found''), sch, s1, w)
                              else
                                (case atlas_open A dbURL w of
                                   (Inl _, w1) \<Rightarrow> mock w1
                                 | (Inr client, w1) \<Rightarrow>
                                     (case apply_native A projectID (ord schemas) client sch w1 of
                                        (r, sch', w2) \<Rightarrow> (r, sch', s1, w2)))))))"

definition Validate :: "string \<Rightarrow> unit res" where
  "Validate hcl = (if blank hcl then Inl (ErrMsg ''schema content is empty'') else Inr ())"

definition GetState :: "string \<Rightarrow> string \<Rightarrow> schema_service \<Rightarrow> string res" where
  "GetState projectID alias sch =
     (case map_of (sch_state sch) projectID of
        None \<Rightarrow> Inl (ErrMsg ''schema state not found'')
      | Some st \<Rightarrow>
          (case map_of st alias of None \<Rightarrow> Inl (ErrMsg ''schema state not found'') | Some val \<Rightarrow> Inr val))"

section \<open>Lemmas\<close>

lemma gm_put_fresh: "k \<notin> fst ` set m \<Longrightarrow> gm_put k v m = m @ [(k, v)]"
  unfolding gm_put_def by (induction m) auto

lemma copySchemas_append:
  "distinct (map fst (dst @ src)) \<Longrightarrow> fold (\<lambda>(k, v) dst. gm_put k v dst) src dst = dst @ src"
proof (induction src arbitrary: dst)
  case (Cons kv src)
  obtain k v where kv: "kv = (k, v)" by fastforce
  with Cons.prems have "gm_put k v dst = dst @ [(k, v)]" by (intro gm_put_fresh) (auto simp: image_iff)
  with Cons.IH [of "dst @ [(k, v)]"] Cons.prems kv show ?case by simp
qed simp

text \<open>A copy has the entries of the original, so later changes of one do not show in the other.\<close>

lemma copySchemas_same [simp]: "map_wf m \<Longrightarrow> copySchemas m = m"
  using copySchemas_append [of "[]" m] by (simp add: copySchemas_def map_wf_def)

text \<open>A migration without its version, which is the time of the call.\<close>

definition migration_core :: "Migration \<Rightarrow> string \<times> string \<times> string \<times> string \<times> bool" where
  "migration_core m = (MgID m, MgProjectID m, MgSQL m, MgDescription m, MgApplied m)"

definition needs_update :: "schemas option \<Rightarrow> string \<times> string \<Rightarrow> bool" where
  "needs_update current p \<longleftrightarrow> trim_space (schema_at current (fst p)) \<noteq> trim_space (snd p)"

lemma mock_changes_core:
  "map migration_core (mock_changes now i projectID current S) =
     map (\<lambda>p. migration_core (mock_migration 0 projectID p)) (filter (needs_update current) S)"
  by (induction S arbitrary: i)
    (auto simp: needs_update_def normalizeHCL_def migration_core_def mock_migration_def)

lemma length_mock_changes: "length (mock_changes now i projectID current S) = length (filter (needs_update current) S)"
  using mock_changes_core [THEN arg_cong, where f = length] by simp

definition local_mode :: "'s VaultRepository \<Rightarrow> vault_service \<Rightarrow> string \<Rightarrow> 's \<Rightarrow> bool" where
  "local_mode R svc projectID s \<longleftrightarrow>
     (case vault_Get R svc projectID ''database_url'' s of
        (Inl _, s') \<Rightarrow> s' = s | (Inr url, s') \<Rightarrow> s' = s \<and> url = [])"

lemma Plan_local:
  "local_mode R svc p s \<Longrightarrow> p \<noteq> [] \<Longrightarrow> S \<noteq> [] \<Longrightarrow> Plan R svc A now p S (sch, s, w) =
     (case planMock now p S sch of (r, sch') \<Rightarrow> (r, sch', s, w))"
  by (auto simp: Plan_def local_mode_def Let_def split: prod.splits sum.splits if_splits)

lemma Apply_local:
  "local_mode R svc p s \<Longrightarrow> p \<noteq> [] \<Longrightarrow> Apply R svc A ord p ms (sch, s, w) =
     (case applyMock p ms sch of (r, sch') \<Rightarrow> (r, sch', s, w))"
  by (auto simp: Apply_def local_mode_def Let_def split: prod.splits sum.splits if_splits)

section \<open>Properties\<close>

text \<open>
  Property C27.  The local mode, for a project whose vault has no database URL: a plan and its
  application succeed, whatever migrations are passed back; then the schemas planned are the
  state, and a second plan asks for exactly the files whose trimmed text is not that of the state.
  So planning the same files again proposes nothing, and a file that is left out is not noticed.
\<close>
theorem local_plan_apply_replan:
  assumes "local_mode R svc p s" and "p \<noteq> []" and "map_wf S" "S \<noteq> []" and "T \<noteq> []"
  shows "\<exists>r1 st1 st2 r2 st3.
    Plan R svc A now p S (sch, s, w) = (Inr r1, st1) \<and> Apply R svc A ord p ms st1 = (Inr (), st2) \<and>
    Plan R svc A now' p T st2 = (Inr r2, st3) \<and>
    (\<forall>alias content. map_of S alias = Some content \<longrightarrow> GetState p alias (fst st2) = Inr content) \<and>
    (\<forall>alias. map_of S alias = None \<longrightarrow> GetState p alias (fst st2) = Inl (ErrMsg ''schema state not found'')) \<and>
    map MgDescription (Migrations r2) =
      map (\<lambda>(alias, content). ''schema update for '' @ alias @ '' (mock)'') (filter (needs_update (Some S)) T) \<and>
    (HasChanges r2 \<longleftrightarrow> (\<exists>x \<in> set T. needs_update (Some S) x)) \<and> (set T \<subseteq> set S \<longrightarrow> \<not> HasChanges r2)"
proof -
  let ?sch1 = "sch\<lparr>lastPlanned := gm_put p S (lastPlanned sch)\<rparr>"
  let ?sch2 = "?sch1\<lparr>sch_state := gm_put p S (sch_state sch), lastPlanned := gm_del p (lastPlanned ?sch1)\<rparr>"
  obtain r1 where 1: "Plan R svc A now p S (sch, s, w) = (Inr r1, ?sch1, s, w)"
    using assms by (simp add: Plan_local planMock_def Let_def)
  have 2: "Apply R svc A ord p ms (?sch1, s, w) = (Inr (), ?sch2, s, w)"
    using assms by (simp add: Apply_local applyMock_def)
  let ?ms = "mock_changes now' 0 p (Some S) T"
  let ?r2 = "\<lparr>Migrations = ?ms, HasChanges = 0 < length ?ms, Summary = planSummary (length ?ms)\<rparr>"
  obtain st3 where 3: "Plan R svc A now' p T (?sch2, s, w) = (Inr ?r2, st3)"
    using assms by (simp add: Plan_local planMock_def Let_def)
  have d: "map MgDescription ?ms =
      map (\<lambda>(alias, content). ''schema update for '' @ alias @ '' (mock)'') (filter (needs_update (Some S)) T)"
    using arg_cong [OF mock_changes_core, of "map (\<lambda>(i, q, sq, d, b). d)" now' 0 p "Some S" T]
    by (simp add: migration_core_def mock_migration_def case_prod_unfold comp_def)
  have h: "HasChanges ?r2 \<longleftrightarrow> (\<exists>x \<in> set T. needs_update (Some S) x)"
    by (simp add: length_mock_changes) (meson filter_empty_conv)
  have "set T \<subseteq> set S \<longrightarrow> \<not> HasChanges ?r2"
  proof (intro impI)
    assume sub: "set T \<subseteq> set S"
    have "\<not> needs_update (Some S) x" if "x \<in> set T" for x
    proof -
      have "map_of S (fst x) = Some (snd x)"
        using that sub assms(3) map_wf_pair [OF assms(3), of "fst x" "snd x"] by auto
      then show ?thesis by (simp add: needs_update_def schema_at_def)
    qed
    with h show "\<not> HasChanges ?r2" by blast
  qed
  with 1 2 3 d h show ?thesis
    by (intro exI [of _ r1] exI [of _ "(?sch1, s, w)"] exI [of _ "(?sch2, s, w)"] exI [of _ ?r2] exI [of _ st3])
      (simp add: GetState_def)
qed

text \<open>
  The order in which the runtime visits the files of a request does not matter for a
  local plan: two orders of the same files give the same migrations up to their order (and their
  versions), the same summary, and a planned state with the same entries.
\<close>
theorem local_plan_any_order:
  assumes "mset S = mset S'" and "map_wf S"
    and "planMock now p S sch = (Inr r, sch1)" and "planMock now' p S' sch = (Inr r', sch2)"
  shows "mset (map migration_core (Migrations r)) = mset (map migration_core (Migrations r')) \<and>
    HasChanges r = HasChanges r' \<and> Summary r = Summary r' \<and>
    (\<exists>m m'. map_of (lastPlanned sch1) p = Some m \<and> map_of (lastPlanned sch2) p = Some m' \<and> map_of m = map_of m')"
proof -
  let ?cur = "map_of (sch_state sch) p"
  have f: "mset (filter (needs_update ?cur) S) = mset (filter (needs_update ?cur) S')"
    using assms(1) by simp
  then have c: "mset (map migration_core (mock_changes now 0 p ?cur S)) = mset (map migration_core (mock_changes now' 0 p ?cur S'))"
    unfolding mock_changes_core by (metis mset_map)
  then have "length (mock_changes now 0 p ?cur S) = length (mock_changes now' 0 p ?cur S')"
    by (metis length_map size_mset)
  moreover have wf: "map_wf S'"
    using assms(1,2) by (metis map_wf_def mset_map mset_eq_imp_distinct_iff)
  moreover have "map_of S = map_of S'"
    using assms(1,2) wf unfolding map_wf_def by (metis map_of_inject_set mset_eq_setD)
  ultimately show ?thesis
    using assms(2-4) c by (auto simp: planMock_def Let_def)
qed

text \<open>
  What the documentation of Atlas promises for a database that can be reached: opening and
  inspecting do not change it, a difference is empty exactly between equal realms, and applying a
  difference leads to the realm it was computed for.
\<close>

definition atlas_client :: "('w, 'k, 'r, 'c) atlas \<Rightarrow> string \<Rightarrow> 'k \<Rightarrow> ('w \<Rightarrow> 'r) \<Rightarrow> bool" where
  "atlas_client A url client realm \<longleftrightarrow>
     (\<forall>w. atlas_open A url w = (Inr client, w)) \<and>
     (\<forall>w. inspect_realm A client w = (Inr (realm w), w)) \<and>
     (\<forall>a b. \<exists>cs. realm_diff A client a b = Inr cs \<and> (cs = [] \<longleftrightarrow> a = b)) \<and>
     (\<forall>cs w. \<exists>cmds. plan_changes A client cs w = (Inr cmds, w)) \<and>
     (\<forall>w b cs. realm_diff A client (realm w) b = Inr cs \<longrightarrow>
        (\<exists>w'. apply_changes A client cs w = (Inr (), w') \<and> realm w' = b))"

lemma atlas_clientD:
  assumes "atlas_client A url client realm"
  shows "atlas_open A url w = (Inr client, w)" "inspect_realm A client w = (Inr (realm w), w)"
    "\<exists>cs. realm_diff A client a b = Inr cs \<and> (cs = [] \<longleftrightarrow> a = b)" "\<exists>cmds. plan_changes A client cs w = (Inr cmds, w)"
    "realm_diff A client (realm w) b = Inr cs \<Longrightarrow> \<exists>w'. apply_changes A client cs w = (Inr (), w') \<and> realm w' = b"
  using assms unfolding atlas_client_def by blast+

lemma plan_native_client:
  assumes "atlas_client A url client realm" and "evalHCL A (client_name A client) (combined_hcl S) = Inr b" and "map_wf S"
  shows "\<exists>r. plan_native A now p S client sch w = (Inr r, sch\<lparr>lastPlanned := gm_put p S (lastPlanned sch)\<rparr>, w) \<and>
    (HasChanges r \<longleftrightarrow> realm w \<noteq> b)"
proof -
  obtain cs where cs: "realm_diff A client (realm w) b = Inr cs" "cs = [] \<longleftrightarrow> realm w = b"
    using atlas_clientD(3) [OF assms(1)] by blast
  obtain cmds where "plan_changes A client cs w = (Inr cmds, w)" using atlas_clientD(4) [OF assms(1)] by blast
  with cs show ?thesis
    using assms(2,3) atlas_clientD(2) [OF assms(1)] by (auto simp: plan_native_def native_result_def)
qed

lemma apply_native_client:
  assumes "atlas_client A url client realm" and "evalHCL A (client_name A client) (combined_hcl S) = Inr b"
  shows "\<exists>w'. apply_native A p S client sch w =
      (Inr (), if realm w = b then sch else sch\<lparr>lastPlanned := gm_del p (lastPlanned sch)\<rparr>, w') \<and> realm w' = b"
proof -
  obtain cs where cs: "realm_diff A client (realm w) b = Inr cs" "cs = [] \<longleftrightarrow> realm w = b"
    using atlas_clientD(3) [OF assms(1)] by blast
  obtain w' where "apply_changes A client cs w = (Inr (), w')" "realm w' = b"
    using atlas_clientD(5) [OF assms(1) cs(1)] by blast
  with cs show ?thesis
    using assms(2) atlas_clientD(2) [OF assms(1)] by (auto simp: apply_native_def)
qed

lemma Plan_native:
  "vault_Get R svc p ''database_url'' s = (Inr url, s) \<Longrightarrow> url \<noteq> [] \<Longrightarrow> p \<noteq> [] \<Longrightarrow> S \<noteq> [] \<Longrightarrow>
     atlas_open A url w = (Inr client, w1) \<Longrightarrow> Plan R svc A now p S (sch, s, w) =
     (case plan_native A (now 0) p S client sch w1 of (r, sch', w2) \<Rightarrow> (r, sch', s, w2))"
  by (simp add: Plan_def Let_def)

lemma Apply_native:
  "vault_Get R svc p ''database_url'' s = (Inr url, s) \<Longrightarrow> url \<noteq> [] \<Longrightarrow> p \<noteq> [] \<Longrightarrow>
     map_of (lastPlanned sch) p = Some S \<Longrightarrow> S \<noteq> [] \<Longrightarrow> atlas_open A url w = (Inr client, w1) \<Longrightarrow>
     Apply R svc A ord p ms (sch, s, w) =
     (case apply_native A p (ord S) client sch w1 of (r, sch', w2) \<Rightarrow> (r, sch', s, w2))"
  by (simp add: Apply_def Let_def)


text \<open>
  When the vault has the URL of a database and it cannot be opened, applying a plan
  still succeeds: the planned schemas become the state, the plan is gone, and nothing was asked of
  the database but to open it.
\<close>
theorem apply_succeeds_without_database:
  assumes "vault_Get R svc p ''database_url'' s = (Inr url, s1)" "url \<noteq> []" "p \<noteq> []"
    and "map_of (lastPlanned sch) p = Some S" "S \<noteq> []" "map_wf S" and "atlas_open A url w = (Inl e, w1)"
  shows "\<exists>sch'. Apply R svc A ord p ms (sch, s, w) = (Inr (), sch', s1, w1) \<and>
    (\<forall>alias content. map_of S alias = Some content \<longrightarrow> GetState p alias sch' = Inr content) \<and>
    map_of (lastPlanned sch') p = None"
  using assms by (simp add: Apply_def Let_def applyMock_def GetState_def)

section \<open>Witnesses\<close>

text \<open>A database that is a text, over which a realm is that text.\<close>

definition text_atlas :: "(string, unit, string, string) atlas" where
  "text_atlas = \<lparr>atlas_open = (\<lambda>url w. (if url = ''down'' then Inl ErrDriver else Inr (), w)),
     client_name = (\<lambda>_. ''postgres''), inspect_realm = (\<lambda>_ w. (Inr w, w)),
     realm_diff = (\<lambda>_ a b. Inr (if a = b then [] else [b])), plan_changes = (\<lambda>_ cs w. (Inr cs, w)),
     apply_changes = (\<lambda>_ cs w. (Inr (), if cs = [] then w else last cs)),
     postgres_eval = Inr, sqlite_eval = Inr\<rparr>"

lemma text_atlas_client: "url \<noteq> ''down'' \<Longrightarrow> atlas_client text_atlas url () (\<lambda>w. w)"
  by (auto simp: atlas_client_def text_atlas_def)

definition url_vault :: "string \<Rightarrow> vault_memory \<Rightarrow> bool" where
  "url_vault url s \<longleftrightarrow>
     vault_Get memory_vault \<lparr>encryptionKey = replicate 32 (CHR ''k'')\<rparr> ''shop'' ''database_url'' s = (Inr url, s)"

lemma mem_get_same: "snd (vault_Get memory_vault svc p k s) = s"
  by (auto simp: vault_Get_def memory_vault_def mem_vault_get_def split: option.splits)

lemma url_vault_exists: "\<exists>s. url_vault url s"
proof -
  let ?svc = "\<lparr>encryptionKey = replicate 32 (CHR ''k'')\<rparr>"
  have "new_vault_service (replicate 32 (CHR ''k'')) = Inr ?svc" by (simp add: new_vault_service_def)
  from memv.vault_set_get [OF this, of "replicate 12 (CHR ''n'')" "[]" "''shop''" "''database_url''" url]
  obtain s where "fst (vault_Get memory_vault ?svc ''shop'' ''database_url'' s) = Inr url"
    by (auto simp: mem_vault_ok_def)
  then have "url_vault url s" using mem_get_same by (metis prod.collapse url_vault_def)
  then show ?thesis ..
qed

theorem local_plan_apply_replan_witness:
  "\<exists>r st. Plan memory_vault \<lparr>encryptionKey = []\<rparr> text_atlas (\<lambda>_. 0) ''shop'' [(''main'', '' table '')]
      (new_schema_service []\<lparr>sch_state := [(''shop'', [(''main'', ''table'')])]\<rparr>, [], []) = (Inr r, st)"
proof -
  have "local_mode memory_vault \<lparr>encryptionKey = []\<rparr> ''shop'' ([] :: vault_memory)"
    by (simp add: local_mode_def vault_Get_def memory_vault_def mem_vault_get_def)
  from local_plan_apply_replan [OF this, where S = "[(''main'', '' table '')]" and T = "[(''main'', ''table'')]"
      and A = text_atlas and now = "\<lambda>_. 0" and sch = "new_schema_service []\<lparr>sch_state := [(''shop'', [(''main'', ''table'')])]\<rparr>"
      and w = "[]" and ord = "\<lambda>m. m" and ms = "[]" and now' = "\<lambda>_. 0"]
  have "\<exists>r1 st1. Plan memory_vault \<lparr>encryptionKey = []\<rparr> text_atlas (\<lambda>_. 0) ''shop'' [(''main'', '' table '')]
      (new_schema_service []\<lparr>sch_state := [(''shop'', [(''main'', ''table'')])]\<rparr>, [], []) = (Inr r1, st1)"
    by (simp only: map_wf_def) force
  then show ?thesis by blast
qed

theorem local_plan_any_order_witness:
  "\<exists>r r'. fst (planMock (\<lambda>_. 0) ''shop'' [(''a'', ''x''), (''b'', ''y'')] (new_schema_service [])) = Inr r \<and>
     fst (planMock (\<lambda>_. 0) ''shop'' [(''b'', ''y''), (''a'', ''x'')] (new_schema_service [])) = Inr r' \<and>
     mset (map migration_core (Migrations r)) = mset (map migration_core (Migrations r'))"
proof -
  let ?S = "[(''a'', ''x''), (''b'', ''y'')]" and ?S' = "[(''b'', ''y''), (''a'', ''x'')]"
  obtain r s where 1: "planMock (\<lambda>_. 0) ''shop'' ?S (new_schema_service []) = (Inr r, s)"
    by (simp add: planMock_def Let_def)
  obtain r' s' where 2: "planMock (\<lambda>_. 0) ''shop'' ?S' (new_schema_service []) = (Inr r', s')"
    by (simp add: planMock_def Let_def)
  have m: "mset ?S = mset ?S'" "map_wf ?S" by (simp_all add: map_wf_def add_mset_commute)
  from local_plan_any_order [OF m 1 2] 1 2 show ?thesis by simp
qed


theorem apply_succeeds_without_database_witness:
  "\<exists>(s :: vault_memory) sch'. Apply memory_vault \<lparr>encryptionKey = replicate 32 (CHR ''k'')\<rparr> text_atlas (\<lambda>m. m) ''shop'' []
      (new_schema_service []\<lparr>lastPlanned := [(''shop'', [(''main'', ''table'')])]\<rparr>, s, []) = (Inr (), sch', s, []) \<and>
     GetState ''shop'' ''main'' sch' = Inr ''table''"
proof -
  obtain s where "url_vault ''down'' s" using url_vault_exists by blast
  then have v: "vault_Get memory_vault \<lparr>encryptionKey = replicate 32 (CHR ''k'')\<rparr> ''shop'' ''database_url'' s = (Inr ''down'', s)"
    by (simp add: url_vault_def)
  have "atlas_open text_atlas ''down'' [] = (Inl ErrDriver, [])" by (simp add: text_atlas_def)
  from apply_succeeds_without_database [OF v _ _ _ _ _ this, of
      "new_schema_service []\<lparr>lastPlanned := [(''shop'', [(''main'', ''table'')])]\<rparr>" "[(''main'', ''table'')]" "\<lambda>m. m" "[]"]
  show ?thesis by (fastforce simp: map_wf_def)
qed

end
