(* ===== verification/Sql_Dsn.thy ===== *)
theory Sql_Dsn
  imports Go_Files Hub_Config Sql_Store
begin

text \<open>
  Opening the store: \<open>Open\<close>, \<open>normalizeDSN\<close>, \<open>sqlitePath\<close> and \<open>migrate\<close> of
  \<open>packages/hub/internal/store/sqlstore/store.go\<close>.  \<open>home\<close> is what \<open>os.UserHomeDir\<close> returns,
  the empty string on an error, which the code ignores; the directory that \<open>sqlitePath\<close> makes
  is made in the file system that is passed through.  The driver is a parameter.
\<close>

definition sqlite_options :: string where
  "sqlite_options = ''?cache=shared&_pragma=foreign_keys(1)''"

definition sqlitePath :: "string \<Rightarrow> string \<Rightarrow> fs \<Rightarrow> string \<times> fs" where
  "sqlitePath home path w =
     (if has_prefix path ''file:'' then (path, w)
      else let p1 = (if path = [] then ''hub.db'' else path);
               p2 = (if \<not> has_prefix p1 ''/'' then path_join [home, ''.santokit'', p1] else p1)
           in (''file:'' @ p2 @ sqlite_options, snd (os_MkdirAll (path_dir p2) w)))"

text \<open>The driver, the normalized name and the dialect.\<close>

definition normalizeDSN :: "string \<Rightarrow> string \<Rightarrow> fs \<Rightarrow> (string \<times> string \<times> string) res \<times> fs" where
  "normalizeDSN home dsn w =
     (if has_prefix dsn ''postgres://'' \<or> has_prefix dsn ''postgresql://'' then
        (Inr (''pgx'', dsn, DialectPostgres), w)
      else if dsn = [] then
        (Inr (''sqlite'', ''file:'' @ path_join [home, ''.santokit'', ''hub.db''] @ sqlite_options, DialectSQLite), w)
      else if has_prefix dsn ''sqlite://'' then
        (case sqlitePath home (trim_prefix dsn ''sqlite://'') w of
           (n, w') \<Rightarrow> (Inr (''sqlite'', n, DialectSQLite), w'))
      else if has_prefix dsn ''file:'' \<or> has_suffix dsn ''.db'' then
        (case sqlitePath home (trim_prefix dsn ''file:'') w of
           (n, w') \<Rightarrow> (Inr (''sqlite'', n, DialectSQLite), w'))
      else if str_contains dsn ''/'' then
        (case sqlitePath home dsn w of (n, w') \<Rightarrow> (Inr (''sqlite'', n, DialectSQLite), w'))
      else (Inl (ErrMsg (''unsupported database url: '' @ dsn)), w))"

text \<open>\<open>migrate\<close> runs the seven \<open>CREATE TABLE IF NOT EXISTS\<close> statements and stops at the first that
  fails.  The tables of the model exist from the start, so that a statement changes no row.\<close>

definition migration_tables :: "string list" where
  "migration_tables = [''registry_manifests'', ''vault_secrets'', ''project_configs'', ''projects'',
     ''teams'', ''team_members'', ''personal_teams'']"

fun run_migrations :: "string list \<Rightarrow> unit db_op" where
  "run_migrations [] = db_return ()"
| "run_migrations (t # ts) = db_bind (exec (\<lambda>tab. Inr ((), tab))) (\<lambda>_. run_migrations ts)"

definition migrate :: "unit db_op" where
  "migrate = run_migrations migration_tables"

text \<open>\<open>sql.Open\<close> and \<open>Ping\<close> are the parameter \<open>connect\<close>: for a driver and a name, an error or the
  connection.\<close>

definition Open_db ::
  "(string \<Rightarrow> string \<Rightarrow> db res) \<Rightarrow> string \<Rightarrow> string \<Rightarrow> fs \<Rightarrow> (db \<times> string) res \<times> fs" where
  "Open_db connect home dsn w =
     (case normalizeDSN home dsn w of
        (Inl e, w') \<Rightarrow> (Inl e, w')
      | (Inr (driver, normalized, dialect), w') \<Rightarrow>
          (case connect driver normalized of
             Inl e \<Rightarrow> (Inl e, w')
           | Inr d \<Rightarrow>
               (case migrate d of
                  (Inl e, _) \<Rightarrow> (Inl e, w')
                | (Inr _, d') \<Rightarrow> (Inr (d', dialect), w'))))"

section \<open>Properties\<close>

lemma run_migrations_tables: "tables (snd (run_migrations ts d)) = tables d"
proof (induction ts arbitrary: d)
  case (Cons t ts)
  have "tables (snd (exec (\<lambda>tab. Inr ((), tab)) d)) = tables d" by (simp add: exec_alt)
  with Cons show ?case by (auto simp: db_bind_def split: prod.splits sum.splits)
qed (simp add: db_return_def)

lemma migrate_tables: "migrate d = (r, d') \<Longrightarrow> tables d' = tables d"
  using run_migrations_tables [of migration_tables d] by (simp add: migrate_def)

lemma sqlitePath_alt:
  "sqlitePath home path w =
     (if has_prefix path ''file:'' then (path, w)
      else let p = (if is_abs path then path
                    else path_join [home, ''.santokit'', if path = [] then ''hub.db'' else path])
           in (''file:'' @ p @ sqlite_options, snd (os_MkdirAll (path_dir p) w)))"
  by (cases path) (simp_all add: sqlitePath_def Let_def is_abs_def del: path_join.simps)

lemma MkdirAll_keeps_files: "fs_files (snd (os_MkdirAll p w)) = fs_files w"
  using MkdirAll_files [of p w] by (cases "os_MkdirAll p w") simp

lemma sqlitePath_files: "fs_files (snd (sqlitePath home path w)) = fs_files w"
  by (simp add: sqlitePath_alt Let_def MkdirAll_keeps_files del: path_join.simps)

lemma sqlitePath_abs:
  assumes "is_abs home" and "\<not> has_prefix path ''file:''"
  shows "\<exists>p. fst (sqlitePath home path w) = ''file:'' @ p @ sqlite_options \<and> is_abs p"
proof -
  have "is_abs (path_join (home # ps))" for ps
    using assms(1) by (rule is_abs_join)
  with assms show ?thesis
    by (simp add: sqlitePath_alt Let_def del: path_join.simps)
qed

text \<open>The part of a URL that names the file.\<close>

definition dsn_file :: "string \<Rightarrow> string" where
  "dsn_file dsn = (if has_prefix dsn ''sqlite://'' then trim_prefix dsn ''sqlite://'' else trim_prefix dsn ''file:'')"

definition dsn_postgres :: "string \<Rightarrow> bool" where
  "dsn_postgres dsn \<longleftrightarrow> has_prefix dsn ''postgres://'' \<or> has_prefix dsn ''postgresql://''"

definition dsn_sqlite :: "string \<Rightarrow> bool" where
  "dsn_sqlite dsn \<longleftrightarrow> has_prefix dsn ''sqlite://'' \<or> has_prefix dsn ''file:'' \<or> has_suffix dsn ''.db'' \<or> str_contains dsn ''/''"

lemma normalizeDSN_alt:
  "normalizeDSN home dsn w =
     (if dsn_postgres dsn then (Inr (''pgx'', dsn, DialectPostgres), w)
      else if dsn = [] then
        (Inr (''sqlite'', ''file:'' @ path_join [home, ''.santokit'', ''hub.db''] @ sqlite_options, DialectSQLite), w)
      else if dsn_sqlite dsn then
        (Inr (''sqlite'', fst (sqlitePath home (dsn_file dsn) w), DialectSQLite), snd (sqlitePath home (dsn_file dsn) w))
      else (Inl (ErrMsg (''unsupported database url: '' @ dsn)), w))"
  unfolding normalizeDSN_def dsn_postgres_def dsn_sqlite_def dsn_file_def trim_prefix_def
  by (simp split: prod.split del: path_join.simps has_prefix.simps)

lemma dsn_file_name:
  "has_prefix (dsn_file dsn) ''file:'' \<Longrightarrow> dsn = ''sqlite://'' @ dsn_file dsn \<or> dsn = ''file:'' @ dsn_file dsn"
  unfolding dsn_file_def trim_prefix_def has_prefix_iff by (auto split: if_splits)

text \<open>
  How a database URL is understood.  A \<open>postgres://\<close> or \<open>postgresql://\<close> URL goes to
  the driver \<open>pgx\<close> as it is; anything else that is accepted is an SQLite file; a URL is refused,
  and then nothing is made on disk, exactly when it has no scheme that is known, no slash and no
  \<open>.db\<close> at its end.  The dialect always agrees with the driver, and where the home directory is
  known the SQLite file is named by an absolute path, unless the URL gives a \<open>file:\<close> name after
  its scheme.
\<close>
theorem dsn_classified:
  assumes "is_abs home"
  shows "case normalizeDSN home dsn w of
      (Inl e, w') \<Rightarrow> w' = w \<and> e = ErrMsg (''unsupported database url: '' @ dsn) \<and>
        dsn \<noteq> [] \<and> \<not> dsn_postgres dsn \<and> \<not> dsn_sqlite dsn
    | (Inr (driver, name, dialect), w') \<Rightarrow>
        (driver = ''pgx'' \<and> dialect = DialectPostgres \<and> name = dsn \<and> w' = w \<and>
           dsn_postgres dsn) \<or>
        (driver = ''sqlite'' \<and> dialect = DialectSQLite \<and> fs_files w' = fs_files w \<and>
           ((\<exists>p. name = ''file:'' @ p @ sqlite_options \<and> is_abs p) \<or>
            dsn = ''sqlite://'' @ name \<or> dsn = ''file:'' @ name))"
proof -
  have sq: "(\<exists>p. fst (sqlitePath home (dsn_file dsn) w) = ''file:'' @ p @ sqlite_options \<and> is_abs p) \<or>
      dsn = ''sqlite://'' @ fst (sqlitePath home (dsn_file dsn) w) \<or>
      dsn = ''file:'' @ fst (sqlitePath home (dsn_file dsn) w)"
    using sqlitePath_abs [OF assms, of "dsn_file dsn" w] dsn_file_name [of dsn]
    by (cases "has_prefix (dsn_file dsn) ''file:''") (simp_all add: sqlitePath_alt)
  have j: "is_abs (path_join [home, ''.santokit'', ''hub.db''])"
    using assms by (rule is_abs_join)
  show ?thesis
    using j sq by (simp add: normalizeDSN_alt sqlitePath_files del: path_join.simps append.simps)
qed

theorem dsn_classified_witness:
  "case normalizeDSN ''/root'' ''mysql:x'' \<lparr>fs_dirs = [], fs_files = [], fs_faults = []\<rparr> of
     (Inl e, w') \<Rightarrow> e = ErrMsg (''unsupported database url: '' @ ''mysql:x'') | _ \<Rightarrow> False"
proof -
  have "normalizeDSN ''/root'' ''mysql:x'' \<lparr>fs_dirs = [], fs_files = [], fs_faults = []\<rparr> =
      (Inl (ErrMsg (''unsupported database url: '' @ ''mysql:x'')), \<lparr>fs_dirs = [], fs_files = [], fs_faults = []\<rparr>)"
    by code_simp
  with dsn_classified [where home = "''/root''" and dsn = "''mysql:x''" and w = "\<lparr>fs_dirs = [], fs_files = [], fs_faults = []\<rparr>"]
  show ?thesis by simp
qed

text \<open>
  The default in the home directory is not reachable: the settings always name a
  database, so the hub never opens the SQLite file of the case \<open>dsn == ""\<close>, and without
  \<open>STK_DATABASE_URL\<close> it asks for a PostgreSQL server on the local host.
\<close>
theorem default_database_is_postgres:
  "DatabaseURL (Load env) \<noteq> [] \<and>
   (env ''STK_DATABASE_URL'' = [] \<longrightarrow>
      normalizeDSN home (DatabaseURL (Load env)) w =
        (Inr (''pgx'', ''postgres://localhost:5432/santokit?sslmode=disable'', DialectPostgres), w))"
  by (simp add: DatabaseURL_not_Nil) (simp add: Load_def getEnv_def normalizeDSN_alt dsn_postgres_def)

theorem default_database_is_postgres_witness:
  "normalizeDSN ''/root'' (DatabaseURL (Load (\<lambda>_. []))) \<lparr>fs_dirs = [], fs_files = [], fs_faults = []\<rparr> =
     (Inr (''pgx'', ''postgres://localhost:5432/santokit?sslmode=disable'', DialectPostgres),
      \<lparr>fs_dirs = [], fs_files = [], fs_faults = []\<rparr>)"
  using default_database_is_postgres [of "\<lambda>_. []" "''/root''" "\<lparr>fs_dirs = [], fs_files = [], fs_faults = []\<rparr>"]
  by simp

end
