(* ===== verification/Hub_Api.thy ===== *)
theory Hub_Api
  imports Hub_Token Hub_Vault Hub_ProjectConfig Hub_Registry Hub_Projects_Db Hub_Schema Sql_Dsn
begin

text \<open>
  The API of the hub: the handlers of \<open>packages/hub/api/router.go\<close>, the routes of \<open>NewRouter\<close>, and
  the wiring of \<open>cmd/hub/main.go\<close>, where every service works on one database.  A handler takes what
  is fixed (\<open>hub_env\<close>), what one call draws from the clock and the random source (\<open>call_draws\<close>), the
  state of the hub and the request, and gives the new state and the reply.
\<close>

section \<open>The hub\<close>

record ('r, 'w) hub =
  hub_db :: db
  hub_redis :: 'r
  hub_files :: fs
  hub_schema :: schema_service
  hub_targets :: 'w

record ('o, 'r, 'w, 'k, 'm, 'c) hub_env =
  he_config :: config
  he_environ :: environ
  he_redis :: "('o, 'r) redis_client"
  he_zone :: int
  he_vault :: vault_service
  he_projects :: bool
  he_atlas :: "('w, 'k, 'm, 'c) atlas"

text \<open>\<open>he_projects\<close> is false when \<open>NewRouter\<close> was given no project service.\<close>

text \<open>\<open>cd_auth\<close> is the clock in the middleware, \<open>cd_now\<close> and \<open>cd_later\<close> are the first and the second
  reading in the handler; then the outcome of the random source for a nonce, the draws of the
  project service, the readings of a plan and the order of the loop of an application.\<close>

record call_draws =
  cd_auth :: go_time
  cd_now :: go_time
  cd_later :: go_time
  cd_nonce :: "string option"
  cd_draws :: draws
  cd_plan :: "nat \<Rightarrow> go_time"
  cd_order :: "schemas \<Rightarrow> schemas"

section \<open>Requests and replies\<close>

record login_req =
  LUserID :: string
  LEmail :: string

record token_req =
  TkUserID :: string
  TkEmail :: string
  TkExpiresIn :: "64 word"

record auth_login_req =
  AEmail :: string
  APassword :: string

record auth_register_req =
  REmail :: string
  RPassword :: string
  RName :: string
  RMetadata :: "(string \<times> json) list"

record manifest_req =
  MfProjectID :: string
  MfBundles :: "Bundle list"

record secret_req =
  SrProjectID :: string
  SrKey :: string
  SrValue :: string

record plan_req =
  PlProjectID :: string
  PlSchemas :: schemas

record apply_req =
  ApProjectID :: string
  ApMigrations :: "Migration list"

record config_req =
  CfProjectID :: string
  CfConfigs :: Config

record project_req =
  PrName :: string
  PrDescription :: string
  PrTeamID :: string

record authUserResponse =
  UID :: string
  UEmail :: string
  URoles :: "string list"

record authSessionResponse =
  SUser :: authUserResponse
  AccessToken :: string
  RefreshToken :: string
  SExpiresAt :: go_time

datatype hub_value =
    VText string
  | VIssued string string string go_time
  | VSession authSessionResponse
  | VUser authUserResponse
  | VStatus string
  | VManifest Manifest
  | VKeys "string list"
  | VPlan PlanResult
  | VConfig Config
  | VProjects "project_json list"
  | VProject project_json

type_synonym hub_reply = "hub_value reply"

section \<open>Running the services\<close>

definition run_hub_db :: "'a db_op \<Rightarrow> ('r, 'w) hub \<Rightarrow> 'a res \<times> ('r, 'w) hub" where
  "run_hub_db m h = (case m (hub_db h) of (x, d) \<Rightarrow> (x, h\<lparr>hub_db := d\<rparr>))"

definition run_registry ::
  "((db, 'r) reg_world \<Rightarrow> 'a res \<times> (db, 'r) reg_world) \<Rightarrow> ('r, 'w) hub \<Rightarrow> 'a res \<times> ('r, 'w) hub" where
  "run_registry m h =
     (case m \<lparr>rw_repo = hub_db h, rw_redis = hub_redis h, rw_files = hub_files h\<rparr> of
        (x, w) \<Rightarrow> (x, h\<lparr>hub_db := rw_repo w, hub_redis := rw_redis w, hub_files := rw_files w\<rparr>))"

definition run_projects :: "(proj_service \<Rightarrow> 'a \<times> proj_service) \<Rightarrow> ('r, 'w) hub \<Rightarrow> 'a \<times> ('r, 'w) hub" where
  "run_projects m h =
     (case m (InDb (hub_db h)) of
        (x, InDb d) \<Rightarrow> (x, h\<lparr>hub_db := d\<rparr>)
      | (x, InMaps _) \<Rightarrow> (x, h))"

definition run_schema ::
  "(schema_service \<times> db \<times> 'w \<Rightarrow> 'a res \<times> schema_service \<times> db \<times> 'w) \<Rightarrow> ('r, 'w) hub \<Rightarrow> 'a res \<times> ('r, 'w) hub" where
  "run_schema m h =
     (case m (hub_schema h, hub_db h, hub_targets h) of
        (x, sch, d, w) \<Rightarrow> (x, h\<lparr>hub_schema := sch, hub_db := d, hub_targets := w\<rparr>))"

text \<open>Most handlers end alike: an error is written with a status, a value is encoded.\<close>

fun answer :: "nat \<Rightarrow> ('a \<Rightarrow> hub_value) \<Rightarrow> 'a res \<times> 'h \<Rightarrow> 'h \<times> hub_reply" where
  "answer status v (Inl e, h) = (h, HttpError status e)"
| "answer status v (Inr x, h) = (h, HttpJson (v x))"

fun answer_ok :: "nat \<Rightarrow> unit res \<times> 'h \<Rightarrow> 'h \<times> hub_reply" where
  "answer_ok status (Inl e, h) = (h, HttpError status e)"
| "answer_ok status (Inr _, h) = (h, HttpOk)"

definition no_project :: hub_reply where
  "no_project = HttpError status_bad_request (ErrMsg ''X-Santokit-Project-ID header required'')"

section \<open>Authentication\<close>

definition second :: "64 word" where "second = 1000000000"
definition hours :: "64 word \<Rightarrow> 64 word" where "hours n = n * 3600 * second"

definition secret_of :: "('o, 'r, 'w, 'k, 'm, 'c) hub_env \<Rightarrow> string" where
  "secret_of E = JWTSecret (he_config E)"

text \<open>The user of a login: the identifier of the request, or its address, or \<open>local\<close>.\<close>

definition login_user :: "login_req \<Rightarrow> string" where
  "login_user req =
     (let u0 = trim_space (LUserID req);
          u1 = (if u0 = [] \<and> \<not> blank (LEmail req) then trim_space (LEmail req) else u0)
      in if u1 = [] then ''local'' else u1)"

definition handleLogin ::
  "('o, 'r, 'w, 'k, 'm, 'c) hub_env \<Rightarrow> call_draws \<Rightarrow> ('r, 'w) hub \<Rightarrow> login_req http_request \<Rightarrow> ('r, 'w) hub \<times> hub_reply" where
  "handleLogin E c h r =
     (case body r of
        Inl e \<Rightarrow> (h, HttpError status_bad_request e)
      | Inr req \<Rightarrow>
          (case issueToken (secret_of E) (cd_now c) (login_user req) (LEmail req) ''login'' (hours 24) of
             Inl e \<Rightarrow> (h, HttpError status_internal e)
           | Inr (token, exp) \<Rightarrow> (h, HttpJson (VIssued (login_user req) (LEmail req) token exp))))"

text \<open>The user of a personal token: the identifier of the request, or the user of a valid bearer
  token, or the address; empty when there is none of them.\<close>

definition token_user :: "('o, 'r, 'w, 'k, 'm, 'c) hub_env \<Rightarrow> call_draws \<Rightarrow> string \<Rightarrow> token_req \<Rightarrow> string" where
  "token_user E c auth req =
     (let u0 = trim_space (TkUserID req);
          u1 = (if u0 = [] then
                  (case bearer auth of
                     None \<Rightarrow> u0
                   | Some token \<Rightarrow>
                       (case api_parseUserIDFromToken (secret_of E) (cd_now c) token of
                          Some i \<Rightarrow> i | None \<Rightarrow> u0))
                else u0)
      in if u1 = [] \<and> \<not> blank (TkEmail req) then trim_space (TkEmail req) else u1)"

text \<open>\<open>time.Duration(req.ExpiresIn) * time.Second\<close> is computed in 64 bits.\<close>

definition token_ttl :: "64 word \<Rightarrow> 64 word" where
  "token_ttl expiresIn = (if 0 <s expiresIn then expiresIn * second else hours (30 * 24))"

definition handleCreateToken ::
  "('o, 'r, 'w, 'k, 'm, 'c) hub_env \<Rightarrow> call_draws \<Rightarrow> ('r, 'w) hub \<Rightarrow> token_req http_request \<Rightarrow> ('r, 'w) hub \<times> hub_reply" where
  "handleCreateToken E c h r =
     (case body r of
        Inl e \<Rightarrow> (h, HttpError status_bad_request e)
      | Inr req \<Rightarrow>
          (let userID = token_user E c (header r ''Authorization'') req
           in if userID = [] then (h, HttpError status_bad_request (ErrMsg ''user_id required''))
              else (case issueToken (secret_of E) (cd_later c) userID (TkEmail req) ''pat'' (token_ttl (TkExpiresIn req)) of
                      Inl e \<Rightarrow> (h, HttpError status_internal e)
                    | Inr (token, exp) \<Rightarrow> (h, HttpJson (VIssued userID (TkEmail req) token exp)))))"

definition session_reply :: "string \<Rightarrow> string \<Rightarrow> string \<times> go_time \<Rightarrow> hub_reply" where
  "session_reply userID email p =
     HttpJson (VSession \<lparr>SUser = \<lparr>UID = userID, UEmail = email, URoles = []\<rparr>, AccessToken = fst p,
                         RefreshToken = [], SExpiresAt = snd p\<rparr>)"

definition issue_session ::
  "('o, 'r, 'w, 'k, 'm, 'c) hub_env \<Rightarrow> call_draws \<Rightarrow> string \<Rightarrow> string \<Rightarrow> string \<Rightarrow> ('r, 'w) hub \<Rightarrow> ('r, 'w) hub \<times> hub_reply" where
  "issue_session E c userID email tokenType h =
     (case issueToken (secret_of E) (cd_later c) userID email tokenType (hours 24) of
        Inl e \<Rightarrow> (h, HttpError status_internal e)
      | Inr p \<Rightarrow> (h, session_reply userID email p))"

definition handleAuthLogin ::
  "('o, 'r, 'w, 'k, 'm, 'c) hub_env \<Rightarrow> call_draws \<Rightarrow> ('r, 'w) hub \<Rightarrow> auth_login_req http_request \<Rightarrow> ('r, 'w) hub \<times> hub_reply" where
  "handleAuthLogin E c h r =
     (case body r of
        Inl e \<Rightarrow> (h, HttpError status_bad_request e)
      | Inr req \<Rightarrow>
          (let u0 = trim_space (AEmail req); userID = (if u0 = [] then ''local'' else u0)
           in issue_session E c userID (AEmail req) ''login'' h))"

definition handleAuthRegister ::
  "('o, 'r, 'w, 'k, 'm, 'c) hub_env \<Rightarrow> call_draws \<Rightarrow> ('r, 'w) hub \<Rightarrow> auth_register_req http_request \<Rightarrow> ('r, 'w) hub \<times> hub_reply" where
  "handleAuthRegister E c h r =
     (case body r of
        Inl e \<Rightarrow> (h, HttpError status_bad_request e)
      | Inr req \<Rightarrow>
          (let userID = trim_space (REmail req)
           in if userID = [] then (h, HttpError status_bad_request (ErrMsg ''email required''))
              else issue_session E c userID (REmail req) ''register'' h))"

text \<open>The claims \<open>sub\<close>, or else \<open>id\<close>, and \<open>email\<close> of a payload, empty where they are not strings.\<close>

definition claim_text :: "payload \<Rightarrow> string \<Rightarrow> string" where
  "claim_text p k = (case string_claim p k of Some s \<Rightarrow> s | None \<Rightarrow> [])"

definition payload_user :: "payload \<Rightarrow> string" where
  "payload_user p = (if claim_text p ''sub'' = [] then claim_text p ''id'' else claim_text p ''sub'')"

text \<open>What \<open>handleAuthMe\<close> and \<open>handleAuthRefresh\<close> do before they reply.\<close>

definition read_bearer ::
  "('o, 'r, 'w, 'k, 'm, 'c) hub_env \<Rightarrow> call_draws \<Rightarrow> 'b http_request \<Rightarrow> payload res" where
  "read_bearer E c r =
     (case bearer (header r ''Authorization'') of
        None \<Rightarrow> Inl (ErrMsg ''missing bearer token'')
      | Some token \<Rightarrow>
          if \<not> verifyToken (secret_of E) (cd_now c) token then Inl (ErrMsg ''invalid token'')
          else (case parseTokenPayload token of None \<Rightarrow> Inl (ErrMsg ''invalid token'') | Some p \<Rightarrow> Inr p))"

definition handleAuthMe ::
  "('o, 'r, 'w, 'k, 'm, 'c) hub_env \<Rightarrow> call_draws \<Rightarrow> ('r, 'w) hub \<Rightarrow> unit http_request \<Rightarrow> ('r, 'w) hub \<times> hub_reply" where
  "handleAuthMe E c h r =
     (case read_bearer E c r of
        Inl e \<Rightarrow> (h, HttpError status_unauthorized e)
      | Inr p \<Rightarrow> (h, HttpJson (VUser \<lparr>UID = payload_user p, UEmail = claim_text p ''email'', URoles = []\<rparr>)))"

definition handleAuthRefresh ::
  "('o, 'r, 'w, 'k, 'm, 'c) hub_env \<Rightarrow> call_draws \<Rightarrow> ('r, 'w) hub \<Rightarrow> unit http_request \<Rightarrow> ('r, 'w) hub \<times> hub_reply" where
  "handleAuthRefresh E c h r =
     (case read_bearer E c r of
        Inl e \<Rightarrow> (h, HttpError status_unauthorized e)
      | Inr p \<Rightarrow> issue_session E c (payload_user p) (claim_text p ''email'') ''refresh'' h)"

definition handleAuthLogout :: "('r, 'w) hub \<Rightarrow> unit http_request \<Rightarrow> ('r, 'w) hub \<times> hub_reply" where
  "handleAuthLogout h r = (h, HttpJson (VStatus ''ok''))"

definition handleAuthOAuth :: "('r, 'w) hub \<Rightarrow> unit http_request \<Rightarrow> ('r, 'w) hub \<times> hub_reply" where
  "handleAuthOAuth h r = (h, HttpError status_bad_request (ErrMsg ''oauth not implemented''))"

section \<open>Manifests, secrets\<close>

definition handleGetManifest :: "('r, 'w) hub \<Rightarrow> unit http_request \<Rightarrow> ('r, 'w) hub \<times> hub_reply" where
  "handleGetManifest h r =
     (let projectID = project_header r
      in if projectID = [] then (h, no_project)
         else answer status_not_found VManifest (run_registry (reg_GetLatest sql_registry projectID) h))"

definition handlePushManifest ::
  "('o, 'r, 'w, 'k, 'm, 'c) hub_env \<Rightarrow> call_draws \<Rightarrow> ('r, 'w) hub \<Rightarrow> manifest_req http_request \<Rightarrow> ('r, 'w) hub \<times> hub_reply" where
  "handlePushManifest E c h r =
     (case body r of
        Inl e \<Rightarrow> (h, HttpError status_bad_request e)
      | Inr req \<Rightarrow>
          (let userID = (if user_id_from_context r = [] then ''local'' else user_id_from_context r);
               projectID = project_header r
           in if projectID = [] then (h, no_project)
              else answer status_internal VManifest
                (run_registry (Push sql_registry (he_environ E) (he_redis E) (he_zone E) (cd_now c) (cd_later c)
                   projectID (MfBundles req) userID) h)))"

definition handleListSecrets :: "('r, 'w) hub \<Rightarrow> unit http_request \<Rightarrow> ('r, 'w) hub \<times> hub_reply" where
  "handleListSecrets h r =
     (let projectID = project_header r
      in if projectID = [] then (h, no_project)
         else answer status_internal VKeys (run_hub_db (vault_List sql_vault projectID) h))"

definition handleSetSecret ::
  "('o, 'r, 'w, 'k, 'm, 'c) hub_env \<Rightarrow> call_draws \<Rightarrow> ('r, 'w) hub \<Rightarrow> secret_req http_request \<Rightarrow> ('r, 'w) hub \<times> hub_reply" where
  "handleSetSecret E c h r =
     (case body r of
        Inl e \<Rightarrow> (h, HttpError status_bad_request e)
      | Inr req \<Rightarrow>
          (let projectID = project_header r
           in if projectID = [] then (h, no_project)
              else if blank (SrKey req) \<or> blank (SrValue req) then
                (h, HttpError status_bad_request (ErrMsg ''key and value required''))
              else answer_ok status_internal
                (run_hub_db (vault_Set sql_vault (he_vault E) (cd_nonce c) projectID (SrKey req) (SrValue req)) h)))"

definition handleDeleteSecret :: "('r, 'w) hub \<Rightarrow> unit http_request \<Rightarrow> ('r, 'w) hub \<times> hub_reply" where
  "handleDeleteSecret h r =
     (let projectID = project_header r
      in if projectID = [] then (h, no_project)
         else answer_ok status_internal (run_hub_db (vault_Delete sql_vault projectID (url_param r ''key'')) h))"

section \<open>Schemas, configuration\<close>

fun check_schemas :: "schemas \<Rightarrow> unit res" where
  "check_schemas [] = Inr ()"
| "check_schemas ((alias, hcl) # rest) =
     (if blank alias then Inl (ErrMsg ''schema alias required'')
      else (case Validate hcl of Inl e \<Rightarrow> Inl e | Inr _ \<Rightarrow> check_schemas rest))"

definition handleSchemaPlan ::
  "('o, 'r, 'w, 'k, 'm, 'c) hub_env \<Rightarrow> call_draws \<Rightarrow> ('r, 'w) hub \<Rightarrow> plan_req http_request \<Rightarrow> ('r, 'w) hub \<times> hub_reply" where
  "handleSchemaPlan E c h r =
     (case body r of
        Inl e \<Rightarrow> (h, HttpError status_bad_request e)
      | Inr req \<Rightarrow>
          (let projectID = project_header r
           in if projectID = [] then (h, no_project)
              else if length (PlSchemas req) = 0 then (h, HttpError status_bad_request (ErrMsg ''schemas required''))
              else (case check_schemas (PlSchemas req) of
                      Inl e \<Rightarrow> (h, HttpError status_bad_request e)
                    | Inr _ \<Rightarrow> answer status_internal VPlan
                        (run_schema (Plan sql_vault (he_vault E) (he_atlas E) (cd_plan c) projectID (PlSchemas req)) h))))"

definition handleSchemaApply ::
  "('o, 'r, 'w, 'k, 'm, 'c) hub_env \<Rightarrow> call_draws \<Rightarrow> ('r, 'w) hub \<Rightarrow> apply_req http_request \<Rightarrow> ('r, 'w) hub \<times> hub_reply" where
  "handleSchemaApply E c h r =
     (case body r of
        Inl e \<Rightarrow> (h, HttpError status_bad_request e)
      | Inr req \<Rightarrow>
          (let projectID = project_header r
           in if projectID = [] then (h, no_project)
              else answer_ok status_internal
                (run_schema (Apply sql_vault (he_vault E) (he_atlas E) (cd_order c) projectID (ApMigrations req)) h)))"

definition handleConfigApply :: "('r, 'w) hub \<Rightarrow> config_req http_request \<Rightarrow> ('r, 'w) hub \<times> hub_reply" where
  "handleConfigApply h r =
     (case body r of
        Inl e \<Rightarrow> (h, HttpError status_bad_request e)
      | Inr req \<Rightarrow>
          (let projectID = project_header r; cfg = CfConfigs req
           in if projectID = [] then (h, no_project)
              else if blank (Databases cfg) \<and> blank (Auth cfg) \<and> blank (Storage cfg) then
                (h, HttpError status_bad_request (ErrMsg ''configs required''))
              else answer_ok status_internal (run_hub_db (db_cfg_set projectID cfg) h)))"

definition handleConfigGet :: "('r, 'w) hub \<Rightarrow> unit http_request \<Rightarrow> ('r, 'w) hub \<times> hub_reply" where
  "handleConfigGet h r =
     (let projectID = project_header r
      in if projectID = [] then (h, no_project)
         else answer status_not_found VConfig (run_hub_db (db_cfg_get projectID) h))"

section \<open>Projects\<close>

definition not_configured :: hub_reply where
  "not_configured = HttpError status_internal (ErrMsg ''projects service not configured'')"

definition handleListProjects ::
  "('o, 'r, 'w, 'k, 'm, 'c) hub_env \<Rightarrow> ('r, 'w) hub \<Rightarrow> unit http_request \<Rightarrow> ('r, 'w) hub \<times> hub_reply" where
  "handleListProjects E h r =
     (if \<not> he_projects E then (h, not_configured)
      else answer status_internal (\<lambda>ps. VProjects (map project_json_of ps))
        (run_projects (ListProjects (user_id_from_context r) (trim_space (query r ''team_id''))) h))"

definition handleCreateProject ::
  "('o, 'r, 'w, 'k, 'm, 'c) hub_env \<Rightarrow> call_draws \<Rightarrow> ('r, 'w) hub \<Rightarrow> project_req http_request \<Rightarrow> ('r, 'w) hub \<times> hub_reply" where
  "handleCreateProject E c h r =
     (if \<not> he_projects E then (h, not_configured)
      else (case body r of
              Inl e \<Rightarrow> (h, HttpError status_bad_request e)
            | Inr req \<Rightarrow>
                if user_id_from_context r = [] then (h, HttpError status_unauthorized (ErrMsg ''user_id required''))
                else answer status_bad_request (\<lambda>p. VProject (project_json_of p))
                  (run_projects (CreateProject (cd_draws c) (user_id_from_context r) (PrName req)
                     (PrDescription req) (PrTeamID req)) h)))"

definition handleGetProject ::
  "('o, 'r, 'w, 'k, 'm, 'c) hub_env \<Rightarrow> ('r, 'w) hub \<Rightarrow> unit http_request \<Rightarrow> ('r, 'w) hub \<times> hub_reply" where
  "handleGetProject E h r =
     (if \<not> he_projects E then (h, not_configured)
      else if blank (url_param r ''id'') then (h, HttpError status_bad_request (ErrMsg ''id required''))
      else answer status_not_found (\<lambda>p. VProject (project_json_of p))
        (run_projects (GetProject (url_param r ''id'')) h))"

section \<open>Routes\<close>

text \<open>
  The routes of \<open>NewRouter\<close>: method, path and handler, those of the group behind the middleware
  second.  A segment in braces matches any segment.
\<close>

definition public_routes :: "(string \<times> string \<times> string) list" where
  "public_routes =
     [(''GET'', ''/health'', ''health''),
      (''POST'', ''/auth/login'', ''handleAuthLogin''), (''POST'', ''/auth/register'', ''handleAuthRegister''),
      (''POST'', ''/auth/refresh'', ''handleAuthRefresh''), (''POST'', ''/auth/logout'', ''handleAuthLogout''),
      (''GET'', ''/auth/me'', ''handleAuthMe''), (''GET'', ''/auth/oauth'', ''handleAuthOAuth''),
      (''POST'', ''/api/v1/auth/login'', ''handleLogin''), (''POST'', ''/api/v1/auth/token'', ''handleCreateToken''),
      (''GET'', ''/api/v1/auth/me'', ''handleAuthMe''), (''POST'', ''/api/v1/auth/refresh'', ''handleAuthRefresh''),
      (''POST'', ''/api/v1/auth/logout'', ''handleAuthLogout''),
      (''POST'', ''/api/v1/auth/register'', ''handleAuthRegister'')]"

definition protected_routes :: "(string \<times> string \<times> string) list" where
  "protected_routes =
     [(''GET'', ''/api/v1/manifest/'', ''handleGetManifest''), (''POST'', ''/api/v1/manifest/'', ''handlePushManifest''),
      (''GET'', ''/api/v1/secrets/'', ''handleListSecrets''), (''POST'', ''/api/v1/secrets/'', ''handleSetSecret''),
      (''DELETE'', ''/api/v1/secrets/{key}'', ''handleDeleteSecret''),
      (''POST'', ''/api/v1/schema/plan'', ''handleSchemaPlan''), (''POST'', ''/api/v1/schema/apply'', ''handleSchemaApply''),
      (''POST'', ''/api/v1/config/apply'', ''handleConfigApply''), (''GET'', ''/api/v1/config/'', ''handleConfigGet''),
      (''GET'', ''/api/v1/projects/'', ''handleListProjects''), (''POST'', ''/api/v1/projects/'', ''handleCreateProject''),
      (''GET'', ''/api/v1/projects/{id}'', ''handleGetProject'')]"

text \<open>A mounted router answers its root with and without the final slash.\<close>

fun segments_match :: "string list \<Rightarrow> string list \<Rightarrow> bool" where
  "segments_match [] [] = True"
| "segments_match [[]] [] = True"
| "segments_match (p # ps) (s # ss) = ((p = s \<or> has_prefix p ''{'' \<and> s \<noteq> []) \<and> segments_match ps ss)"
| "segments_match _ _ = False"

definition path_matches :: "string \<Rightarrow> string \<Rightarrow> bool" where
  "path_matches pat path = segments_match (split_char (CHR ''/'') pat) (split_char (CHR ''/'') path)"

definition routed :: "string \<Rightarrow> string \<Rightarrow> string option" where
  "routed meth path =
     (case filter (\<lambda>(m, p, _). m = meth \<and> path_matches p path) (public_routes @ protected_routes) of
        [] \<Rightarrow> None | (_, _, name) # _ \<Rightarrow> Some name)"

text \<open>One call of the API, by the handler it reaches.\<close>

datatype hub_call =
    CallHealth
  | CallLogin "login_req http_request"
  | CallCreateToken "token_req http_request"
  | CallAuthLogin "auth_login_req http_request"
  | CallAuthRegister "auth_register_req http_request"
  | CallAuthMe "unit http_request"
  | CallAuthRefresh "unit http_request"
  | CallAuthLogout "unit http_request"
  | CallAuthOAuth "unit http_request"
  | CallGetManifest "unit http_request"
  | CallPushManifest "manifest_req http_request"
  | CallListSecrets "unit http_request"
  | CallSetSecret "secret_req http_request"
  | CallDeleteSecret "unit http_request"
  | CallSchemaPlan "plan_req http_request"
  | CallSchemaApply "apply_req http_request"
  | CallConfigApply "config_req http_request"
  | CallConfigGet "unit http_request"
  | CallListProjects "unit http_request"
  | CallCreateProject "project_req http_request"
  | CallGetProject "unit http_request"

definition guarded ::
  "('o, 'r, 'w, 'k, 'm, 'c) hub_env \<Rightarrow> call_draws \<Rightarrow> (('r, 'w) hub \<Rightarrow> 'b http_request \<Rightarrow> ('r, 'w) hub \<times> hub_reply) \<Rightarrow>
     ('r, 'w) hub \<Rightarrow> 'b http_request \<Rightarrow> ('r, 'w) hub \<times> hub_reply" where
  "guarded E c next h r = authMiddleware (he_environ E) (secret_of E) (cd_auth c) next h r"

fun serve ::
  "('o, 'r, 'w, 'k, 'm, 'c) hub_env \<Rightarrow> call_draws \<Rightarrow> hub_call \<Rightarrow> ('r, 'w) hub \<Rightarrow> ('r, 'w) hub \<times> hub_reply" where
  "serve E c CallHealth h = (h, HttpJson (VText ''OK''))"
| "serve E c (CallLogin r) h = handleLogin E c h r"
| "serve E c (CallCreateToken r) h = handleCreateToken E c h r"
| "serve E c (CallAuthLogin r) h = handleAuthLogin E c h r"
| "serve E c (CallAuthRegister r) h = handleAuthRegister E c h r"
| "serve E c (CallAuthMe r) h = handleAuthMe E c h r"
| "serve E c (CallAuthRefresh r) h = handleAuthRefresh E c h r"
| "serve E c (CallAuthLogout r) h = handleAuthLogout h r"
| "serve E c (CallAuthOAuth r) h = handleAuthOAuth h r"
| "serve E c (CallGetManifest r) h = guarded E c handleGetManifest h r"
| "serve E c (CallPushManifest r) h = guarded E c (handlePushManifest E c) h r"
| "serve E c (CallListSecrets r) h = guarded E c handleListSecrets h r"
| "serve E c (CallSetSecret r) h = guarded E c (handleSetSecret E c) h r"
| "serve E c (CallDeleteSecret r) h = guarded E c handleDeleteSecret h r"
| "serve E c (CallSchemaPlan r) h = guarded E c (handleSchemaPlan E c) h r"
| "serve E c (CallSchemaApply r) h = guarded E c (handleSchemaApply E c) h r"
| "serve E c (CallConfigApply r) h = guarded E c handleConfigApply h r"
| "serve E c (CallConfigGet r) h = guarded E c handleConfigGet h r"
| "serve E c (CallListProjects r) h = guarded E c (handleListProjects E) h r"
| "serve E c (CallCreateProject r) h = guarded E c (handleCreateProject E c) h r"
| "serve E c (CallGetProject r) h = guarded E c (handleGetProject E) h r"

section \<open>Starting the hub\<close>

text \<open>
  \<open>main\<close> up to the server: the settings, the database, the services over it.  \<open>connect\<close> opens a
  driver, \<open>home\<close> is the home directory; an error ends the program.
\<close>

definition hub_main ::
  "environ \<Rightarrow> ('o, 'r) redis_client \<Rightarrow> ('w, 'k, 'm, 'c) atlas \<Rightarrow> int \<Rightarrow> (string \<Rightarrow> string \<Rightarrow> db res) \<Rightarrow> string \<Rightarrow>
     'r \<Rightarrow> 'w \<Rightarrow> fs \<Rightarrow> (('o, 'r, 'w, 'k, 'm, 'c) hub_env \<times> ('r, 'w) hub) res" where
  "hub_main env rc A zone connect home redis targets files =
     (let cfg = Load env in
      (case Open_db connect home (DatabaseURL cfg) files of
         (Inl e, _) \<Rightarrow> Inl (ErrWrap ''Failed to open database: '' e)
       | (Inr (d, dialect), files') \<Rightarrow>
           (case new_vault_service (EncryptionKey cfg) of
              Inl e \<Rightarrow> Inl (ErrWrap ''Failed to initialize vault service: '' e)
            | Inr svc \<Rightarrow>
                Inr (\<lparr>he_config = cfg, he_environ = env, he_redis = rc, he_zone = zone, he_vault = svc,
                      he_projects = True, he_atlas = A\<rparr>,
                     \<lparr>hub_db = d, hub_redis = redis, hub_files = files',
                      hub_schema = new_schema_service (AtlasURL cfg), hub_targets = targets\<rparr>))))"

end
