(* ===== verification/Go_Url.thy ===== *)
theory Go_Url
  imports Go_Client Go_Json
begin

text \<open>
  URLs and headers on their way from a client to a router: \<open>net/url\<close>, and what \<open>net/http\<close> checks of a
  request.  A URL is an address, such as \<open>http://localhost:8080\<close>, and the rest after it: a path, a
  query and a fragment.
\<close>

section \<open>Paths\<close>

text \<open>The characters of a path that are never escaped, and those that a valid escaped path may have.\<close>

definition path_char :: "char \<Rightarrow> bool" where
  "path_char c \<longleftrightarrow>
     (let n = of_char c :: nat in
      (48 \<le> n \<and> n \<le> 57) \<or> (65 \<le> n \<and> n \<le> 90) \<or> (97 \<le> n \<and> n \<le> 122) \<or> c \<in> set ''-_.~$&+,/:;=@'')"

definition escaped_char :: "char \<Rightarrow> bool" where
  "escaped_char c \<longleftrightarrow> path_char c \<or> c \<in> set ''!()*[]%'' \<or> c = CHR 0x27"

definition upper_hex :: "nat \<Rightarrow> char" where
  "upper_hex n = (if n < 10 then char_of (48 + n) else char_of (55 + n))"

definition escape_char :: "char \<Rightarrow> string" where
  "escape_char c =
     (if path_char c then [c]
      else let n = of_char c :: nat in [CHR ''%'', upper_hex (n div 16), upper_hex (n mod 16)])"

definition url_escape :: "string \<Rightarrow> string" where
  "url_escape p = concat (map escape_char p)"

fun url_unescape :: "string \<Rightarrow> string option" where
  "url_unescape [] = Some []"
| "url_unescape (c # s) =
     (if c \<noteq> CHR ''%'' then map_option ((#) c) (url_unescape s)
      else (case s of
              a # b # r \<Rightarrow>
                (case (hex_val a, hex_val b) of
                   (Some i, Some j) \<Rightarrow> map_option ((#) (char_of (16 * i + j))) (url_unescape r)
                 | _ \<Rightarrow> None)
            | _ \<Rightarrow> None))"

text \<open>The path as a router on the other side sees it: the client sends the given text when it is a valid
  escaped path, and the escaped path otherwise; the router takes the raw text when it is not the
  usual escaping of the path.  \<open>None\<close> is a text that is no URL.\<close>

definition route_path :: "string \<Rightarrow> string option" where
  "route_path p =
     map_option (\<lambda>path.
        let sent = (if list_all escaped_char p then p else url_escape path)
        in (if url_escape path = sent then path else sent))
       (url_unescape p)"

section \<open>The rest of a URL\<close>

definition url_path :: "string \<Rightarrow> string" where
  "url_path s = takeWhile (\<lambda>c. c \<noteq> CHR ''?'') (takeWhile (\<lambda>c. c \<noteq> CHR ''#'') s)"

definition url_query :: "string \<Rightarrow> string" where
  "url_query s = drop 1 (dropWhile (\<lambda>c. c \<noteq> CHR ''?'') (takeWhile (\<lambda>c. c \<noteq> CHR ''#'') s))"

definition url_fragment :: "string \<Rightarrow> string" where
  "url_fragment s = drop 1 (dropWhile (\<lambda>c. c \<noteq> CHR ''#'') s)"

definition control_char :: "char \<Rightarrow> bool" where
  "control_char c \<longleftrightarrow> (let n = of_char c :: nat in n < 32 \<or> n = 127)"

text \<open>What \<open>url.Parse\<close> accepts after an address that it accepts.\<close>

definition url_ok :: "string \<Rightarrow> bool" where
  "url_ok s \<longleftrightarrow>
     \<not> list_ex control_char (takeWhile (\<lambda>c. c \<noteq> CHR ''#'') s) \<and>
     url_unescape (url_path s) \<noteq> None \<and> url_unescape (url_fragment s) \<noteq> None"

text \<open>\<open>Query().Get(k)\<close>: the first value of a key; a part that cannot be read is skipped.\<close>

definition query_text :: "string \<Rightarrow> string option" where
  "query_text s = url_unescape (map (\<lambda>c. if c = CHR ''+'' then CHR '' '' else c) s)"

definition query_pair :: "string \<Rightarrow> (string \<times> string) option" where
  "query_pair s =
     (if s = [] \<or> CHR '';'' \<in> set s then None
      else case (query_text (takeWhile (\<lambda>c. c \<noteq> CHR ''='') s), query_text (drop 1 (dropWhile (\<lambda>c. c \<noteq> CHR ''='') s))) of
             (Some k, Some v) \<Rightarrow> Some (k, v)
           | _ \<Rightarrow> None)"

definition query_get :: "string \<Rightarrow> string \<Rightarrow> string" where
  "query_get q k =
     (case map_of (List.map_filter query_pair (split_char (CHR ''&'') q)) k of None \<Rightarrow> [] | Some v \<Rightarrow> v)"

section \<open>Headers\<close>

text \<open>A value with control characters is not sent; the reader trims spaces and tabs.\<close>

definition header_char :: "char \<Rightarrow> bool" where
  "header_char c \<longleftrightarrow> c = CHR 0x09 \<or> \<not> control_char c"

definition trim_blank :: "string \<Rightarrow> string" where
  "trim_blank s =
     (let blank_char = (\<lambda>c. c = CHR '' '' \<or> c = CHR 0x09)
      in rev (dropWhile blank_char (rev (dropWhile blank_char s))))"

record raw_request =
  raw_method :: string
  raw_path :: string
  raw_query :: string
  raw_headers :: "(string \<times> string) list"
  raw_body :: string

definition raw_header :: "raw_request \<Rightarrow> string \<Rightarrow> string" where
  "raw_header r k = (case map_of (raw_headers r) k of None \<Rightarrow> [] | Some v \<Rightarrow> v)"

text \<open>What a server at an address gets of a request; \<open>None\<close> when the request is for somebody else or
  cannot be sent.\<close>

definition deliver :: "string \<Rightarrow> out_request \<Rightarrow> raw_request option" where
  "deliver addr req =
     (let s = drop (length addr) (out_url req) in
      if \<not> has_prefix (out_url req) addr \<or> \<not> has_prefix s ''/'' \<or> \<not> url_ok s \<or>
        \<not> list_all (\<lambda>(k, v). list_all header_char v) (out_headers req) then None
      else map_option (\<lambda>path.
             \<lparr>raw_method = out_method req, raw_path = path, raw_query = url_query s,
              raw_headers = map (\<lambda>(k, v). (k, trim_blank v)) (out_headers req), raw_body = out_body req\<rparr>)
           (route_path (url_path s)))"

section \<open>Paths that need no escaping\<close>

lemma url_escape_plain: "list_all path_char p \<Longrightarrow> url_escape p = p"
  by (induction p) (simp_all add: url_escape_def escape_char_def)

lemma url_unescape_plain: "CHR ''%'' \<notin> set p \<Longrightarrow> url_unescape p = Some p"
  by (induction p) auto

lemma path_char_plain: "path_char c \<Longrightarrow> c \<noteq> CHR ''%'' \<and> c \<noteq> CHR ''?'' \<and> c \<noteq> CHR ''#'' \<and> \<not> control_char c"
  by (auto simp: path_char_def control_char_def Let_def)

lemma plain_path_set: "list_all path_char p \<Longrightarrow> CHR ''%'' \<notin> set p \<and> CHR ''?'' \<notin> set p \<and> CHR ''#'' \<notin> set p"
  by (auto simp: list_all_iff dest: path_char_plain)

lemma route_path_plain: "list_all path_char p \<Longrightarrow> route_path p = Some p"
  using plain_path_set [of p]
  by (simp add: route_path_def url_unescape_plain url_escape_plain list_all_iff escaped_char_def)

lemma url_parts_plain:
  assumes "list_all path_char p"
  shows "url_path p = p" "url_query p = []" "url_ok p"
proof -
  have hash: "takeWhile (\<lambda>c. c \<noteq> CHR ''#'') p = p" and mark: "takeWhile (\<lambda>c. c \<noteq> CHR ''?'') p = p"
    using plain_path_set [OF assms] by (auto simp: takeWhile_eq_all_conv)
  show "url_path p = p" unfolding url_path_def hash mark ..
  have "dropWhile (\<lambda>c. c \<noteq> CHR ''?'') p = []" and frag: "dropWhile (\<lambda>c. c \<noteq> CHR ''#'') p = []"
    using plain_path_set [OF assms] by (auto simp: dropWhile_eq_Nil_conv)
  then show "url_query p = []" unfolding url_query_def hash by (simp only: drop_Nil)
  have "\<not> list_ex control_char p" using assms path_char_plain by (auto simp: list_ex_iff list_all_iff)
  moreover have "url_unescape p = Some p" using plain_path_set [OF assms] url_unescape_plain by blast
  ultimately show "url_ok p"
    by (simp add: url_ok_def hash \<open>url_path p = p\<close> url_fragment_def frag)
qed

text \<open>Escaping is undone by unescaping.\<close>

lemma hex_val_upper: "n < 16 \<Longrightarrow> hex_val (upper_hex n) = Some n"
  by (simp add: hex_val_def upper_hex_def Let_def)

lemma char_halves: "(of_char c :: nat) div 16 < 16"
proof -
  have "(of_char c :: nat) < 256" by (metis mod_less_divisor of_char_mod_256 zero_less_numeral)
  then show ?thesis by presburger
qed

lemma unescape_char: "url_unescape (escape_char c @ s) = map_option ((#) c) (url_unescape s)"
proof (cases "path_char c")
  case True
  then show ?thesis using path_char_plain [OF True] by (simp add: escape_char_def)
next
  case False
  define h l where "h = (of_char c :: nat) div 16" and "l = (of_char c :: nat) mod 16"
  have "16 * h + l = of_char c" by (simp add: h_def l_def)
  then have "(char_of (16 * h + l) :: char) = c" by simp
  moreover have "h < 16" "l < 16" using char_halves by (simp_all add: h_def l_def)
  moreover have "escape_char c = [CHR ''%'', upper_hex h, upper_hex l]"
    using False by (simp add: escape_char_def h_def l_def Let_def)
  ultimately show ?thesis by (simp add: hex_val_upper)
qed

lemma unescape_escape: "url_unescape (url_escape p) = Some p"
  by (induction p) (simp_all add: url_escape_def unescape_char)

text \<open>A request whose path needs no escaping arrives with that path, without its query.\<close>

lemma deliver_plain:
  assumes "out_url req = addr @ s" and "has_prefix s ''/''" and "url_ok s" and "list_all path_char (url_path s)"
    and "list_all (\<lambda>(k, v). list_all header_char v) (out_headers req)"
  shows "deliver addr req = Some
    \<lparr>raw_method = out_method req, raw_path = url_path s, raw_query = url_query s,
     raw_headers = map (\<lambda>(k, v). (k, trim_blank v)) (out_headers req), raw_body = out_body req\<rparr>"
  using assms by (simp add: deliver_def route_path_plain)

end
