(* ===== verification/Hub_Wire.thy ===== *)
theory Hub_Wire
  imports Hub_Api Go_Json_Struct Go_Url
begin

text \<open>
  The hub as its clients see it, in bytes: the routes of \<open>NewRouter\<close> on a request as it arrives, the
  decoding of each body into the struct of its handler, and the encoding of what the handlers
  write.  \<open>wire\<close> is what the source does not settle: the text of an error, and how a time is written,
  which depends on the zone that the clock or the database driver gave it.  The model does not tell
  nil slices from empty ones in manifests and lists; it writes \<open>null\<close> for both.
\<close>

section \<open>Requests\<close>

definition to_request :: "raw_request \<Rightarrow> 'b res \<Rightarrow> 'b http_request" where
  "to_request r b =
     \<lparr>header = raw_header r, query = query_get (raw_query r),
      url_param = (\<lambda>_. snd (path_split (raw_path r))), ctx_user = None, body = b\<rparr>"

definition login_decoder :: "login_req decoder" where
  "login_decoder = decode_struct
     [(''user_id'', decode_str (\<lambda>x q. q\<lparr>LUserID := x\<rparr>)), (''email'', decode_str (\<lambda>x q. q\<lparr>LEmail := x\<rparr>))]"

text \<open>An integer in range; the parser keeps no trace of an exponent or a fraction that leave it whole,
  with which Go refuses it.\<close>

definition decode_int64 :: "(64 word \<Rightarrow> 's \<Rightarrow> 's) \<Rightarrow> 's decoder" where
  "decode_int64 put v s =
     (case v of
        RNum neg m e \<Rightarrow>
          let i = (if neg then - int m else int m)
          in if e = 0 \<and> - (2 ^ 63) \<le> i \<and> i < 2 ^ 63 then Inr (put (word_of_int i) s) else Inl ErrDecode
      | RNull \<Rightarrow> Inr s
      | _ \<Rightarrow> Inl ErrDecode)"

definition token_decoder :: "token_req decoder" where
  "token_decoder = decode_struct
     [(''user_id'', decode_str (\<lambda>x q. q\<lparr>TkUserID := x\<rparr>)), (''email'', decode_str (\<lambda>x q. q\<lparr>TkEmail := x\<rparr>)),
      (''expires_in'', decode_int64 (\<lambda>x q. q\<lparr>TkExpiresIn := x\<rparr>))]"

definition auth_login_decoder :: "auth_login_req decoder" where
  "auth_login_decoder = decode_struct
     [(''email'', decode_str (\<lambda>x q. q\<lparr>AEmail := x\<rparr>)), (''password'', decode_str (\<lambda>x q. q\<lparr>APassword := x\<rparr>))]"

definition decode_json_map :: "((string \<times> json) list option \<Rightarrow> 's \<Rightarrow> 's) \<Rightarrow> 's decoder" where
  "decode_json_map put v s =
     (case raw_value v of
        Some JNull \<Rightarrow> Inr (put None s)
      | Some (JObj ms) \<Rightarrow> Inr (put (Some ms) s)
      | _ \<Rightarrow> Inl ErrDecode)"

definition auth_register_decoder :: "auth_register_req decoder" where
  "auth_register_decoder = decode_struct
     [(''email'', decode_str (\<lambda>x q. q\<lparr>REmail := x\<rparr>)), (''password'', decode_str (\<lambda>x q. q\<lparr>RPassword := x\<rparr>)),
      (''name'', decode_str (\<lambda>x q. q\<lparr>RName := x\<rparr>)),
      (''metadata'', decode_json_map (\<lambda>x q. q\<lparr>RMetadata := (case x of None \<Rightarrow> [] | Some m \<Rightarrow> m)\<rparr>))]"

definition bytes_or_empty :: "string option \<Rightarrow> string" where
  "bytes_or_empty b = (case b of None \<Rightarrow> [] | Some s \<Rightarrow> s)"

definition bundle_decoder :: "Bundle decoder" where
  "bundle_decoder = decode_struct
     [(''type'', decode_str (\<lambda>x b. b\<lparr>BType := x\<rparr>)), (''namespace'', decode_str (\<lambda>x b. b\<lparr>Namespace := x\<rparr>)),
      (''name'', decode_str (\<lambda>x b. b\<lparr>BName := x\<rparr>)), (''hash'', decode_str (\<lambda>x b. b\<lparr>BHash := x\<rparr>)),
      (''content'', decode_bytes (\<lambda>x b. b\<lparr>Content := bytes_or_empty x\<rparr>)),
      (''config'', decode_json_map (\<lambda>x b. b\<lparr>BConfig := x\<rparr>))]"

definition zero_bundle :: Bundle where
  "zero_bundle = \<lparr>BType = [], Namespace = [], BName = [], BHash = [], Content = [], BConfig = None\<rparr>"

definition decode_elems :: "'a decoder \<Rightarrow> 'a \<Rightarrow> ('a list \<Rightarrow> 's \<Rightarrow> 's) \<Rightarrow> 's decoder" where
  "decode_elems f zero put = decode_list f zero (\<lambda>x. put (case x of None \<Rightarrow> [] | Some xs \<Rightarrow> xs))"

definition manifest_decoder :: "manifest_req decoder" where
  "manifest_decoder = decode_struct
     [(''project_id'', decode_str (\<lambda>x q. q\<lparr>MfProjectID := x\<rparr>)),
      (''bundles'', decode_elems bundle_decoder zero_bundle (\<lambda>x q. q\<lparr>MfBundles := x\<rparr>))]"

definition secret_decoder :: "secret_req decoder" where
  "secret_decoder = decode_struct
     [(''project_id'', decode_str (\<lambda>x q. q\<lparr>SrProjectID := x\<rparr>)), (''key'', decode_str (\<lambda>x q. q\<lparr>SrKey := x\<rparr>)),
      (''value'', decode_str (\<lambda>x q. q\<lparr>SrValue := x\<rparr>))]"

text \<open>A map of strings; the members of the text are put into the map that is there.\<close>

definition decode_str_map :: "('s \<Rightarrow> (string, string) gomap) \<Rightarrow> ((string, string) gomap \<Rightarrow> 's \<Rightarrow> 's) \<Rightarrow> 's decoder" where
  "decode_str_map get put v s =
     (case v of
        RNull \<Rightarrow> Inr (put [] s)
      | RObj ms \<Rightarrow> (case decode_entries (decode_str (\<lambda>x _. x)) [] ms (get s) of Inl e \<Rightarrow> Inl e | Inr m \<Rightarrow> Inr (put m s))
      | _ \<Rightarrow> Inl ErrDecode)"

definition plan_decoder :: "plan_req decoder" where
  "plan_decoder = decode_struct
     [(''project_id'', decode_str (\<lambda>x q. q\<lparr>PlProjectID := x\<rparr>)),
      (''schemas'', decode_str_map PlSchemas (\<lambda>x q. q\<lparr>PlSchemas := x\<rparr>))]"

definition migration_decoder :: "Migration decoder" where
  "migration_decoder = decode_struct
     [(''id'', decode_str (\<lambda>x m. m\<lparr>MgID := x\<rparr>)), (''project_id'', decode_str (\<lambda>x m. m\<lparr>MgProjectID := x\<rparr>)),
      (''version'', decode_str (\<lambda>x m. m\<lparr>MgVersion := x\<rparr>)), (''sql'', decode_str (\<lambda>x m. m\<lparr>MgSQL := x\<rparr>)),
      (''description'', decode_str (\<lambda>x m. m\<lparr>MgDescription := x\<rparr>)), (''applied'', decode_bool (\<lambda>x m. m\<lparr>MgApplied := x\<rparr>))]"

definition zero_migration :: Migration where
  "zero_migration =
     \<lparr>MgID = [], MgProjectID = [], MgVersion = [], MgSQL = [], MgDescription = [], MgApplied = False\<rparr>"

definition apply_decoder :: "apply_req decoder" where
  "apply_decoder = decode_struct
     [(''project_id'', decode_str (\<lambda>x q. q\<lparr>ApProjectID := x\<rparr>)),
      (''migrations'', decode_elems migration_decoder zero_migration (\<lambda>x q. q\<lparr>ApMigrations := x\<rparr>))]"

definition config_decoder :: "config_req decoder" where
  "config_decoder = decode_struct
     [(''project_id'', decode_str (\<lambda>x q. q\<lparr>CfProjectID := x\<rparr>)),
      (''configs'', decode_struct
         [(''databases'', decode_str (\<lambda>x q. q\<lparr>CfConfigs := CfConfigs q\<lparr>Databases := x\<rparr>\<rparr>)),
          (''auth'', decode_str (\<lambda>x q. q\<lparr>CfConfigs := CfConfigs q\<lparr>Auth := x\<rparr>\<rparr>)),
          (''storage'', decode_str (\<lambda>x q. q\<lparr>CfConfigs := CfConfigs q\<lparr>Storage := x\<rparr>\<rparr>))])]"

definition project_decoder :: "project_req decoder" where
  "project_decoder = decode_struct
     [(''name'', decode_str (\<lambda>x q. q\<lparr>PrName := x\<rparr>)), (''description'', decode_str (\<lambda>x q. q\<lparr>PrDescription := x\<rparr>)),
      (''team_id'', decode_str (\<lambda>x q. q\<lparr>PrTeamID := x\<rparr>))]"

text \<open>The call that a request makes of a handler.\<close>

definition call_of :: "string \<Rightarrow> raw_request \<Rightarrow> hub_call" where
  "call_of name r =
     (let plain = to_request r (Inr ()); text = raw_body r in
      if name = ''health'' then CallHealth
      else if name = ''handleLogin'' then
        CallLogin (to_request r (json_decode login_decoder text \<lparr>LUserID = [], LEmail = []\<rparr>))
      else if name = ''handleCreateToken'' then
        CallCreateToken (to_request r (json_decode token_decoder text \<lparr>TkUserID = [], TkEmail = [], TkExpiresIn = 0\<rparr>))
      else if name = ''handleAuthLogin'' then
        CallAuthLogin (to_request r (json_decode auth_login_decoder text \<lparr>AEmail = [], APassword = []\<rparr>))
      else if name = ''handleAuthRegister'' then
        CallAuthRegister (to_request r
          (json_decode auth_register_decoder text \<lparr>REmail = [], RPassword = [], RName = [], RMetadata = []\<rparr>))
      else if name = ''handleAuthMe'' then CallAuthMe plain
      else if name = ''handleAuthRefresh'' then CallAuthRefresh plain
      else if name = ''handleAuthLogout'' then CallAuthLogout plain
      else if name = ''handleAuthOAuth'' then CallAuthOAuth plain
      else if name = ''handleGetManifest'' then CallGetManifest plain
      else if name = ''handlePushManifest'' then
        CallPushManifest (to_request r (json_decode manifest_decoder text \<lparr>MfProjectID = [], MfBundles = []\<rparr>))
      else if name = ''handleListSecrets'' then CallListSecrets plain
      else if name = ''handleSetSecret'' then
        CallSetSecret (to_request r (json_decode secret_decoder text \<lparr>SrProjectID = [], SrKey = [], SrValue = []\<rparr>))
      else if name = ''handleDeleteSecret'' then CallDeleteSecret plain
      else if name = ''handleSchemaPlan'' then
        CallSchemaPlan (to_request r (json_decode plan_decoder text \<lparr>PlProjectID = [], PlSchemas = []\<rparr>))
      else if name = ''handleSchemaApply'' then
        CallSchemaApply (to_request r (json_decode apply_decoder text \<lparr>ApProjectID = [], ApMigrations = []\<rparr>))
      else if name = ''handleConfigApply'' then
        CallConfigApply (to_request r (json_decode config_decoder text \<lparr>CfProjectID = [], CfConfigs = empty_Config\<rparr>))
      else if name = ''handleConfigGet'' then CallConfigGet plain
      else if name = ''handleListProjects'' then CallListProjects plain
      else if name = ''handleCreateProject'' then
        CallCreateProject (to_request r (json_decode project_decoder text \<lparr>PrName = [], PrDescription = [], PrTeamID = []\<rparr>))
      else CallGetProject plain)"

section \<open>Replies\<close>

record wire =
  err_text :: "go_error \<Rightarrow> string"
  time_text :: "go_time \<Rightarrow> string res"

definition strs_json :: "string list \<Rightarrow> json" where
  "strs_json ks = JArr (map JStr ks)"

definition nil_or :: "'a list \<Rightarrow> json \<Rightarrow> json" where
  "nil_or xs j = (if xs = [] then JNull else j)"

definition user_json :: "authUserResponse \<Rightarrow> json" where
  "user_json u =
     JObj ([(''id'', JStr (UID u))] @ (if UEmail u = [] then [] else [(''email'', JStr (UEmail u))]) @
       [(''roles'', strs_json (URoles u))])"

definition hub_bundle_json :: "Bundle \<Rightarrow> json" where
  "hub_bundle_json b =
     JObj ([(''type'', JStr (BType b)), (''namespace'', JStr (Namespace b)), (''name'', JStr (BName b)),
         (''hash'', JStr (BHash b)), (''content'', nil_or (Content b) (JStr (std_encode (Content b))))] @
       (case BConfig b of None \<Rightarrow> [] | Some m \<Rightarrow> if m = [] then [] else [(''config'', json_sorted (JObj m))]))"

definition hub_migration_json :: "Migration \<Rightarrow> json" where
  "hub_migration_json m =
     JObj [(''id'', JStr (MgID m)), (''project_id'', JStr (MgProjectID m)), (''version'', JStr (MgVersion m)),
       (''sql'', JStr (MgSQL m)), (''description'', JStr (MgDescription m)), (''applied'', JBool (MgApplied m))]"

definition config_value :: "Config \<Rightarrow> json" where
  "config_value c = JObj [(''databases'', JStr (Databases c)), (''auth'', JStr (Auth c)), (''storage'', JStr (Storage c))]"

definition plan_value :: "PlanResult \<Rightarrow> json" where
  "plan_value p =
     JObj [(''migrations'', nil_or (Migrations p) (JArr (map hub_migration_json (Migrations p)))),
       (''has_changes'', JBool (HasChanges p)), (''summary'', JStr (Summary p))]"

definition project_value :: "wire \<Rightarrow> project_json \<Rightarrow> json res" where
  "project_value W p =
     (case (time_text W (PjCreatedAt p), time_text W (PjUpdatedAt p)) of
        (Inr c, Inr u) \<Rightarrow>
          Inr (JObj [(''id'', JStr (PjID p)), (''name'', JStr (PjName p)), (''description'', JStr (PjDescription p)),
            (''created_at'', JStr c), (''updated_at'', JStr u), (''team_id'', JStr (PjTeamID p)), (''owner_id'', JStr (PjOwnerID p))])
      | _ \<Rightarrow> Inl ErrDecode)"

fun value_json :: "wire \<Rightarrow> hub_value \<Rightarrow> json res" where
  "value_json W (VText s) = Inr (JStr s)"
| "value_json W (VIssued user email tok exp) =
     (case time_text W exp of
        Inl e \<Rightarrow> Inl e
      | Inr t \<Rightarrow> Inr (JObj [(''email'', JStr email), (''expires_at'', JStr t), (''token'', JStr tok), (''user_id'', JStr user)]))"
| "value_json W (VSession s) =
     (case time_text W (SExpiresAt s) of
        Inl e \<Rightarrow> Inl e
      | Inr t \<Rightarrow>
          Inr (JObj ([(''user'', user_json (SUser s)), (''accessToken'', JStr (AccessToken s))] @
            (if RefreshToken s = [] then [] else [(''refreshToken'', JStr (RefreshToken s))]) @ [(''expiresAt'', JStr t)])))"
| "value_json W (VUser u) = Inr (user_json u)"
| "value_json W (VStatus s) = Inr (JObj [(''status'', JStr s)])"
| "value_json W (VManifest m) =
     (case time_text W (CreatedAt m) of
        Inl e \<Rightarrow> Inl e
      | Inr t \<Rightarrow>
          Inr (JObj [(''id'', JStr (MID m)), (''project_id'', JStr (MProjectID m)), (''version'', JStr (Version m)),
            (''bundles'', nil_or (Bundles m) (JArr (map hub_bundle_json (Bundles m)))), (''created_at'', JStr t),
            (''created_by'', JStr (CreatedBy m))]))"
| "value_json W (VKeys ks) = Inr (nil_or ks (strs_json ks))"
| "value_json W (VPlan p) = Inr (plan_value p)"
| "value_json W (VConfig c) = Inr (config_value c)"
| "value_json W (VProjects ps) =
     (case those (map (\<lambda>p. case project_value W p of Inl e \<Rightarrow> None | Inr j \<Rightarrow> Some j) ps) of
        None \<Rightarrow> Inl ErrDecode
      | Some js \<Rightarrow> Inr (nil_or ps (JArr js)))"
| "value_json W (VProject p) = project_value W p"

text \<open>\<open>http.Error\<close> and \<open>Encode\<close> end the body with a line feed; when a value cannot be encoded nothing is
  written.\<close>

fun reply_bytes :: "wire \<Rightarrow> hub_reply \<Rightarrow> nat \<times> string" where
  "reply_bytes W (HttpError n e) = (n, err_text W e @ [CHR 0x0A])"
| "reply_bytes W HttpOk = (200, [])"
| "reply_bytes W (HttpJson v) =
     (case v of
        VText s \<Rightarrow> (200, s)
      | _ \<Rightarrow> (case value_json W v of Inl e \<Rightarrow> (200, []) | Inr j \<Rightarrow> (200, json_compact j @ [CHR 0x0A])))"

section \<open>The server\<close>

text \<open>A path that only other methods have is answered with 405, others with 404.\<close>

definition no_route :: "raw_request \<Rightarrow> nat \<times> string" where
  "no_route r =
     (if list_ex (\<lambda>(m, p, _). path_matches p (raw_path r)) (public_routes @ protected_routes) then (405, [])
      else (404, ''404 page not found'' @ [CHR 0x0A]))"

definition hub_http ::
  "('o, 'r, 'w, 'k, 'm, 'c) hub_env \<Rightarrow> call_draws \<Rightarrow> wire \<Rightarrow> raw_request \<Rightarrow> ('r, 'w) hub \<Rightarrow> (nat \<times> string) \<times> ('r, 'w) hub" where
  "hub_http E c W r h =
     (case routed (raw_method r) (raw_path r) of
        None \<Rightarrow> (no_route r, h)
      | Some name \<Rightarrow> (case serve E c (call_of name r) h of (h', rep) \<Rightarrow> (reply_bytes W rep, h')))"

text \<open>A client of the hub at an address: the network is the hub and the number of the calls so far,
  which selects what the next call draws.  A request for another address fails.\<close>

type_synonym ('r, 'w) hub_net = "('r, 'w) hub \<times> nat"

definition hub_client ::
  "('o, 'r, 'w, 'k, 'm, 'c) hub_env \<Rightarrow> (nat \<Rightarrow> call_draws) \<Rightarrow> wire \<Rightarrow> string \<Rightarrow> ('r, 'w) hub_net http_client" where
  "hub_client E draw W addr =
     \<lparr>new_request = (\<lambda>m u. if url_ok (drop (length addr) u) then None else Some (ErrMsg ''parse'')),
      client_do = (\<lambda>req (h, i).
        case deliver addr req of
          None \<Rightarrow> (Inl ErrIO, (h, i))
        | Some r \<Rightarrow> (case hub_http E (draw i) W r h of (resp, h') \<Rightarrow> (Inr resp, (h', Suc i))))\<rparr>"

end
