(* ===== verification/Hub_Api_Props.thy ===== *)
theory Hub_Api_Props
  imports Hub_Api
begin

text \<open>
  What holds of the API as a whole: which requests can change the hub, which part of it, and that
  the database stays consistent; who gets which token; and what the replies depend on.
\<close>

section \<open>What the services change\<close>

text \<open>\<open>keeps Q m\<close>: the tables before and after \<open>m\<close> are related by \<open>Q\<close>, whatever statements fail.\<close>

definition keeps :: "(db_tables \<Rightarrow> db_tables \<Rightarrow> bool) \<Rightarrow> 'a db_op \<Rightarrow> bool" where
  "keeps Q m \<longleftrightarrow> (\<forall>d. Q (tables d) (tables (snd (m d))))"

lemma keepsD: "keeps Q m \<Longrightarrow> m d = (x, d') \<Longrightarrow> Q (tables d) (tables d')"
  by (auto simp: keeps_def dest: spec [of _ d])

lemma keeps_exec:
  assumes "reflp Q" and "\<And>t x t'. q t = Inr (x, t') \<Longrightarrow> Q t t'"
  shows "keeps Q (exec q)"
  using assms by (auto simp: keeps_def exec_alt reflp_def split: sum.split prod.split)

lemma keeps_query: "reflp Q \<Longrightarrow> keeps Q (query_rows q)"
  by (simp add: keeps_def reflp_def)

text \<open>A change of the data of one project.\<close>

definition only_project :: "string \<Rightarrow> db_tables \<Rightarrow> db_tables \<Rightarrow> bool" where
  "only_project p t t' \<longleftrightarrow>
     filter (\<lambda>r. mr_project_id r \<noteq> p) (registry_manifests t') = filter (\<lambda>r. mr_project_id r \<noteq> p) (registry_manifests t) \<and>
     filter (\<lambda>r. sr_project_id r \<noteq> p) (vault_secrets t') = filter (\<lambda>r. sr_project_id r \<noteq> p) (vault_secrets t) \<and>
     filter (\<lambda>r. cr_project_id r \<noteq> p) (project_configs t') = filter (\<lambda>r. cr_project_id r \<noteq> p) (project_configs t) \<and>
     projects_tab t' = projects_tab t \<and> teams_tab t' = teams_tab t \<and> team_members t' = team_members t \<and>
     personal_teams t' = personal_teams t \<and> (proj_db_ok t \<longrightarrow> proj_db_ok t')"

lemma only_project_refl [simp]: "reflp (only_project p)" "only_project p t t"
  by (simp_all add: reflp_def only_project_def)

lemma upsert_other: "\<not> P r \<Longrightarrow> (\<And>x. pk x = pk r \<Longrightarrow> \<not> P x) \<Longrightarrow> filter P (upsert_row pk r rs) = filter P rs"
  by (induction rs) auto

lemma proj_db_ok_update:
  "proj_db_ok t \<Longrightarrow> distinct (map secret_pk s) \<Longrightarrow> proj_db_ok (t\<lparr>vault_secrets := s\<rparr>)"
  "proj_db_ok t \<Longrightarrow> distinct (map cr_project_id c) \<Longrightarrow> proj_db_ok (t\<lparr>project_configs := c\<rparr>)"
  "proj_db_ok t \<Longrightarrow> distinct (map mr_id m) \<Longrightarrow> proj_db_ok (t\<lparr>registry_manifests := m\<rparr>)"
  by (simp_all add: proj_db_ok_def tables_ok_def)

lemma proj_db_ok_distinct:
  "proj_db_ok t \<Longrightarrow> distinct (map secret_pk (vault_secrets t))"
  "proj_db_ok t \<Longrightarrow> distinct (map cr_project_id (project_configs t))"
  "proj_db_ok t \<Longrightarrow> distinct (map mr_id (registry_manifests t))"
  by (simp_all add: proj_db_ok_def tables_ok_def)

lemmas keep_ok = proj_db_ok_update proj_db_ok_distinct upsert_row_ok delete_where_ok

lemma keeps_vault_set: "SProjectID sec = p \<Longrightarrow> keeps (only_project p) (sql_vault_set sec)"
  unfolding sql_vault_set_def
  by (rule keeps_exec)
    (auto simp: only_project_def keep_ok secret_pk_def [of "_ :: secret_row"] intro!: upsert_other)

lemma keeps_vault_delete: "keeps (only_project p) (sql_vault_delete p k)"
  unfolding sql_vault_delete_def
proof (rule keeps_exec)
  fix t x t'
  assume "Inr ((), t\<lparr>vault_secrets := delete_where (\<lambda>r. sr_project_id r = p \<and> sr_secret_key r = k) (vault_secrets t)\<rparr>) =
    (Inr (x, t') :: (unit \<times> db_tables) res)"
  then have t': "t' = t\<lparr>vault_secrets := delete_where (\<lambda>r. sr_project_id r = p \<and> sr_secret_key r = k) (vault_secrets t)\<rparr>"
    by simp
  have "filter (\<lambda>r. sr_project_id r \<noteq> p) (delete_where (\<lambda>r. sr_project_id r = p \<and> sr_secret_key r = k) rs) =
      filter (\<lambda>r. sr_project_id r \<noteq> p) rs" for rs
    by (auto simp: delete_where_def intro!: filter_cong)
  with t' show "only_project p t t'"
    by (simp add: only_project_def keep_ok)
qed simp

lemma keeps_config_set: "keeps (only_project p) (sql_config_set p c)"
  unfolding sql_config_set_def
  by (rule keeps_exec)
    (auto simp: only_project_def keep_ok intro!: upsert_other)

lemma keeps_reg_save: "MProjectID m = p \<Longrightarrow> keeps (only_project p) (sql_reg_save m)"
  unfolding sql_reg_save_def
  by (rule keeps_exec)
    (auto simp: only_project_def insert_row_def keep_ok split: if_splits sum.splits)

lemma keeps_vault_Set: "keeps (only_project p) (vault_Set sql_vault svc rnd p k v)"
proof -
  have "only_project p (tables d) (tables (snd (vault_Set sql_vault svc rnd p k v d)))" for d
    using keeps_vault_set [of "\<lparr>SKey = k, EncryptedVal = x, SProjectID = p\<rparr>" p for x]
    by (cases "encrypt svc rnd v") (auto simp: vault_Set_def sql_vault_def keeps_def)
  then show ?thesis by (simp add: keeps_def)
qed

lemma keeps_vault_Delete: "keeps (only_project p) (vault_Delete sql_vault p k)"
  using keeps_vault_delete [of p k] by (simp add: keeps_def vault_Delete_def sql_vault_def)

lemma vault_List_tables [simp]: "tables (snd (vault_List sql_vault p d)) = tables d"
  by (simp add: vault_List_def sql_vault_def sql_vault_list_def)

lemma vault_Get_tables: "vault_Get sql_vault svc p k d = (x, d') \<Longrightarrow> tables d' = tables d"
  by (auto simp: vault_Get_def sql_vault_def sql_vault_get_alt split: sum.splits option.splits if_splits)

lemma keeps_config: "keeps (only_project p) (db_cfg_set p c)" "tables (snd (db_cfg_get p d)) = tables d"
  using keeps_config_set [of p c] by (simp_all add: keeps_def db_cfg_set_alt db_cfg_get_alt sql_config_get_alt)

section \<open>The data of a project\<close>

record project_data =
  pd_manifests :: "manifest_row list"
  pd_secrets :: "secret_row list"
  pd_configs :: "config_row list"
  pd_state :: "schemas option"
  pd_planned :: "schemas option"

definition data_of :: "string \<Rightarrow> ('r, 'w) hub \<Rightarrow> project_data" where
  "data_of q h =
     \<lparr>pd_manifests = filter (\<lambda>r. mr_project_id r = q) (registry_manifests (tables (hub_db h))),
      pd_secrets = filter (\<lambda>r. sr_project_id r = q) (vault_secrets (tables (hub_db h))),
      pd_configs = filter (\<lambda>r. cr_project_id r = q) (project_configs (tables (hub_db h))),
      pd_state = map_of (sch_state (hub_schema h)) q, pd_planned = map_of (lastPlanned (hub_schema h)) q\<rparr>"

lemma filter_other:
  "filter (\<lambda>r. f r \<noteq> p) xs = filter (\<lambda>r. f r \<noteq> p) ys \<Longrightarrow> q \<noteq> p \<Longrightarrow> filter (\<lambda>r. f r = q) xs = filter (\<lambda>r. f r = q) ys"
proof -
  assume e: "filter (\<lambda>r. f r \<noteq> p) xs = filter (\<lambda>r. f r \<noteq> p) ys" and q: "q \<noteq> p"
  have "filter (\<lambda>r. f r = q) zs = filter (\<lambda>r. f r = q) (filter (\<lambda>r. f r \<noteq> p) zs)" for zs
    using q by (auto intro!: filter_cong)
  with e show ?thesis by metis
qed

text \<open>A step confined to project \<open>p\<close>: only its data change, and consistency is kept.\<close>

definition confined :: "string \<Rightarrow> ('r, 'w) hub \<Rightarrow> ('r, 'w) hub \<Rightarrow> bool" where
  "confined p h h' \<longleftrightarrow>
     only_project p (tables (hub_db h)) (tables (hub_db h')) \<and>
     (\<forall>q. q \<noteq> p \<longrightarrow> map_of (sch_state (hub_schema h')) q = map_of (sch_state (hub_schema h)) q \<and>
        map_of (lastPlanned (hub_schema h')) q = map_of (lastPlanned (hub_schema h)) q)"

lemma confined_refl [simp]: "confined p h h"
  by (simp add: confined_def)

lemma confined_data: "confined p h h' \<Longrightarrow> q \<noteq> p \<Longrightarrow> data_of q h' = data_of q h"
  by (simp add: confined_def data_of_def only_project_def) (metis filter_other)

lemma fst_answer: "fst (answer n v (x, h)) = h"
  by (cases x) auto

lemma fst_answer_ok: "fst (answer_ok n (x, h)) = h"
  by (cases x) auto

lemma confined_run_db: "keeps (only_project p) m \<Longrightarrow> confined p h (snd (run_hub_db m h))"
  by (auto simp: confined_def run_hub_db_def dest: keepsD split: prod.split)

lemma read_keeps: "(\<And>d. tables (snd (m d)) = tables d) \<Longrightarrow> keeps (only_project p) m"
  by (simp add: keeps_def)

lemma confined_push:
  "confined p h (snd (run_registry (Push sql_registry env rc zone n n' p bs u) h))"
proof -
  let ?m = "\<lparr>MID = [], MProjectID = p, Version = generateVersion zone n, Bundles = bs, CreatedAt = n', CreatedBy = u\<rparr>"
  obtain x d' where s: "sql_reg_save ?m (hub_db h) = (x, d')" by fastforce
  then have "only_project p (tables (hub_db h)) (tables d')"
    using keepsD [OF keeps_reg_save [of ?m p] s] by simp
  with s show ?thesis
    by (cases x) (auto simp: run_registry_def Push_def Let_def sql_registry_def confined_def)
qed

lemma confined_latest: "confined p h (snd (run_registry (reg_GetLatest sql_registry q) h))"
  by (auto simp: run_registry_def reg_GetLatest_def sql_registry_def sql_reg_latest_def query_rows_alt confined_def
      split: prod.split)

lemma plan_native_planned:
  "plan_native A n p S k sch w = (x, sch', w') \<Longrightarrow> sch_state sch' = sch_state sch \<and>
     (\<forall>q. q \<noteq> p \<longrightarrow> map_of (lastPlanned sch') q = map_of (lastPlanned sch) q)"
  by (auto simp: plan_native_def native_result_def split: prod.splits sum.splits if_splits)

lemma apply_native_planned:
  "apply_native A p S k sch w = (x, sch', w') \<Longrightarrow> sch_state sch' = sch_state sch \<and>
     (\<forall>q. q \<noteq> p \<longrightarrow> map_of (lastPlanned sch') q = map_of (lastPlanned sch) q)"
  by (auto simp: apply_native_def split: prod.splits sum.splits if_splits)

lemma confined_plan: "confined p h (snd (run_schema (Plan sql_vault svc A now p S) h))"
  by (auto simp: confined_def run_schema_def Plan_def planMock_def Let_def
      dest!: vault_Get_tables plan_native_planned split: prod.splits sum.splits if_splits)

lemma confined_apply: "confined p h (snd (run_schema (Apply sql_vault svc A ord p ms) h))"
  by (auto simp: confined_def run_schema_def Apply_def applyMock_def Let_def
      dest!: vault_Get_tables apply_native_planned split: prod.splits sum.splits if_splits option.splits)

section \<open>Who can change what\<close>

lemma with_user_sel [simp]: "project_header (with_user_id u r) = project_header r" "body (with_user_id u r) = body r"
  "header (with_user_id u r) = header r" "query (with_user_id u r) = query r" "url_param (with_user_id u r) = url_param r"
  by (simp_all add: with_user_id_def project_header_def)

text \<open>The \<open>Authorization\<close> header of a call, and the project it names.\<close>

fun call_auth :: "hub_call \<Rightarrow> string" where
  "call_auth CallHealth = []"
| "call_auth (CallLogin r) = header r ''Authorization''"
| "call_auth (CallCreateToken r) = header r ''Authorization''"
| "call_auth (CallAuthLogin r) = header r ''Authorization''"
| "call_auth (CallAuthRegister r) = header r ''Authorization''"
| "call_auth (CallAuthMe r) = header r ''Authorization''"
| "call_auth (CallAuthRefresh r) = header r ''Authorization''"
| "call_auth (CallAuthLogout r) = header r ''Authorization''"
| "call_auth (CallAuthOAuth r) = header r ''Authorization''"
| "call_auth (CallGetManifest r) = header r ''Authorization''"
| "call_auth (CallPushManifest r) = header r ''Authorization''"
| "call_auth (CallListSecrets r) = header r ''Authorization''"
| "call_auth (CallSetSecret r) = header r ''Authorization''"
| "call_auth (CallDeleteSecret r) = header r ''Authorization''"
| "call_auth (CallSchemaPlan r) = header r ''Authorization''"
| "call_auth (CallSchemaApply r) = header r ''Authorization''"
| "call_auth (CallConfigApply r) = header r ''Authorization''"
| "call_auth (CallConfigGet r) = header r ''Authorization''"
| "call_auth (CallListProjects r) = header r ''Authorization''"
| "call_auth (CallCreateProject r) = header r ''Authorization''"
| "call_auth (CallGetProject r) = header r ''Authorization''"

fun call_project :: "hub_call \<Rightarrow> string option" where
  "call_project (CallGetManifest r) = Some (project_header r)"
| "call_project (CallPushManifest r) = Some (project_header r)"
| "call_project (CallListSecrets r) = Some (project_header r)"
| "call_project (CallSetSecret r) = Some (project_header r)"
| "call_project (CallDeleteSecret r) = Some (project_header r)"
| "call_project (CallSchemaPlan r) = Some (project_header r)"
| "call_project (CallSchemaApply r) = Some (project_header r)"
| "call_project (CallConfigApply r) = Some (project_header r)"
| "call_project (CallConfigGet r) = Some (project_header r)"
| "call_project _ = None"

text \<open>The user a call runs for behind the middleware.\<close>

definition call_user :: "('o, 'r, 'w, 'k, 'm, 'c) hub_env \<Rightarrow> call_draws \<Rightarrow> hub_call \<Rightarrow> (nat \<times> go_error) + string" where
  "call_user E c call = authenticate (he_environ E) (secret_of E) (cd_auth c) (call_auth call)"

lemma guarded_eq:
  "guarded E c next h r =
     (case authenticate (he_environ E) (secret_of E) (cd_auth c) (header r ''Authorization'') of
        Inl (status, e) \<Rightarrow> (h, HttpError status e) | Inr u \<Rightarrow> next h (with_user_id u r))"
  by (simp add: guarded_def authMiddleware_def)

lemma public_unchanged:
  "fst (handleLogin E c h r1) = h" "fst (handleCreateToken E c h r2) = h" "fst (handleAuthLogin E c h r3) = h"
  "fst (handleAuthRegister E c h r4) = h" "fst (handleAuthMe E c h r5) = h" "fst (handleAuthRefresh E c h r5) = h"
  by (simp_all add: handleLogin_def handleCreateToken_def handleAuthLogin_def handleAuthRegister_def handleAuthMe_def
      handleAuthRefresh_def issue_session_def Let_def split: sum.split prod.split)

lemma handlers_confined:
  "confined (project_header r1) h (fst (handleGetManifest h r1))"
  "confined (project_header r2) h (fst (handlePushManifest E c h r2))"
  "confined (project_header r3) h (fst (handleListSecrets h r3))"
  "confined (project_header r4) h (fst (handleSetSecret E c h r4))"
  "confined (project_header r5) h (fst (handleDeleteSecret h r5))"
  "confined (project_header r6) h (fst (handleSchemaPlan E c h r6))"
  "confined (project_header r7) h (fst (handleSchemaApply E c h r7))"
  "confined (project_header r8) h (fst (handleConfigApply h r8))"
  "confined (project_header r9) h (fst (handleConfigGet h r9))"
proof -
  have a: "fst (answer n v xh) = snd xh" "fst (answer_ok n yh) = snd yh" for n v xh yh
    by (cases xh; simp add: fst_answer) (cases yh; simp add: fst_answer_ok)
  note c = confined_latest confined_push confined_plan confined_apply
    confined_run_db [OF keeps_vault_Set] confined_run_db [OF keeps_vault_Delete]
    confined_run_db [OF keeps_config(1)] confined_run_db [OF read_keeps [OF vault_List_tables]]
    confined_run_db [OF read_keeps [OF keeps_config(2)]]
  show
    "confined (project_header r1) h (fst (handleGetManifest h r1))"
    "confined (project_header r2) h (fst (handlePushManifest E c h r2))"
    "confined (project_header r3) h (fst (handleListSecrets h r3))"
    "confined (project_header r4) h (fst (handleSetSecret E c h r4))"
    "confined (project_header r5) h (fst (handleDeleteSecret h r5))"
    "confined (project_header r6) h (fst (handleSchemaPlan E c h r6))"
    "confined (project_header r7) h (fst (handleSchemaApply E c h r7))"
    "confined (project_header r8) h (fst (handleConfigApply h r8))"
    "confined (project_header r9) h (fst (handleConfigGet h r9))"
    by (simp_all add: handleGetManifest_def handlePushManifest_def handleListSecrets_def handleSetSecret_def
      handleDeleteSecret_def handleSchemaPlan_def handleSchemaApply_def handleConfigApply_def handleConfigGet_def
      Let_def a c split: sum.split)
qed

lemma guarded_confined:
  "(\<And>r. confined (project_header r) h (fst (next h r))) \<Longrightarrow> confined (project_header r) h (fst (guarded E c next h r))"
proof (cases "authenticate (he_environ E) (secret_of E) (cd_auth c) (header r ''Authorization'')")
  case (Inr u)
  assume "\<And>r. confined (project_header r) h (fst (next h r))"
  from this [of "with_user_id u r"] Inr show ?thesis by (simp add: guarded_eq)
qed (auto simp: guarded_eq)

lemma serve_confined:
  assumes "call_project call = Some p"
  shows "confined p h (fst (serve E c call h))"
  using assms by (cases call) (simp_all, auto intro!: guarded_confined handlers_confined)

section \<open>The project calls\<close>

lemma run_projects_db:
  "run_projects f h = (case f (InDb (hub_db h)) of (x, s) \<Rightarrow> (x, case s of InDb d \<Rightarrow> h\<lparr>hub_db := d\<rparr> | InMaps _ \<Rightarrow> h))"
  by (auto simp: run_projects_def split: prod.split proj_service.split)

text \<open>The project calls leave the other tables alone.\<close>

definition same_data :: "db_tables \<Rightarrow> db_tables \<Rightarrow> bool" where
  "same_data t t' \<longleftrightarrow> registry_manifests t' = registry_manifests t \<and> vault_secrets t' = vault_secrets t \<and>
     project_configs t' = project_configs t"

lemma ensure_same_data: "ensurePersonalTeamDB e u d = (r, d') \<Longrightarrow> same_data (tables d) (tables d')"
  by (drule ensurePersonalTeamDB_cases) (auto simp: same_data_def add_team_def dest!: make_personal_team_Inr)

lemma create_same_data:
  assumes "createProjectDB e u n c tm d = (r, d')"
  shows "same_data (tables d) (tables d')"
  using assms
proof (cases rule: createProjectDB_tables)
  case (project d1 tid k)
  then have "same_data (tables d) (tables d1)" using ensure_same_data by (auto simp: same_data_def split: if_splits)
  with project(4) show ?thesis by (simp add: same_data_def)
qed (auto simp: same_data_def dest: ensure_same_data [unfolded same_data_def])

definition project_step :: "('r, 'w) hub \<Rightarrow> ('r, 'w) hub \<Rightarrow> bool" where
  "project_step h h' \<longleftrightarrow> same_data (tables (hub_db h)) (tables (hub_db h')) \<and> hub_schema h' = hub_schema h \<and>
     (proj_db_ok (tables (hub_db h)) \<longrightarrow> proj_db_ok (tables (hub_db h')))"

lemma project_step_refl [simp]: "project_step h h"
  by (simp add: project_step_def same_data_def)

lemma project_step_create: "project_step h (snd (run_projects (CreateProject e u n c tm) h))"
proof (cases "blank n \<or> blank u")
  case False
  obtain r d' where "createProjectDB e u n c tm (hub_db h) = (r, d')" by fastforce
  with False create_same_data [OF this] createProjectDB_ok [OF _ this] show ?thesis
    by (simp add: run_projects_db CreateProject_def run_db_def project_step_def)
qed (auto simp: run_projects_db CreateProject_def)

lemma project_step_read:
  "project_step h (snd (run_projects (GetProject i) h))" "project_step h (snd (run_projects (ListProjects u t) h))"
  using read_only(1) [of i "hub_db h"] read_only(2) [of u t "hub_db h"]
  by (cases "getProjectDB i (hub_db h)"; cases "listProjectsDB u t (hub_db h)";
    simp add: run_projects_db GetProject_def ListProjects_def run_db_def project_step_def same_data_def)+

lemma project_handlers:
  "project_step h (fst (handleListProjects E h r))" "project_step h (fst (handleGetProject E h r))"
  "project_step h (fst (handleCreateProject E c h r'))"
proof -
  have a: "fst (answer n v xh) = snd xh" for n xh and v :: "'x \<Rightarrow> hub_value" by (cases xh) (simp add: fst_answer)
  show "project_step h (fst (handleListProjects E h r))" "project_step h (fst (handleGetProject E h r))"
    "project_step h (fst (handleCreateProject E c h r'))"
    by (simp_all add: handleListProjects_def handleGetProject_def handleCreateProject_def a project_step_create project_step_read
        split: sum.split)
qed

lemma guarded_step: "(\<And>r. project_step h (fst (next h r))) \<Longrightarrow> project_step h (fst (guarded E c next h r))"
  by (auto simp: guarded_eq split: sum.split)

lemma serve_step:
  "case call_project call of Some p \<Rightarrow> confined p h (fst (serve E c call h)) | None \<Rightarrow> project_step h (fst (serve E c call h))"
proof (cases "call_project call")
  case None
  then have "project_step h (fst (serve E c call h))"
    by (cases call) (simp_all add: public_unchanged handleAuthLogout_def handleAuthOAuth_def guarded_step project_handlers)
  with None show ?thesis by simp
qed (simp add: serve_confined)

text \<open>A sequence of calls, each with its own draws.\<close>

fun serve_all :: "('o, 'r, 'w, 'k, 'm, 'c) hub_env \<Rightarrow> (call_draws \<times> hub_call) list \<Rightarrow> ('r, 'w) hub \<Rightarrow> ('r, 'w) hub" where
  "serve_all E [] h = h"
| "serve_all E ((c, call) # cs) h = serve_all E cs (fst (serve E c call h))"

section \<open>Properties\<close>

text \<open>
  Property C11.  The database of the hub stays consistent under every sequence of calls, whatever
  they carry and whatever statements fail: primary keys are unique, every team has a member, and
  personal teams exist with their user in them.
\<close>
theorem hub_stays_consistent:
  assumes "proj_db_ok (tables (hub_db h))"
  shows "proj_db_ok (tables (hub_db (serve_all E calls h)))"
  using assms
proof (induction calls arbitrary: h)
  case (Cons cc calls)
  obtain c call where cc: "cc = (c, call)" by fastforce
  from serve_step [where call = call and h = h and E = E and c = c] Cons.prems have "proj_db_ok (tables (hub_db (fst (serve E c call h))))"
    by (auto simp: confined_def only_project_def project_step_def split: option.splits)
  with Cons.IH cc show ?case by simp
qed simp

text \<open>
  Property C10.  The data of a project (its manifests, secrets, configuration, planned schemas and
  schema state) are changed only by calls that name the project: after any calls that name other
  projects, or none, they are what they were.
\<close>
theorem projects_are_isolated:
  assumes "\<forall>(c, call) \<in> set calls. call_project call \<noteq> Some q"
  shows "data_of q (serve_all E calls h) = data_of q h"
  using assms
proof (induction calls arbitrary: h)
  case (Cons cc calls)
  obtain c call where cc: "cc = (c, call)" by fastforce
  have "data_of q (fst (serve E c call h)) = data_of q h"
  proof (cases "call_project call")
    case None
    with serve_step [where call = call and h = h and E = E and c = c] show ?thesis
      by (simp add: project_step_def same_data_def data_of_def)
  next
    case (Some p)
    with serve_step [where call = call and h = h and E = E and c = c] have "confined p h (fst (serve E c call h))" by simp
    moreover have "q \<noteq> p" using Cons.prems cc Some by auto
    ultimately show ?thesis by (rule confined_data)
  qed
  with Cons cc show ?case by simp
qed simp

text \<open>
  Property C3.  With authentication on, only a call with a valid bearer token can change anything: when a
  call leaves the hub in another state, its \<open>Authorization\<close> header carries a token that verifies
  under the hub's secret and names a user.
\<close>
theorem only_token_bearers_change:
  assumes "\<not> auth_disabled (he_environ E)" and "fst (serve E c call h) \<noteq> h"
  shows "\<exists>tok u. bearer (call_auth call) = Some tok \<and> verifyToken (secret_of E) (cd_auth c) tok \<and>
    parseUserIDFromToken tok = Some u \<and> u \<noteq> []"
proof -
  have "\<exists>u. authenticate (he_environ E) (secret_of E) (cd_auth c) (call_auth call) = Inr u"
    using assms(2) by (cases call) (auto simp: guarded_eq public_unchanged handleAuthLogout_def handleAuthOAuth_def split: sum.splits)
  then show ?thesis
    using assms(1) by (auto simp: authenticate_def api_user_Some split: option.splits if_splits)
qed


text \<open>How long a personal token lives, from the number of seconds of the request.\<close>

lemma sint_scaled: "0 \<le> sint (e :: 64 word) \<Longrightarrow> sint (e * second) = signed_take_bit 63 (sint e * 1000000000)"
  by (simp add: second_def sint_word_ariths signed_take_bit_int_eq_self)

lemma token_ttl_exact:
  assumes "0 < sint e" and "sint e \<le> 9223372036"
  shows "sint (token_ttl e) = sint e * 1000000000"
  using assms by (simp add: token_ttl_def word_sless_alt sint_scaled signed_take_bit_int_eq_self)

lemma token_ttl_overflow:
  assumes "9223372036 < sint e" and "sint e < 18446744074"
  shows "sint (token_ttl e) = sint e * 1000000000 - 2 ^ 64"
proof -
  have r: "- (2 ^ 63) \<le> sint e * 1000000000 - 2 ^ 64" "sint e * 1000000000 - 2 ^ 64 < 2 ^ 63" using assms by simp_all
  have "signed_take_bit 63 (sint e * 1000000000) = signed_take_bit 63 (sint e * 1000000000 - 2 ^ 64)"
    by (simp add: signed_take_bit_eq_iff_take_bit_eq take_bit_eq_mod mod_diff_eq)
  also have "\<dots> = sint e * 1000000000 - 2 ^ 64" using r by (intro signed_take_bit_int_eq_self) simp_all
  finally show ?thesis using assms by (simp add: token_ttl_def word_sless_alt sint_scaled)
qed

lemma token_ttl_default: "sint e \<le> 0 \<Longrightarrow> sint (token_ttl e) = 2592000000000000"
  by (simp add: token_ttl_def word_sless_alt hours_def second_def)


lemma unix_less: "x + 1000000000 \<le> y \<Longrightarrow> unix x < unix y"
proof -
  assume "x + 1000000000 \<le> y"
  then have "unix (x + 1000000000) \<le> unix y" by (simp add: unix_def ns_per_s_def zdiv_mono1)
  moreover have "unix (x + 1000000000) = unix x + 1" by (simp add: unix_def ns_per_s_def)
  ultimately show ?thesis by simp
qed

lemma created_token:
  assumes "body r = Inr req" and "snd (handleCreateToken E c h r) = HttpJson (VIssued u em tok exp)"
  shows "issueToken (secret_of E) (cd_later c) u em ''pat'' (token_ttl (TkExpiresIn req)) = Inr (tok, exp)"
  using assms by (auto simp: handleCreateToken_def Let_def split: if_splits sum.splits)

lemma issued_exp: "issueToken s n u m t ttl = Inr (tok, exp) \<Longrightarrow> \<not> blank u \<and> exp = n + sint ttl"
  by (auto simp: issueToken_def Let_def split: if_splits)

lemma issued_user:
  assumes "issueToken s n u m t ttl = Inr (tok, exp)" and "clock_ok n" and "unix now \<le> unix exp"
  shows "verifyToken s now tok" and "api_parseUserIDFromToken s now tok = Some (to_valid u)"
proof -
  have u: "\<not> blank u" and e: "exp = n + sint ttl" using issued_exp [OF assms(1)] by simp_all
  obtain ms where ms: "parseTokenPayload tok = Some ms" "string_claim ms ''sub'' = Some (to_valid u)"
    "map_of ms ''exp'' = Some (jval_json (VInt (unix (n + sint ttl))))"
    "verifyToken s now tok \<longleftrightarrow> not_expired now ms"
    using issued_claims [OF u assms(2,1)] by blast
  show v: "verifyToken s now tok" using ms(4) not_expired_exact [OF assms(2) ms(3)] assms(3) e by simp
  have n: "to_valid u \<noteq> []" using u by (intro to_valid_not_Nil) auto
  show "api_parseUserIDFromToken s now tok = Some (to_valid u)"
    using parse_user_sub [OF ms(1,2) n] v n by (simp add: api_user_Some)
qed


text \<open>
  Property C32.  The call that makes personal tokens asks for no credentials: whoever names a user gets a
  token with which, for thirty days, every protected call runs for that user.
\<close>
theorem any_client_any_user:
  assumes "\<not> blank u" "trim_space u = u" "clock_ok (cd_later c)" and "body r = Inr req" "TkUserID req = u" "TkExpiresIn req = 0"
  shows "\<exists>tok exp. serve E c (CallCreateToken r) h = (h, HttpJson (VIssued u (TkEmail req) tok exp)) \<and>
    (\<forall>c' call. bearer (call_auth call) = Some tok \<and> unix (cd_auth c') \<le> unix (cd_later c + 30 * 24 * 3600 * ns_per_s) \<longrightarrow>
       call_user E c' call = Inr (to_valid u))"
proof -
  have u: "u \<noteq> []" using assms(1) by auto
  then have tu: "token_user E c a req = u" for a using assms(2,5) by (simp add: token_user_def)
  obtain tok where i: "issueToken (secret_of E) (cd_later c) u (TkEmail req) ''pat'' (token_ttl 0) = Inr (tok, cd_later c + sint (token_ttl 0))"
    using issueToken_eq [OF assms(1)] by blast
  have s: "serve E c (CallCreateToken r) h = (h, HttpJson (VIssued u (TkEmail req) tok (cd_later c + sint (token_ttl 0))))"
    using assms(4,6) i u by (simp add: handleCreateToken_def tu)
  have "call_user E c' call = Inr (to_valid u)"
    if "bearer (call_auth call) = Some tok" and t: "unix (cd_auth c') \<le> unix (cd_later c + 30 * 24 * 3600 * ns_per_s)" for c' call
  proof -
    have "unix (cd_auth c') \<le> unix (cd_later c + sint (token_ttl 0))"
      using t token_ttl_default [of 0] by (simp add: ns_per_s_def)
    from issued_user(2) [OF i assms(3) this] that(1) show ?thesis
      by (simp add: call_user_def authenticate_def to_valid_not_Nil [OF u])
  qed
  with s show ?thesis by blast
qed



text \<open>
  Whose token a call carries does not matter to the calls below: the state they leave and the
  reply are the same for any two users.  So every user who is let in can read and change the
  secrets, the configuration, the schemas and the manifest of every project, and read every project.
\<close>
theorem no_project_authorization:
  "handleGetManifest h (with_user_id u r) = handleGetManifest h (with_user_id v r) \<and>
   handleListSecrets h (with_user_id u r) = handleListSecrets h (with_user_id v r) \<and>
   handleSetSecret E c h (with_user_id u r1) = handleSetSecret E c h (with_user_id v r1) \<and>
   handleDeleteSecret h (with_user_id u r) = handleDeleteSecret h (with_user_id v r) \<and>
   handleSchemaPlan E c h (with_user_id u r2) = handleSchemaPlan E c h (with_user_id v r2) \<and>
   handleSchemaApply E c h (with_user_id u r3) = handleSchemaApply E c h (with_user_id v r3) \<and>
   handleConfigApply h (with_user_id u r4) = handleConfigApply h (with_user_id v r4) \<and>
   handleConfigGet h (with_user_id u r) = handleConfigGet h (with_user_id v r) \<and>
   handleGetProject E h (with_user_id u r) = handleGetProject E h (with_user_id v r)"
  by (simp add: handleGetManifest_def handleListSecrets_def handleSetSecret_def handleDeleteSecret_def
      handleSchemaPlan_def handleSchemaApply_def handleConfigApply_def handleConfigGet_def handleGetProject_def
      Let_def split: sum.split)

section \<open>Master keys stay inside\<close>

text \<open>The tables, the database and the hub with every master key replaced.\<close>

definition mask_row :: "(string \<Rightarrow> string) \<Rightarrow> project_row \<Rightarrow> project_row" where
  "mask_row f r = r\<lparr>pr_master_key := f (pr_master_key r)\<rparr>"

definition mask_tables :: "(string \<Rightarrow> string) \<Rightarrow> db_tables \<Rightarrow> db_tables" where
  "mask_tables f t = t\<lparr>projects_tab := map (mask_row f) (projects_tab t)\<rparr>"

definition mask_db :: "(string \<Rightarrow> string) \<Rightarrow> db \<Rightarrow> db" where
  "mask_db f d = d\<lparr>tables := mask_tables f (tables d)\<rparr>"

definition mask_keys :: "(string \<Rightarrow> string) \<Rightarrow> ('r, 'w) hub \<Rightarrow> ('r, 'w) hub" where
  "mask_keys f h = h\<lparr>hub_db := mask_db f (hub_db h)\<rparr>"

lemma mask_row_sel [simp]: "pr_id (mask_row f r) = pr_id r" "pr_team_id (mask_row f r) = pr_team_id r"
  "project_json_of (row_to_project (mask_row f r)) = project_json_of (row_to_project r)"
  by (simp_all add: mask_row_def project_json_of_def row_to_project_def)

lemma mask_tables_sel [simp]: "teams_tab (mask_tables f t) = teams_tab t" "team_members (mask_tables f t) = team_members t"
  "personal_teams (mask_tables f t) = personal_teams t" "projects_tab (mask_tables f t) = map (mask_row f) (projects_tab t)"
  by (simp_all add: mask_tables_def)

lemma mask_db_sel: "tables (mask_db f d) = mask_tables f (tables d)"
  "(mask_db f d)\<lparr>tables := mask_tables f t\<rparr> = mask_db f (d\<lparr>tables := t\<rparr>)"
  by (simp_all add: mask_db_def)

text \<open>An operation that does not touch the keys does the same with the keys replaced.\<close>

definition mask_blind :: "(string \<Rightarrow> string) \<Rightarrow> 'a db_op \<Rightarrow> bool" where
  "mask_blind f m \<longleftrightarrow> (\<forall>d. m (mask_db f d) = apsnd (mask_db f) (m d))"

lemma mask_blindD: "mask_blind f m \<Longrightarrow> m (mask_db f d) = apsnd (mask_db f) (m d)"
  by (simp add: mask_blind_def)

lemma next_fault_mask: "next_fault (mask_db f d) = apsnd (mask_db f) (next_fault d)"
  by (simp add: next_fault_def mask_db_def split: list.split)

lemma mask_blind_exec:
  assumes "\<And>t. q (mask_tables f t) = (case q t of Inl e \<Rightarrow> Inl e | Inr (x, t') \<Rightarrow> Inr (x, mask_tables f t'))"
  shows "mask_blind f (exec q)"
proof -
  have "exec q (mask_db f d) = apsnd (mask_db f) (exec q d)" for d
  proof (cases "next_fault d")
    case (Pair g d1)
    then show ?thesis
      using assms [of "tables d1"] next_fault_mask [of f d]
      by (cases "q (tables d1)") (auto simp: exec_def mask_db_sel)
  qed
  then show ?thesis by (simp add: mask_blind_def)
qed

lemma mask_blind_query: "(\<And>t. q (mask_tables f t) = q t) \<Longrightarrow> mask_blind f (query_rows q)"
  by (simp add: mask_blind_def query_rows_alt next_fault_mask) (simp add: mask_db_def)

lemma mask_blind_bind: "mask_blind f m \<Longrightarrow> (\<And>x. mask_blind f (k x)) \<Longrightarrow> mask_blind f (db_bind m k)"
  by (auto simp: mask_blind_def db_bind_def split: prod.split sum.split)

lemma mask_blind_return: "mask_blind f (db_return x)"
  by (simp add: mask_blind_def db_return_def)

lemma mask_blind_transaction:
  assumes "mask_blind f m"
  shows "mask_blind f (transaction m)"
proof -
  have "transaction m (mask_db f d) = apsnd (mask_db f) (transaction m d)" for d
  proof (cases "next_fault d")
    case (Pair g d1)
    obtain r d2 where m: "m d1 = (r, d2)" by fastforce
    with mask_blindD [OF assms, of d1] have m': "m (mask_db f d1) = (r, mask_db f d2)" by simp
    obtain g2 d3 where n: "next_fault d2 = (g2, d3)" by fastforce
    from Pair m m' n show ?thesis
      by (cases r) (auto simp: transaction_def next_fault_mask mask_db_sel)
  qed
  then show ?thesis by (simp add: mask_blind_def)
qed

lemma mask_blind_inserts: "mask_blind f (insert_team r)" "mask_blind f (insert_member m)" "mask_blind f (insert_personal p)"
  by (auto simp: insert_team_def insert_member_def insert_personal_def mask_tables_def split: sum.split intro!: mask_blind_exec)

lemma mask_blind_make: "mask_blind f (make_personal_team e u)"
  unfolding make_personal_team_def
  by (intro mask_blind_transaction mask_blind_bind mask_blind_inserts mask_blind_return)

lemma mask_blind_find: "mask_blind f (find_personal_team u)"
  unfolding find_personal_team_def by (intro mask_blind_bind mask_blind_query mask_blind_return) simp

lemma mask_blind_ensure: "mask_blind f (ensurePersonalTeamDB e u)"
proof -
  have "ensurePersonalTeamDB e u (mask_db f d) = apsnd (mask_db f) (ensurePersonalTeamDB e u d)" for d
  proof (cases "find_personal_team u d")
    case (Pair x d1)
    then show ?thesis
      using mask_blindD [OF mask_blind_find, where d = d and u1 = u] mask_blindD [OF mask_blind_make, where d = d1]
      by (cases x) (simp_all add: ensurePersonalTeamDB_def)
  qed
  then show ?thesis by (simp add: mask_blind_def)
qed

lemma mask_create: "fst (createProjectDB e u n c tm (mask_db f d)) = fst (createProjectDB e u n c tm d)"
proof -
  let ?m = "if tm = [] then ensurePersonalTeamDB e u else db_return tm"
  have b: "mask_blind f ?m" by (auto intro: mask_blind_ensure mask_blind_return)
  obtain x d1 where m: "?m d = (x, d1)" by fastforce
  with mask_blindD [OF b, of d] have m': "?m (mask_db f d) = (x, mask_db f d1)" by simp
  have i: "fst (insert_project r (mask_db f d1)) = fst (insert_project r d1)" for r
    by (simp add: insert_project_def exec_alt next_fault_mask insert_row_def image_image split: prod.split)
      (simp add: mask_db_def image_image)
  have "fst (db_bind (insert_project r) (\<lambda>_. db_return p) (mask_db f d1)) = fst (db_bind (insert_project r) (\<lambda>_. db_return p) d1)"
    for r and p :: Project
    using i [of r] by (auto simp: db_bind_def db_return_def split: prod.splits sum.splits)
  with m m' show ?thesis
    by (cases x) (auto simp: createProjectDB_def db_bind_def [of ?m] Let_def split: sum.split)
qed

lemma remdups_map_inj: "inj_on f (set xs) \<Longrightarrow> remdups (map f xs) = map f (remdups xs)"
  by (induction xs) (auto simp: inj_on_def)

lemma filter_map_fst: "filter (\<lambda>(p, m). P (f p) m) xs = filter (\<lambda>x. case x of (p, m) \<Rightarrow> P (f p) m) xs"
  by simp

lemma join_members_map:
  "(\<And>r. team (f r) = team r) \<Longrightarrow> join_members team (map f rs) ms = map (\<lambda>(r, m). (f r, m)) (join_members team rs ms)"
  by (induction rs) (simp_all add: join_members_def comp_def)

lemma select_projects_mask:
  assumes "distinct (map pr_id (projects_tab T))"
  shows "select_projects u t (T\<lparr>projects_tab := map (mask_row f) (projects_tab T)\<rparr>) = map (mask_row f) (select_projects u t T)"
proof -
  let ?J = "join_members pr_team_id (projects_tab T) (team_members T)"
  have inj: "inj_on (mask_row f) (set (projects_tab T))"
  proof (rule inj_onI)
    fix x y assume "x \<in> set (projects_tab T)" "y \<in> set (projects_tab T)" "mask_row f x = mask_row f y"
    moreover from this(3) have "pr_id x = pr_id y" by (metis mask_row_sel(1))
    ultimately show "x = y" using assms by (simp add: distinct_map inj_on_def)
  qed
  have j: "remdups (map fst (filter (\<lambda>(p, m). Q (pr_team_id p) m) (map (\<lambda>(r, m). (mask_row f r, m)) ?J))) =
      map (mask_row f) (remdups (map fst (filter (\<lambda>(p, m). Q (pr_team_id p) m) ?J)))" for Q
  proof -
    have "map fst (filter (\<lambda>(p, m). Q (pr_team_id p) m) (map (\<lambda>(r, m). (mask_row f r, m)) ?J)) =
        map (mask_row f) (map fst (filter (\<lambda>(p, m). Q (pr_team_id p) m) ?J))"
      by (simp add: filter_map comp_def case_prod_unfold)
    moreover have "set (map fst (filter (\<lambda>(p, m). Q (pr_team_id p) m) ?J)) \<subseteq> set (projects_tab T)"
      by (auto simp: join_members_set)
    ultimately show ?thesis by (metis inj inj_on_subset remdups_map_inj)
  qed
  show ?thesis
    using j [of "\<lambda>_ m. me_user_id m = u"] j [of "\<lambda>q m. me_user_id m = u \<and> q = t"]
    by (simp add: select_projects_def select_where_def join_members_map filter_map comp_def)
qed

text \<open>
  Property C30.  No reply of a project call depends on a master key: with any change of the keys that are
  stored, listing, reading and creating projects are answered as before.
\<close>
theorem master_keys_not_served:
  assumes "proj_db_ok (tables (hub_db h))"
  shows "snd (serve E c (CallListProjects r) (mask_keys f h)) = snd (serve E c (CallListProjects r) h) \<and>
    snd (serve E c (CallGetProject r) (mask_keys f h)) = snd (serve E c (CallGetProject r) h) \<and>
    snd (serve E c (CallCreateProject r') (mask_keys f h)) = snd (serve E c (CallCreateProject r') h)"
proof -
  let ?d = "hub_db h"
  have D: "distinct (map pr_id (projects_tab (tables ?d)))" using assms by (simp add: proj_db_ok_def tables_ok_def)
  have sn: "snd (answer n v xh) = snd (answer n v xh')" if "map_sum id v (fst xh) = map_sum id v (fst xh')"
    for n and v :: "'x \<Rightarrow> hub_value" and xh xh' :: "'x res \<times> ('r, 'w) hub"
    using that by (cases xh; cases xh'; cases "fst xh"; cases "fst xh'") auto
  have run: "fst (run_projects m k) = fst (m (InDb (hub_db k)))" for m :: "proj_service \<Rightarrow> 'x \<times> proj_service" and k :: "('r, 'w) hub"
    by (simp add: run_projects_db split: prod.split)
  have rd: "fst (run_db m k) = fst (m k)" for m :: "'x db_op" and k by (simp add: run_db_def)
  have l: "map_sum id (\<lambda>ps. VProjects (map project_json_of ps)) (fst (ListProjects u t (InDb (mask_db f ?d)))) =
      map_sum id (\<lambda>ps. VProjects (map project_json_of ps)) (fst (ListProjects u t (InDb ?d)))" for u t
    using select_projects_mask [OF D, of u t f]
    by (simp add: ListProjects_def rd listProjectsDB_def query_rows_alt next_fault_mask comp_def)
      (simp add: mask_db_def mask_tables_def)
  have row: "row_at pr_id (map (mask_row f) rs) i = map_option (mask_row f) (row_at pr_id rs i)" for rs i
    by (induction rs) (auto simp: row_at_def)
  have g: "map_sum id (\<lambda>p. VProject (project_json_of p)) (fst (GetProject i (InDb (mask_db f ?d)))) =
      map_sum id (\<lambda>p. VProject (project_json_of p)) (fst (GetProject i (InDb ?d)))" for i
    by (simp add: GetProject_def rd getProjectDB_alt next_fault_mask)
      (simp add: mask_db_def row split: option.split)
  have cr: "fst (CreateProject e u n c tm (InDb (mask_db f ?d))) = fst (CreateProject e u n c tm (InDb ?d))" for e u n c tm
    by (simp add: CreateProject_def rd mask_create)
  show ?thesis
    by (auto simp: guarded_eq handleListProjects_def handleGetProject_def handleCreateProject_def run mask_keys_def l g cr
        split: sum.split intro!: sn)
qed


section \<open>Witnesses\<close>

definition sample_env :: "environ \<Rightarrow> (unit, unit, string, unit, string, string) hub_env" where
  "sample_env env = \<lparr>he_config = Load (\<lambda>_. []), he_environ = env,
     he_redis = \<lparr>ParseURL = (\<lambda>_. Inl ErrIO), rd_Set = (\<lambda>_ _ _ r. (Inr (), r))\<rparr>, he_zone = 0,
     he_vault = \<lparr>encryptionKey = EncryptionKey (Load (\<lambda>_. []))\<rparr>, he_projects = True, he_atlas = text_atlas\<rparr>"

definition sample_cd :: call_draws where
  "sample_cd = \<lparr>cd_auth = 1000, cd_now = 2000, cd_later = 3000, cd_nonce = Some (replicate 12 (CHR ''n'')),
     cd_draws = sample_draws, cd_plan = (\<lambda>_. 0), cd_order = (\<lambda>m. m)\<rparr>"

definition sample_hub :: "bool list \<Rightarrow> (unit, string) hub" where
  "sample_hub fs = \<lparr>hub_db = \<lparr>tables = empty_tables, faults = fs\<rparr>, hub_redis = (), hub_files = \<lparr>fs_dirs = [], fs_files = [], fs_faults = []\<rparr>,
     hub_schema = new_schema_service [], hub_targets = []\<rparr>"

definition sample_request :: "string \<Rightarrow> 'b \<Rightarrow> 'b http_request" where
  "sample_request auth b = \<lparr>header = (\<lambda>k. if k = ''Authorization'' then auth else if k = ''X-Santokit-Project-ID'' then ''shop'' else []),
     query = (\<lambda>_. []), url_param = (\<lambda>_. ''KEY''), ctx_user = None, body = Inr b\<rparr>"

lemma sample_request_sel [simp]: "body (sample_request a b) = Inr b" "header (sample_request a b) ''Authorization'' = a"
  "url_param (sample_request a b) k = ''KEY''" "project_header (sample_request a b) = ''shop''"
proof -
  have "trim_space ''shop'' = ''shop''" by code_simp
  then show "project_header (sample_request a b) = ''shop''" by (simp add: sample_request_def project_header_def)
qed (simp_all add: sample_request_def)

lemma sample_hub_sel [simp]: "tables (hub_db (sample_hub fs)) = empty_tables" "faults (hub_db (sample_hub fs)) = fs"
  by (simp_all add: sample_hub_def)

lemma sample_cd_sel [simp]: "cd_auth sample_cd = 1000" "cd_now sample_cd = 2000" "cd_later sample_cd = 3000"
  "cd_nonce sample_cd = Some (replicate 12 (CHR ''n''))"
  by (simp_all add: sample_cd_def)

lemma sample_env_sel [simp]: "he_environ (sample_env env) = env"
  by (simp add: sample_env_def)

lemma sample_clock: "clock_ok 2000" "clock_ok 3000"
  by (simp_all add: clock_ok_def ns_per_s_def)

lemma sample_user: "\<not> blank ''ada''" "trim_space ''ada'' = ''ada''" "to_valid ''ada'' = ''ada''"
  by code_simp+

lemma sample_vault: "new_vault_service (EncryptionKey (Load (\<lambda>_. []))) = Inr (he_vault (sample_env env))"
  by (simp add: new_vault_service_def sample_env_def default_key_length)

theorem hub_stays_consistent_witness:
  "proj_db_ok (tables (hub_db (serve_all (sample_env (\<lambda>_. []))
     [(sample_cd, CallCreateProject (sample_request [] \<lparr>PrName = ''shop'', PrDescription = [], PrTeamID = []\<rparr>)),
      (sample_cd, CallDeleteSecret (sample_request [] ()))] (sample_hub [False, True]))))"
  by (rule hub_stays_consistent) (simp add: proj_db_ok_empty)

theorem projects_are_isolated_witness:
  "data_of ''blog'' (serve_all (sample_env (\<lambda>_. []))
     [(sample_cd, CallDeleteSecret (sample_request [] ()))] (sample_hub [])) = data_of ''blog'' (sample_hub [])"
  by (rule projects_are_isolated) simp

lemma bearer_token: "bearer (''Bearer '' @ tok) = Some tok"
  by (simp add: bearer_def)

theorem only_token_bearers_change_witness:
  "\<exists>auth tok. fst (serve (sample_env enforcing_env) sample_cd (CallListSecrets (sample_request auth ())) (sample_hub [False])) \<noteq> sample_hub [False] \<and>
     bearer auth = Some tok \<and> verifyToken (secret_of (sample_env enforcing_env)) 1000 tok"
proof -
  let ?E = "sample_env enforcing_env"
  obtain tok where i: "issueToken (secret_of ?E) 2000 ''ada'' [] ''login'' 5000000000 = Inr (tok, 2000 + sint (5000000000 :: 64 word))"
    using issueToken_eq [OF sample_user(1)] by blast
  have "unix 1000 \<le> unix (2000 + sint (5000000000 :: 64 word))" by (simp add: unix_def ns_per_s_def)
  from issued_user(2) [OF i sample_clock(1) this, unfolded sample_user(3)]
  have "authenticate (he_environ ?E) (secret_of ?E) 1000 (''Bearer '' @ tok) = Inr ''ada''"
    using enforcing_env_on by (simp add: authenticate_def bearer_token [simplified])
  then have "fst (serve ?E sample_cd (CallListSecrets (sample_request (''Bearer '' @ tok) ())) (sample_hub [False])) \<noteq> sample_hub [False]"
    by (simp add: guarded_eq handleListSecrets_def Let_def run_hub_db_def vault_List_def sql_vault_def sql_vault_list_def
        query_rows_alt next_fault_def) (simp add: sample_hub_def)
  moreover from only_token_bearers_change [OF _ this] enforcing_env_on
  have "\<exists>tok'. bearer (''Bearer '' @ tok) = Some tok' \<and> verifyToken (secret_of ?E) 1000 tok'"
    by auto
  ultimately show ?thesis by blast
qed

lemma sample_token:
  "\<exists>tok exp. snd (handleCreateToken E sample_cd h (sample_request [] \<lparr>TkUserID = ''ada'', TkEmail = [], TkExpiresIn = n\<rparr>)) =
     HttpJson (VIssued ''ada'' [] tok exp)"
proof -
  obtain tok where "issueToken (secret_of E) 3000 ''ada'' [] ''pat'' (token_ttl n) = Inr (tok, 3000 + sint (token_ttl n))"
    using issueToken_eq [OF sample_user(1)] by blast
  then show ?thesis by (simp add: handleCreateToken_def token_user_def sample_user)
qed


theorem any_client_any_user_witness:
  "\<exists>tok exp. serve (sample_env enforcing_env) sample_cd
      (CallCreateToken (sample_request [] \<lparr>TkUserID = ''ada'', TkEmail = [], TkExpiresIn = 0\<rparr>)) (sample_hub []) =
        (sample_hub [], HttpJson (VIssued ''ada'' [] tok exp)) \<and>
     call_user (sample_env enforcing_env) sample_cd (CallListSecrets (sample_request (''Bearer '' @ tok) ())) = Inr ''ada''"
proof -
  let ?req = "\<lparr>TkUserID = ''ada'', TkEmail = [], TkExpiresIn = 0\<rparr>" and ?E = "sample_env enforcing_env"
  have c: "clock_ok (cd_later sample_cd)" by (simp add: sample_clock)
  obtain tok exp where s: "serve ?E sample_cd (CallCreateToken (sample_request [] ?req)) (sample_hub []) =
      (sample_hub [], HttpJson (VIssued ''ada'' [] tok exp))"
    and u: "\<forall>c' call. bearer (call_auth call) = Some tok \<and>
        unix (cd_auth c') \<le> unix (cd_later sample_cd + 30 * 24 * 3600 * ns_per_s) \<longrightarrow> call_user ?E c' call = Inr ''ada''"
    using any_client_any_user [OF sample_user(1,2) c sample_request_sel(1) [of "[]" ?req], of ?E "sample_hub []",
      unfolded sample_user(3)] by (simp only: token_req.select_convs) blast
  have "unix 1000 \<le> unix (3000 + 30 * 24 * 3600 * ns_per_s)" by (simp add: unix_def ns_per_s_def)
  then have "call_user ?E sample_cd (CallListSecrets (sample_request (''Bearer '' @ tok) ())) = Inr ''ada''"
    by (intro u [rule_format]) (simp add: bearer_token [simplified])
  with s show ?thesis by blast
qed



theorem master_keys_not_served_witness:
  "snd (serve (sample_env (\<lambda>_. [])) sample_cd (CallListProjects (sample_request [] ())) (mask_keys (\<lambda>_. []) (sample_hub []))) =
   snd (serve (sample_env (\<lambda>_. [])) sample_cd (CallListProjects (sample_request [] ())) (sample_hub []))"
  by (rule conjunct1 [OF master_keys_not_served]) (simp add: proj_db_ok_empty)
end
