(* ===== verification/Cli_Profiles.thy ===== *)
theory Cli_Profiles
  imports Cli_Communicator
begin

text \<open>
  The commands on the user's profiles: \<open>stk profile\<close> (\<open>packages/cli/internal/commands/profile.go\<close>) and
  \<open>stk project\<close> (\<open>project.go\<close>).  A command that shows something returns the rows it prints, before
  they are laid out and coloured; a warning returns no rows.
\<close>

section \<open>Commands\<close>

definition load_failed :: "go_error \<Rightarrow> go_error" where
  "load_failed e = ErrWrap ''Failed to load config: '' e"

definition save_config :: "environ \<Rightarrow> Config \<Rightarrow> fs \<Rightarrow> unit res \<times> fs" where
  "save_config env cfg w =
     (case Save env cfg w of
        (Inl e, w') \<Rightarrow> (Inl (ErrWrap ''Failed to save config: '' e), w')
      | (Inr _, w') \<Rightarrow> (Inr (), w'))"

definition profile_row :: "string \<Rightarrow> Profile \<Rightarrow> string list" where
  "profile_row name p = [name, HubURL p, PProjectID p]"

definition profile_list :: "environ \<Rightarrow> fs \<Rightarrow> string list list res \<times> fs" where
  "profile_list env w =
     (case Load env w of
        (Inl e, w') \<Rightarrow> (Inl (load_failed e), w')
      | (Inr cfg, w') \<Rightarrow>
          (Inr (map (\<lambda>(name, p). profile_row (name @ (if Current cfg = name then '' (current)'' else [])) p) (Profiles cfg)), w'))"

definition profile_current :: "environ \<Rightarrow> fs \<Rightarrow> string list list res \<times> fs" where
  "profile_current env w =
     (case Load env w of
        (Inl e, w') \<Rightarrow> (Inl (load_failed e), w')
      | (Inr cfg, w') \<Rightarrow>
          if Current cfg = [] then (Inr [], w')
          else (case map_of (Profiles cfg) (Current cfg) of
                  None \<Rightarrow> (Inr [], w')
                | Some p \<Rightarrow> (Inr [profile_row (Current cfg) p], w')))"

definition profile_use :: "environ \<Rightarrow> string \<Rightarrow> fs \<Rightarrow> unit res \<times> fs" where
  "profile_use env name w =
     (case Load env w of
        (Inl e, w') \<Rightarrow> (Inl (load_failed e), w')
      | (Inr cfg, w') \<Rightarrow>
          if map_of (Profiles cfg) name = None then (Inl (ErrFmt ''Profile %q not found'' [name]), w')
          else save_config env (cfg\<lparr>Current := name\<rparr>) w')"

text \<open>The zero value of the map stands in for a profile that does not exist.\<close>

definition set_fields :: "string \<Rightarrow> string \<Rightarrow> string \<Rightarrow> Profile \<Rightarrow> Profile" where
  "set_fields hubURL projectID tok p =
     \<lparr>HubURL = (if hubURL \<noteq> [] then hubURL else HubURL p),
      PProjectID = (if projectID \<noteq> [] then projectID else PProjectID p),
      PToken = (if tok \<noteq> [] then tok else PToken p)\<rparr>"

definition profile_set :: "environ \<Rightarrow> string \<Rightarrow> string \<Rightarrow> string \<Rightarrow> string \<Rightarrow> fs \<Rightarrow> unit res \<times> fs" where
  "profile_set env name hubURL projectID tok w =
     (case Load env w of
        (Inl e, w') \<Rightarrow> (Inl (load_failed e), w')
      | (Inr cfg, w') \<Rightarrow>
          let profile = set_fields hubURL projectID tok
                (case map_of (Profiles cfg) name of None \<Rightarrow> no_profile | Some p \<Rightarrow> p)
          in save_config env
               (cfg\<lparr>Profiles := gm_put name profile (Profiles cfg),
                    Current := (if Current cfg = [] then name else Current cfg)\<rparr>) w')"

definition maskToken :: "string \<Rightarrow> string" where
  "maskToken tok =
     (if tok = [] then []
      else if length tok \<le> 8 then ''****''
      else take 4 tok @ ''...'' @ drop (length tok - 4) tok)"

definition project_info :: "environ \<Rightarrow> fs \<Rightarrow> string list list res \<times> fs" where
  "project_info env w =
     (case Load env w of
        (Inl e, w') \<Rightarrow> (Inl (load_failed e), w')
      | (Inr cfg, w') \<Rightarrow>
          if Current cfg = [] then (Inr [], w')
          else (case map_of (Profiles cfg) (Current cfg) of
                  None \<Rightarrow> (Inr [], w')
                | Some p \<Rightarrow> (Inr [profile_row (Current cfg) p, [''token: '' @ maskToken (PToken p)]], w')))"

text \<open>\<open>project set\<close>, \<open>project auth set\<close> and \<open>project auth show\<close> start alike.\<close>

definition with_current :: "environ \<Rightarrow> fs \<Rightarrow> (Config \<Rightarrow> Profile \<Rightarrow> fs \<Rightarrow> 'a res \<times> fs) \<Rightarrow> 'a res \<times> fs" where
  "with_current env w k =
     (case Load env w of
        (Inl e, w') \<Rightarrow> (Inl (load_failed e), w')
      | (Inr cfg, w') \<Rightarrow>
          if Current cfg = [] then (Inl (ErrMsg ''No current profile set''), w')
          else (case map_of (Profiles cfg) (Current cfg) of
                  None \<Rightarrow> (Inl (ErrMsg ''Current profile not found''), w')
                | Some p \<Rightarrow> k cfg p w'))"

definition project_set :: "environ \<Rightarrow> string \<Rightarrow> fs \<Rightarrow> unit res \<times> fs" where
  "project_set env projectID w =
     with_current env w (\<lambda>cfg p w'.
       save_config env (cfg\<lparr>Profiles := gm_put (Current cfg) (p\<lparr>PProjectID := projectID\<rparr>) (Profiles cfg)\<rparr>) w')"

definition project_auth_set :: "environ \<Rightarrow> string \<Rightarrow> fs \<Rightarrow> unit res \<times> fs" where
  "project_auth_set env tok w =
     with_current env w (\<lambda>cfg p w'.
       save_config env (cfg\<lparr>Profiles := gm_put (Current cfg) (p\<lparr>PToken := tok\<rparr>) (Profiles cfg)\<rparr>) w')"

definition project_auth_show :: "environ \<Rightarrow> fs \<Rightarrow> string list list res \<times> fs" where
  "project_auth_show env w = with_current env w (\<lambda>cfg p w'. (Inr [[maskToken (PToken p)]], w'))"

section \<open>Masked tokens\<close>

text \<open>
  A masked token shows at most eight bytes of the token, the first four and the last
  four, and none of a token of up to eight bytes: two tokens that agree on these bytes look the same,
  whatever lies between, and all short ones look the same.
\<close>

theorem mask_hides:
  "length (maskToken tok) \<le> 11 \<and>
   (tok \<noteq> [] \<and> length tok \<le> 8 \<longrightarrow> maskToken tok = ''****'') \<and>
   (\<forall>a b x y. length a = 4 \<and> length b = 4 \<and> x \<noteq> [] \<and> y \<noteq> [] \<longrightarrow> maskToken (a @ x @ b) = maskToken (a @ y @ b))"
  by (auto simp: maskToken_def)

section \<open>The abstract profiles\<close>

text \<open>The name in use and the profile of every name; the meaning of each command on them, \<open>None\<close> when it
  has to fail.\<close>

type_synonym profiles = "string \<times> (string \<Rightarrow> Profile option)"

datatype profile_command =
    ShowList | ShowCurrent | Use string | SetProfile string string string string
  | ShowProject | SetProject string | SetToken string | ShowToken

fun profile_step :: "profile_command \<Rightarrow> profiles \<Rightarrow> profiles option" where
  "profile_step (Use name) (cur, ps) = (if ps name = None then None else Some (name, ps))"
| "profile_step (SetProfile name h p t) (cur, ps) =
     Some (if cur = [] then name else cur,
           ps(name \<mapsto> set_fields h p t (case ps name of None \<Rightarrow> no_profile | Some q \<Rightarrow> q)))"
| "profile_step (SetProject x) (cur, ps) =
     (if cur = [] then None else case ps cur of None \<Rightarrow> None | Some q \<Rightarrow> Some (cur, ps(cur \<mapsto> q\<lparr>PProjectID := x\<rparr>)))"
| "profile_step (SetToken x) (cur, ps) =
     (if cur = [] then None else case ps cur of None \<Rightarrow> None | Some q \<Rightarrow> Some (cur, ps(cur \<mapsto> q\<lparr>PToken := x\<rparr>)))"
| "profile_step ShowToken (cur, ps) = (if cur = [] \<or> ps cur = None then None else Some (cur, ps))"
| "profile_step c (cur, ps) = Some (cur, ps)"

definition no_rows :: "unit res \<times> fs \<Rightarrow> string list list res \<times> fs" where
  "no_rows out = (case out of (Inl e, w) \<Rightarrow> (Inl e, w) | (Inr _, w) \<Rightarrow> (Inr [], w))"

fun run_profile :: "environ \<Rightarrow> profile_command \<Rightarrow> fs \<Rightarrow> string list list res \<times> fs" where
  "run_profile env ShowList w = profile_list env w"
| "run_profile env ShowCurrent w = profile_current env w"
| "run_profile env (Use name) w = no_rows (profile_use env name w)"
| "run_profile env (SetProfile name h p t) w = no_rows (profile_set env name h p t w)"
| "run_profile env ShowProject w = project_info env w"
| "run_profile env (SetProject x) w = no_rows (project_set env x w)"
| "run_profile env (SetToken x) w = no_rows (project_auth_set env x w)"
| "run_profile env ShowToken w = project_auth_show env w"

definition abs_config :: "Config \<Rightarrow> profiles" where
  "abs_config cfg = (Current cfg, map_of (Profiles cfg))"

fun command_utf8 :: "profile_command \<Rightarrow> bool" where
  "command_utf8 (Use name) = utf8_text name"
| "command_utf8 (SetProfile name h p t) = (utf8_text name \<and> utf8_text h \<and> utf8_text p \<and> utf8_text t)"
| "command_utf8 (SetProject x) = utf8_text x"
| "command_utf8 (SetToken x) = utf8_text x"
| "command_utf8 c = True"


section \<open>Saving and loading again\<close>

definition utf8_profile :: "Profile \<Rightarrow> bool" where
  "utf8_profile p \<longleftrightarrow> utf8_text (HubURL p) \<and> utf8_text (PProjectID p) \<and> utf8_text (PToken p)"

definition good_config :: "Config \<Rightarrow> bool" where
  "good_config cfg \<longleftrightarrow> map_wf (Profiles cfg) \<and> utf8_text (Current cfg) \<and>
     (\<forall>name p. map_of (Profiles cfg) name = Some p \<longrightarrow> utf8_text name \<and> utf8_profile p)"

lemma good_utf8: "good_config cfg \<Longrightarrow> utf8_config cfg"
  by (auto simp: good_config_def utf8_config_def utf8_profile_def simp flip: map_wf_pair)

lemma abs_reloaded: "map_wf (Profiles cfg) \<Longrightarrow> abs_config (reloaded cfg) = abs_config cfg"
  by (simp add: abs_config_def reloaded_def map_of_sorted_put)

lemma good_reloaded: "good_config cfg \<Longrightarrow> good_config (reloaded cfg)"
  by (simp add: good_config_def reloaded_def map_of_sorted_put map_wf_fold_put)

lemma good_put:
  "good_config cfg \<Longrightarrow> utf8_text name \<Longrightarrow> utf8_profile p \<Longrightarrow> utf8_text cur \<Longrightarrow>
     good_config (cfg\<lparr>Profiles := gm_put name p (Profiles cfg), Current := cur\<rparr>)"
  by (auto simp: good_config_def split: if_splits)

lemma Save_files: "Save env cfg w = (Inl e, w') \<Longrightarrow> fs_files w' = fs_files w"
  by (auto simp: Save_def dest!: MkdirAll_files WriteFile_Inl split: sum.splits prod.splits)

lemma save_config_ok:
  assumes "good_config cfg" and "save_config env cfg w = (r, w')" and "fs_healthy w'"
  shows "if is_ok r then \<exists>cfg'. fst (Load env w') = Inr cfg' \<and> abs_config cfg' = abs_config cfg \<and> good_config cfg'
    else fs_files w' = fs_files w"
proof (cases "Save env cfg w")
  case (Pair s w1)
  show ?thesis
  proof (cases s)
    case (Inl e)
    with Pair assms(2) Save_files [of env cfg w e w1] show ?thesis by (auto simp: save_config_def)
  next
    case (Inr u)
    with Pair assms(2) have w': "w1 = w'" and r: "r = Inr ()" by (auto simp: save_config_def)
    have "fst (Load env w') = Inr (reloaded cfg)"
      using Load_Save [OF good_utf8 [OF assms(1)], of env w w'] Pair Inr w' assms(3) by simp
    moreover have "map_wf (Profiles cfg)" using assms(1) by (simp add: good_config_def)
    ultimately show ?thesis using r good_reloaded [OF assms(1)] by (simp add: abs_reloaded)
  qed
qed

lemma ReadFile_again:
  assumes "fst (os_ReadFile p w) \<noteq> Inl ErrIO" and "same_tree w1 w" and "fs_healthy w1"
  shows "fst (os_ReadFile p w1) = fst (os_ReadFile p w)"
proof -
  obtain f u where f: "os_fault w = (f, u)" by fastforce
  have nf: "\<not> f" using assms(1) by (auto simp: os_ReadFile_def f)
  have tu: "same_tree u w" using os_fault_tree [OF f] by blast
  obtain u1 where u1: "os_fault w1 = (False, u1)" "fs_dirs u1 = fs_dirs w1" "fs_files u1 = fs_files w1"
    using os_fault_healthy [OF assms(3)] by blast
  have "same_tree u1 u" using u1 tu assms(2) by (simp add: same_tree_def)
  from same_tree_eqs [OF this, of "path_key p"] this f nf u1(1) show ?thesis
    by (auto simp: os_ReadFile_def same_tree_def split: option.splits)
qed

lemma Load_tree: "Load env w = (r, w') \<Longrightarrow> same_tree w' w"
  using ReadFile_frame by (fastforce simp: Load_def same_tree_def split: sum.splits prod.splits)

lemma Load_again:
  assumes "fst (Load env w) = Inr cfg" and "same_tree w1 w" and "fs_healthy w1"
  shows "fst (Load env w1) = Inr cfg"
proof -
  from assms(1) obtain path where path: "configPath env = Inr path"
    by (auto simp: Load_def split: sum.splits)
  have ne: "ErrIO \<noteq> ErrNotExist" by (simp add: ErrNotExist_def)
  have "fst (os_ReadFile path w) \<noteq> Inl ErrIO"
    using assms(1) ne by (cases "os_ReadFile path w") (auto simp: Load_def path)
  from ReadFile_again [OF this assms(2,3)] assms(1) show ?thesis
    by (cases "os_ReadFile path w"; cases "os_ReadFile path w1")
      (auto simp: Load_def path split: sum.splits)
qed

section \<open>The commands refine the abstract profiles\<close>

text \<open>What a command comes to over a configuration that is loaded: it saves a new one, or leaves the file
  alone.\<close>

definition comes_to :: "environ \<Rightarrow> Config \<Rightarrow> profile_command \<Rightarrow> fs \<Rightarrow> string list list res \<Rightarrow> fs \<Rightarrow> bool" where
  "comes_to env cfg c w1 r w' \<longleftrightarrow>
     (\<exists>new. good_config new \<and> no_rows (save_config env new w1) = (r, w') \<and> profile_step c (abs_config cfg) = Some (abs_config new)) \<or>
     (w' = w1 \<and> (profile_step c (abs_config cfg) = Some (abs_config cfg) \<or> profile_step c (abs_config cfg) = None \<and> \<not> is_ok r))"

lemma comes_to_saved:
  "good_config new \<Longrightarrow> no_rows (save_config env new w1) = (r, w') \<Longrightarrow> profile_step c (abs_config cfg) = Some (abs_config new) \<Longrightarrow>
     comes_to env cfg c w1 r w'"
  by (auto simp: comes_to_def)

lemma good_old: "good_config cfg \<Longrightarrow> utf8_profile (case map_of (Profiles cfg) n of None \<Rightarrow> no_profile | Some p \<Rightarrow> p)"
  by (auto simp: good_config_def utf8_profile_def no_profile_def utf8_text_def split: option.split)

text \<open>The two commands that change a field of the current profile.\<close>

lemma comes_to_field:
  assumes good: "good_config cfg" and ld: "Load env w = (Inr cfg, w1)"
    and f: "\<And>q. utf8_profile q \<Longrightarrow> utf8_profile (f q)"
    and step: "\<And>cur m. profile_step c (cur, m) =
      (if cur = [] then None else case m cur of None \<Rightarrow> None | Some q \<Rightarrow> Some (cur, m(cur \<mapsto> f q)))"
    and run: "no_rows (with_current env w (\<lambda>cfg p w. save_config env (cfg\<lparr>Profiles := gm_put (Current cfg) (f p) (Profiles cfg)\<rparr>) w)) = (r, w')"
  shows "comes_to env cfg c w1 r w'"
proof (cases "Current cfg = [] \<or> map_of (Profiles cfg) (Current cfg) = None")
  case True
  with run ld step show ?thesis
    by (auto simp: comes_to_def with_current_def no_rows_def abs_config_def)
next
  case False
  then obtain q where q: "map_of (Profiles cfg) (Current cfg) = Some q" by auto
  have cur: "utf8_text (Current cfg)" using good by (simp add: good_config_def)
  have "utf8_profile (f q)" using good_old [OF good, of "Current cfg"] q f by simp
  from good_put [OF good cur this cur] show ?thesis
    using run ld q False step
    by (intro comes_to_saved [where new = "cfg\<lparr>Profiles := gm_put (Current cfg) (f q) (Profiles cfg)\<rparr>"])
      (simp_all add: with_current_def abs_config_def)
qed

lemma run_profile_comes_to:
  assumes ld: "Load env w = (Inr cfg, w1)" and good: "good_config cfg" and utf: "command_utf8 c" and run: "run_profile env c w = (r, w')"
  shows "comes_to env cfg c w1 r w'"
proof (cases c)
  case (Use name)
  have "good_config (cfg\<lparr>Current := name\<rparr>)" using good utf Use by (simp add: good_config_def)
  with run Use ld show ?thesis
    by (auto simp: profile_use_def no_rows_def abs_config_def comes_to_def split: if_splits)
next
  case (SetProfile name h p t)
  let ?q = "set_fields h p t (case map_of (Profiles cfg) name of None \<Rightarrow> no_profile | Some q \<Rightarrow> q)"
  let ?cur = "if Current cfg = [] then name else Current cfg"
  have "utf8_profile ?q" "utf8_text ?cur"
    using good_old [OF good, of name] good utf SetProfile by (simp_all add: set_fields_def utf8_profile_def good_config_def)
  with good_put [OF good _ this] utf run SetProfile ld show ?thesis
    by (intro comes_to_saved [where new = "cfg\<lparr>Profiles := gm_put name ?q (Profiles cfg), Current := ?cur\<rparr>"])
      (simp_all add: profile_set_def Let_def abs_config_def)
next
  case (SetProject x)
  show ?thesis
    by (rule comes_to_field [OF good ld, where f = "\<lambda>q. q\<lparr>PProjectID := x\<rparr>"])
      (use run utf SetProject in \<open>auto simp: project_set_def utf8_profile_def\<close>)
next
  case (SetToken x)
  show ?thesis
    by (rule comes_to_field [OF good ld, where f = "\<lambda>q. q\<lparr>PToken := x\<rparr>"])
      (use run utf SetToken in \<open>auto simp: project_auth_set_def utf8_profile_def\<close>)
next
  case ShowList
  with run ld show ?thesis by (auto simp: profile_list_def abs_config_def comes_to_def)
next
  case ShowCurrent
  with run ld show ?thesis by (auto simp: profile_current_def abs_config_def comes_to_def split: if_splits option.splits)
next
  case ShowProject
  with run ld show ?thesis by (auto simp: project_info_def abs_config_def comes_to_def split: if_splits option.splits)
next
  case ShowToken
  with run ld show ?thesis
    by (auto simp: project_auth_show_def with_current_def abs_config_def comes_to_def split: if_splits option.splits)
qed



definition home_env :: environ where
  "home_env x = (if x = ''HOME'' then ''/home'' else [])"

lemma home_paths:
  "configPath home_env = Inr ''/home/.santokit/config.json''"
  "path_dir ''/home/.santokit/config.json'' = ''/home/.santokit''"
  "path_key ''/home/.santokit/config.json'' = [''/'', ''home'', ''.santokit'', ''config.json'']"
  "path_key ''/home/.santokit'' = [''/'', ''home'', ''.santokit'']"
  by code_simp+

lemma home_Load: "Load home_env empty_fs = (Inr empty_user_config, empty_fs)"
  by (simp add: Load_def home_paths os_ReadFile_def os_fault_def empty_fs_def dir_exists_def top_dir_def
      file_in_way_def prefixes_of_def upt_rec)

lemma home_Save: "\<exists>w'. Save home_env cfg empty_fs = (Inr (), w') \<and> fs_healthy w'"
  by (simp add: Save_def home_paths os_MkdirAll_def os_fault_def empty_fs_def prefixes_of_def file_in_way_def
      dir_exists_def top_dir_def os_WriteFile_def fs_healthy_def Let_def upt_rec)


end
