(* ===== verification/Cli_Login.thy ===== *)
theory Cli_Login
  imports Cli_Profiles
begin

text \<open>
  \<open>stk login\<close>: \<open>packages/cli/internal/commands/login.go\<close>.  The browser calls back a local server; what
  happens first, a callback, a failure of the server or the end of five minutes, decides.
\<close>

section \<open>The callback\<close>

datatype login_event = Callback string | ServerFailed go_error | TimedOut

text \<open>The handler answers with a status and passes a token or an error on.\<close>

definition callback_handler :: "string \<Rightarrow> nat \<times> string res" where
  "callback_handler tok =
     (if tok = [] then (400, Inl (ErrMsg ''no token in callback'')) else (200, Inr tok))"

definition login_wait :: "login_event \<Rightarrow> string res" where
  "login_wait ev =
     (case ev of
        Callback tok \<Rightarrow>
          (case snd (callback_handler tok) of Inl e \<Rightarrow> Inl (ErrWrap ''Authentication failed: '' e) | Inr x \<Rightarrow> Inr x)
      | ServerFailed e \<Rightarrow> Inl (ErrWrap ''Authentication failed: '' (ErrWrap ''callback server error: '' e))
      | TimedOut \<Rightarrow> Inl (ErrMsg ''Authentication timed out''))"

definition login_url :: "string \<Rightarrow> string" where
  "login_url hubURL = hubURL @ ''/auth/cli?callback='' @ ''http://localhost:8765/callback''"

section \<open>The user\<close>

record userInfoResponse =
  UserID :: string
  Email :: string

definition user_info_decoder :: "userInfoResponse decoder" where
  "user_info_decoder =
     decode_struct [(''user_id'', decode_str (\<lambda>x u. u\<lparr>UserID := x\<rparr>)), (''email'', decode_str (\<lambda>x u. u\<lparr>Email := x\<rparr>))]"

definition user_info_request :: "string \<Rightarrow> string \<Rightarrow> out_request" where
  "user_info_request hubURL tok =
     \<lparr>out_method = ''GET'', out_url = hubURL @ ''/api/v1/auth/me'',
      out_headers = [(''Authorization'', ''Bearer '' @ tok)], out_body = []\<rparr>"

definition getUserInfo :: "'w http_client \<Rightarrow> string \<Rightarrow> string \<Rightarrow> 'w \<Rightarrow> userInfoResponse res \<times> 'w" where
  "getUserInfo cl hubURL tok n =
     (let req = user_info_request hubURL tok in
      case new_request cl (out_method req) (out_url req) of
        Some e \<Rightarrow> (Inl e, n)
      | None \<Rightarrow>
          (case client_do cl req n of
             (Inl e, n') \<Rightarrow> (Inl e, n')
           | (Inr (status, body), n') \<Rightarrow>
               if status \<noteq> 200 then (Inl (ErrMsg (''failed to get user info: '' @ body)), n')
               else (json_decode user_info_decoder body \<lparr>UserID = [], Email = []\<rparr>, n')))"

section \<open>The command\<close>

text \<open>It returns the address it greets.  The profile is made anew, with the hub and the token only.\<close>

definition login_profile :: "string \<Rightarrow> string \<Rightarrow> Profile" where
  "login_profile hubURL tok = \<lparr>HubURL = hubURL, PProjectID = [], PToken = tok\<rparr>"

definition login ::
  "'w http_client \<Rightarrow> environ \<Rightarrow> string \<Rightarrow> login_event \<Rightarrow> fs \<Rightarrow> 'w \<Rightarrow> string res \<times> fs \<times> 'w" where
  "login cl env hubURL ev w n =
     (case login_wait ev of
        Inl e \<Rightarrow> (Inl e, w, n)
      | Inr tok \<Rightarrow>
          (case getUserInfo cl hubURL tok n of
             (Inl e, n') \<Rightarrow> (Inl (ErrWrap ''Failed to get user info: '' e), w, n')
           | (Inr info, n') \<Rightarrow>
               (case Load env w of
                  (Inl e, w1) \<Rightarrow> (Inl (load_failed e), w1, n')
                | (Inr cfg, w1) \<Rightarrow>
                    (case save_config env
                        (cfg\<lparr>Profiles := gm_put ''default'' (login_profile hubURL tok) (Profiles cfg), Current := ''default''\<rparr>) w1 of
                       (Inl e, w2) \<Rightarrow> (Inl e, w2, n')
                     | (Inr _, w2) \<Rightarrow> (Inr (Email info), w2, n')))))"

section \<open>After a login\<close>

lemma login_Inr:
  assumes "login cl env hubURL ev w n = (Inr email, w', n')"
  shows "\<exists>tok cfg w1. ev = Callback tok \<and> tok \<noteq> [] \<and> Load env w = (Inr cfg, w1) \<and>
    save_config env (cfg\<lparr>Profiles := gm_put ''default'' (login_profile hubURL tok) (Profiles cfg), Current := ''default''\<rparr>) w1 = (Inr (), w')"
proof -
  have "\<exists>tok. login_wait ev = Inr tok"
    using assms by (auto simp: login_def split: sum.splits)
  then obtain tok where ev: "ev = Callback tok" "tok \<noteq> []" "login_wait ev = Inr tok"
    by (cases ev) (auto simp: login_wait_def callback_handler_def split: if_splits)
  with assms show ?thesis
    by (auto simp: login_def split: sum.splits prod.splits)
qed

text \<open>
  A login that succeeds leaves the hub's URL and the token of the callback in the profile
  \<open>default\<close>, makes that profile the current one and keeps every other profile: the next command
  talks to that hub (or to the standard one, when the URL is empty) with that token, unless the
  environment says otherwise.  But the profile is written anew: a project set in \<open>default\<close> before is
  gone, so without one in the environment the next command has no project.
\<close>

theorem login_starts_session:
  assumes "login cl env hubURL ev w n = (Inr email, w', n')"
    and "fst (Load env w) = Inr cfg" and "good_config cfg"
    and "utf8_text hubURL" and "\<And>tok. ev = Callback tok \<Longrightarrow> utf8_text tok"
    and "fs_healthy w'"
  shows "\<exists>tok cfg'. ev = Callback tok \<and> tok \<noteq> [] \<and> fst (Load env w') = Inr cfg' \<and>
    abs_config cfg' = (''default'', (map_of (Profiles cfg))(''default'' \<mapsto> login_profile hubURL tok)) \<and>
    comm_config (fst (NewFromEnv cl env w')) =
      \<lparr>CHubURL = (if env ''STK_HUB_URL'' \<noteq> [] then env ''STK_HUB_URL''
         else if hubURL \<noteq> [] then hubURL else ''https://hub.santokit.dev''),
       CToken = (if env ''STK_TOKEN'' \<noteq> [] then env ''STK_TOKEN'' else tok),
       CProjectID = env ''STK_PROJECT_ID''\<rparr>"
proof -
  obtain tok w1 where ev: "ev = Callback tok" "tok \<noteq> []"
    and sv: "save_config env (cfg\<lparr>Profiles := gm_put ''default'' (login_profile hubURL tok) (Profiles cfg), Current := ''default''\<rparr>) w1 = (Inr (), w')"
    using login_Inr [OF assms(1)] assms(2) by auto
  have nil: "utf8_text []" by (simp add: utf8_text_def to_valid_ascii)
  have "list_all ascii ''default''" by (simp add: ascii_def)
  then have d: "utf8_text ''default''" unfolding utf8_text_def by (rule to_valid_ascii)
  have "utf8_profile (login_profile hubURL tok)"
    using assms(4) assms(5) [OF ev(1)] nil by (simp add: utf8_profile_def login_profile_def)
  from save_config_ok [OF good_put [OF assms(3) d this d] sv assms(6)]
  obtain cfg' where ld: "fst (Load env w') = Inr cfg'"
    and abs: "abs_config cfg' = (''default'', (map_of (Profiles cfg))(''default'' \<mapsto> login_profile hubURL tok))"
    by (auto simp: abs_config_def)
  have "CurrentProfile cfg' = Some (login_profile hubURL tok)"
    using abs by (simp add: CurrentProfile_def abs_config_def)
  with ld have "comm_config (fst (NewFromEnv cl env w')) = env_config env (login_profile hubURL tok)"
    by (cases "Load env w'") (simp add: NewFromEnv_def)
  with ev ld abs show ?thesis by (auto simp: env_config_def login_profile_def)
qed


definition quiet_client :: "unit http_client" where
  "quiet_client = \<lparr>new_request = (\<lambda>_ _. None), client_do = (\<lambda>r n. (Inr (200, ''{}''), n))\<rparr>"

theorem login_starts_session_witness:
  "\<exists>w'. login quiet_client home_env ''http://h'' (Callback ''tok'') empty_fs () = (Inr [], w', ()) \<and>
     comm_config (fst (NewFromEnv quiet_client home_env w')) =
       \<lparr>CHubURL = ''http://h'', CToken = ''tok'', CProjectID = []\<rparr>"
proof -
  have a: "list_all ascii ''http://h''" "list_all ascii ''tok''" by (simp_all add: ascii_def)
  have u: "utf8_text ''http://h''" "\<And>tok. Callback ''tok'' = Callback tok \<Longrightarrow> utf8_text tok"
    unfolding utf8_text_def using a [THEN to_valid_ascii] by (simp_all del: to_valid.simps)
  have g: "good_config empty_user_config"
    using to_valid_ascii [of "[]"] by (simp add: good_config_def empty_user_config_def utf8_text_def)
  have l: "fst (Load home_env empty_fs) = Inr empty_user_config" by (simp add: home_Load)
  have info: "json_decode user_info_decoder ''{}'' \<lparr>UserID = [], Email = []\<rparr> = Inr \<lparr>UserID = [], Email = []\<rparr>"
    by code_simp
  obtain w' where s: "Save home_env \<lparr>Current = ''default'', Profiles = [(''default'', login_profile ''http://h'' ''tok'')]\<rparr> empty_fs = (Inr (), w')"
    and h: "fs_healthy w'" using home_Save by blast
  have r: "login quiet_client home_env ''http://h'' (Callback ''tok'') empty_fs () = (Inr [], w', ())"
    by (simp add: login_def login_wait_def callback_handler_def getUserInfo_def quiet_client_def user_info_request_def
        info home_Load save_config_def empty_user_config_def gm_put_def s)
  from login_starts_session [OF r l g u h] r show ?thesis
    by (auto simp: home_env_def)
qed

end
