(* ===== verification/Cli_Generator.thy ===== *)
theory Cli_Generator
  imports Cli_Integrator "HOL-Library.Multiset"
begin

text \<open>
  The TypeScript declarations of a manifest: \<open>packages/cli/internal/engine/generator/types.go\<close>.  The
  bundles are put into a tree of namespaces, which is then written with every level sorted.  The
  children of a node are a Go map: the order of the list stands for the order of iteration, which
  the sort makes irrelevant.  \<open>sort.Slice\<close> leaves the order of bundles with one name open; the
  model keeps it.
\<close>

section \<open>The tree of namespaces\<close>

datatype 'y namespaceNode = Node "(string \<times> 'y namespaceNode) list" "'y Bundle list"

definition trim_char :: "char \<Rightarrow> string \<Rightarrow> string" where
  "trim_char c s = rev (dropWhile (\<lambda>x. x = c) (rev (dropWhile (\<lambda>x. x = c) s)))"

definition typed_bundle :: "'y Bundle \<Rightarrow> bool" where
  "typed_bundle b \<longleftrightarrow> (BType b = ''logic'' \<or> BType b = ''js'' \<or> BType b = ''sql'') \<and> \<not> has_prefix (BName b) ''_''"

text \<open>The path of a bundle's namespace; the loop skips parts that are empty or a dot.\<close>

definition ns_parts :: "'y Bundle \<Rightarrow> string list" where
  "ns_parts b =
     (let ns = trim_char (CHR ''/'') (BNamespace b) in
      if ns \<noteq> [] \<and> ns \<noteq> ''.'' then filter (\<lambda>p. p \<noteq> [] \<and> p \<noteq> ''.'') (split_char (CHR ''/'') ns) else [])"

fun add_bundle :: "string list \<Rightarrow> 'y Bundle \<Rightarrow> 'y namespaceNode \<Rightarrow> 'y namespaceNode" where
  "add_bundle [] b (Node children bundles) = Node children (bundles @ [b])"
| "add_bundle (part # parts) b (Node children bundles) =
     (let child = (case map_of children part of Some n \<Rightarrow> n | None \<Rightarrow> Node [] [])
      in Node (gm_put part (add_bundle parts b child) children) bundles)"

definition namespace_tree :: "'y Bundle list \<Rightarrow> 'y namespaceNode" where
  "namespace_tree bs = fold (\<lambda>b. add_bundle (ns_parts b) b) (filter typed_bundle bs) (Node [] [])"

section \<open>Writing\<close>

definition nl :: string where
  "nl = [CHR 0x0A]"

definition spaces :: "nat \<Rightarrow> string" where
  "spaces n = replicate n (CHR '' '')"

definition ts_type :: "string \<Rightarrow> string" where
  "ts_type pType =
     (if pType = ''string'' then ''string'' else if pType = ''int'' then ''number''
      else if pType = ''bool'' then ''boolean'' else ''any'')"

definition any_str :: "'y go_any option \<Rightarrow> string" where
  "any_str v = (case v of Some (AnyStr s) \<Rightarrow> s | _ \<Rightarrow> [])"

definition any_bool :: "'y go_any option \<Rightarrow> bool" where
  "any_bool v = (case v of Some (AnyBool b) \<Rightarrow> b | _ \<Rightarrow> False)"

definition param_text :: "nat \<Rightarrow> string \<Rightarrow> 'y go_any \<Rightarrow> string" where
  "param_text indent pName v =
     (case v of
        AnyMap pConfig \<Rightarrow>
          spaces (indent + 2) @ pName @ (if any_bool (map_of pConfig ''required'') then [] else ''?'') @ '': '' @
            ts_type (any_str (map_of pConfig ''type'')) @ '';'' @ nl
      | _ \<Rightarrow> [])"

definition bundle_text :: "nat \<Rightarrow> 'y Bundle \<Rightarrow> string" where
  "bundle_text indent b =
     spaces indent @ BName b @ '': (params: {'' @ nl @
     (case Option.bind (BConfig b) (\<lambda>c. map_of c ''params'') of
        Some (AnyMap params) \<Rightarrow> concat (map (\<lambda>(pName, v). param_text indent pName v) (sort_key fst params))
      | _ \<Rightarrow> []) @
     spaces indent @ ''}) => Promise<any>;'' @ nl"

definition child_text :: "nat \<Rightarrow> string \<Rightarrow> string \<Rightarrow> string" where
  "child_text indent name inner = spaces indent @ name @ '': {'' @ nl @ inner @ spaces indent @ ''};'' @ nl"

fun writeNamespace :: "nat \<Rightarrow> 'y namespaceNode \<Rightarrow> string" where
  "writeNamespace indent (Node children bundles) =
     concat (map (bundle_text indent) (sort_key BName bundles)) @
     concat (map (\<lambda>(name, inner). child_text indent name inner)
       (sort_key fst (map (\<lambda>(name, child). (name, writeNamespace (indent + 2) child)) children)))"

definition GenerateTypes :: "'y Manifest \<Rightarrow> string" where
  "GenerateTypes manifest =
     ''// This file is auto-generated by Santokit CLI.'' @ nl @
     ''// Do not edit manually.'' @ nl @ nl @
     ''import '' @ CHR 0x27 # ''@santokit/client'' @ CHR 0x27 # '';'' @ nl @ nl @
     ''declare module '' @ CHR 0x27 # ''@santokit/client'' @ CHR 0x27 # '' {'' @ nl @
     ''  interface LogicNamespace {'' @ nl @
     writeNamespace 4 (namespace_tree (bundle_list manifest)) @
     ''  }'' @ nl @ ''}'' @ nl"

section \<open>The text without a tree\<close>

text \<open>Reference: the text of bundles with their paths, by grouping on the first part of the path.\<close>

definition here :: "(string list \<times> 'y Bundle) list \<Rightarrow> 'y Bundle list" where
  "here items = map snd (filter (\<lambda>i. fst i = []) items)"

definition heads :: "(string list \<times> 'y Bundle) list \<Rightarrow> string list" where
  "heads items = map (hd \<circ> fst) (filter (\<lambda>i. fst i \<noteq> []) items)"

definition inside :: "string \<Rightarrow> (string list \<times> 'y Bundle) list \<Rightarrow> (string list \<times> 'y Bundle) list" where
  "inside h items = map (\<lambda>(p, b). (tl p, b)) (filter (\<lambda>i. fst i \<noteq> [] \<and> hd (fst i) = h) items)"

definition path_size :: "(string list \<times> 'y Bundle) list \<Rightarrow> nat" where
  "path_size items = sum_list (map (length \<circ> fst) items)"

lemma inside_smaller: "h \<in> set (heads items) \<Longrightarrow> path_size (inside h items) < path_size items"
proof (induction items)
  case (Cons i items)
  have le: "path_size (inside h items) \<le> path_size items"
    by (induction items) (auto simp: path_size_def inside_def split: prod.splits)
  obtain p b where i: "i = (p, b)" by (cases i)
  show ?case
  proof (cases "p \<noteq> [] \<and> hd p = h")
    case True
    with le show ?thesis by (cases p) (auto simp: i path_size_def inside_def)
  next
    case False
    with Cons have "h \<in> set (heads items)" by (auto simp: i heads_def split: if_splits)
    with Cons.IH False show ?thesis by (auto simp: i path_size_def inside_def)
  qed
qed (simp add: heads_def)

function group_text :: "nat \<Rightarrow> (string list \<times> 'y Bundle) list \<Rightarrow> string" where
  "group_text indent items =
     concat (map (bundle_text indent) (sort_key BName (here items))) @
     concat (map (\<lambda>h. child_text indent h (group_text (indent + 2) (inside h items))) (sort (remdups (heads items))))"
  by pat_completeness auto
termination by (relation "measure (\<lambda>(_, items). path_size items)") (auto simp: inside_smaller)

declare group_text.simps [simp del]


section \<open>The tree holds the groups\<close>

definition tree_of :: "(string list \<times> 'y Bundle) list \<Rightarrow> 'y namespaceNode" where
  "tree_of items = fold (\<lambda>(p, b). add_bundle p b) items (Node [] [])"

lemma tree_of_snoc: "tree_of (items @ [(p, b)]) = add_bundle p b (tree_of items)"
  by (simp add: tree_of_def)

text \<open>A plain part is one that the loop does not skip; only those reach the tree.\<close>

lemma tree_of_groups:
  "\<exists>children. tree_of items = Node children (here items) \<and> map_wf children \<and>
     (\<forall>h. map_of children h = (if h \<in> set (heads items) then Some (tree_of (inside h items)) else None))"
proof (induction items rule: rev_induct)
  case Nil
  show ?case by (simp add: tree_of_def here_def heads_def)
next
  case (snoc i items)
  then obtain ch where ch: "tree_of items = Node ch (here items)" "map_wf ch"
    "\<And>h. map_of ch h = (if h \<in> set (heads items) then Some (tree_of (inside h items)) else None)" by blast
  obtain p b where i: "i = (p, b)" by (cases i)
  show ?case
  proof (cases p)
    case Nil
    with ch show ?thesis
      by (simp add: i tree_of_snoc here_def heads_def inside_def)
  next
    case (Cons h ps)
    have "inside h items = []" if "h \<notin> set (heads items)"
      using that by (auto simp: inside_def heads_def filter_empty_conv)
    then have child: "(case map_of ch h of Some n \<Rightarrow> n | None \<Rightarrow> Node [] []) = tree_of (inside h items)"
      by (simp add: ch(3) tree_of_def)
    with ch Cons show ?thesis
      by (simp add: i tree_of_snoc here_def heads_def inside_def Let_def tree_of_snoc [simplified])
  qed
qed

lemma sorted_pairs:
  assumes "map_wf m" and "set (map fst m) = set ks"
  shows "sort_key fst (map (\<lambda>(k, v). (k, f v)) m) = map (\<lambda>k. (k, f (the (map_of m k)))) (sort (remdups ks))"
proof (rule map_sorted_distinct_set_unique [of fst])
  let ?l = "sort_key fst (map (\<lambda>(k, v). (k, f v)) m)"
  let ?r = "map (\<lambda>k. (k, f (the (map_of m k)))) (sort (remdups ks))"
  have fl: "map fst (map (\<lambda>(k, v). (k, f v)) m) = map fst m" by (induction m) auto
  have d: "distinct (map fst m)" using assms(1) by (simp add: map_wf_def)
  show "inj_on fst (set ?l \<union> set ?r)"
    using d by (auto simp: inj_on_def dest: eq_key_imp_eq_value)
  show "sorted (map fst ?l)" by simp
  show "sorted (map fst ?r)" by (simp add: comp_def)
  have "distinct (map fst (map (\<lambda>(k, v). (k, f v)) m))" unfolding fl by (rule d)
  then show "distinct (map fst ?l)"
    by (simp only: distinct_map [of fst] distinct_sort set_sort)
  show "distinct (map fst ?r)" by (simp add: comp_def)
  show "set ?l = set ?r"
    using assms(2) d by (force simp: image_iff)
qed


lemma write_tree: "writeNamespace indent (tree_of items) = group_text indent items"
proof (induction indent items rule: group_text.induct)
  case (1 indent items)
  obtain ch where ch: "tree_of items = Node ch (here items)" "map_wf ch"
    "\<And>h. map_of ch h = (if h \<in> set (heads items) then Some (tree_of (inside h items)) else None)"
    using tree_of_groups by blast
  have keys: "set (map fst ch) = set (heads items)"
    unfolding map_of_keys_set using ch(3) by (auto simp: dom_def)
  have "map (\<lambda>(name, inner). child_text indent name inner)
      (sort_key fst (map (\<lambda>(name, child). (name, writeNamespace (indent + 2) child)) ch)) =
    map (\<lambda>h. child_text indent h (group_text (indent + 2) (inside h items))) (sort (remdups (heads items)))"
    unfolding sorted_pairs [OF ch(2) keys] using ch(3) 1 by simp
  then show ?case by (simp add: ch(1) group_text.simps [of indent items])
qed

section \<open>The order of the bundles does not matter\<close>

definition named_apart :: "(string list \<times> 'y Bundle) list \<Rightarrow> bool" where
  "named_apart items \<longleftrightarrow> inj_on (\<lambda>(p, b). (p, BName b)) (set items)"

lemma named_apart_inside: "named_apart items \<Longrightarrow> named_apart (inside h items)"
  unfolding named_apart_def inside_def inj_on_def
  by (auto simp: neq_Nil_conv) (metis (no_types, lifting) case_prod_conv prod.inject)

lemma group_text_perm:
  "mset items = mset items' \<Longrightarrow> named_apart items \<Longrightarrow> group_text indent items = group_text indent items'"
proof (induction indent items arbitrary: items' rule: group_text.induct)
  case (1 indent items)
  have sets: "set items = set items'" using "1.prems"(1) by (rule mset_eq_setD)
  have "mset (here items) = mset (here items')"
    using "1.prems"(1) by (simp add: here_def)
  moreover have "inj_on BName (set (here items))"
    using "1.prems"(2) by (force simp: named_apart_def here_def inj_on_def)
  ultimately have h: "sort_key BName (here items) = sort_key BName (here items')"
    by (rule sort_key_eq_sort_key)
  have hs: "sort (remdups (heads items)) = sort (remdups (heads items'))"
    by (rule sorted_distinct_set_unique) (simp_all add: heads_def sets)
  have "group_text (indent + 2) (inside k items) = group_text (indent + 2) (inside k items')"
    if "k \<in> set (sort (remdups (heads items)))" for k
  proof (rule "1.IH" [OF that])
    show "mset (inside k items) = mset (inside k items')"
      using "1.prems"(1) by (simp add: inside_def)
  qed (rule named_apart_inside [OF "1.prems"(2)])
  then have "map (\<lambda>k. child_text indent k (group_text (indent + 2) (inside k items))) (sort (remdups (heads items))) =
      map (\<lambda>k. child_text indent k (group_text (indent + 2) (inside k items'))) (sort (remdups (heads items)))"
    by (intro map_cong) auto
  then show ?case unfolding group_text.simps [of indent items] group_text.simps [of indent items'] h
    by (simp only: hs)
qed

definition bundle_items :: "'y Bundle list \<Rightarrow> (string list \<times> 'y Bundle) list" where
  "bundle_items bs = map (\<lambda>b. (ns_parts b, b)) (filter typed_bundle bs)"

lemma namespace_tree_items: "namespace_tree bs = tree_of (bundle_items bs)"
  by (simp add: namespace_tree_def tree_of_def bundle_items_def fold_map comp_def)

lemma GenerateTypes_cong:
  "group_text 4 (bundle_items (bundle_list m)) = group_text 4 (bundle_items (bundle_list m')) \<Longrightarrow>
     GenerateTypes m = GenerateTypes m'"
  by (simp add: GenerateTypes_def namespace_tree_items write_tree)



definition sample_bundle :: "string \<Rightarrow> string \<Rightarrow> unit Bundle" where
  "sample_bundle ns name =
     \<lparr>BType = ''sql'', BNamespace = ns, BName = name, Content = Some ''select 1'', Hash = [],
      BConfig = Some [(''params'', AnyMap [(''id'', AnyMap [(''type'', AnyStr ''int''), (''required'', AnyBool True)])])],
      CreatedAt = zero_moment\<rparr>"


end
