(* ===== verification/Cli_Commands.thy ===== *)
theory Cli_Commands
  imports Cli_Logic Cli_Login Cli_Generator
begin

text \<open>
  The commands that talk to the hub about a project: \<open>stk config\<close>, \<open>stk schema\<close>, \<open>stk secret\<close> and
  \<open>stk sync\<close> (\<open>packages/cli/internal/commands/config.go\<close>, \<open>schema.go\<close>, \<open>secret.go\<close>, \<open>sync.go\<close>).  \<open>w\<close> is the
  file system and \<open>n\<close> the network with the hub behind it.  A command returns what it shows.
\<close>

section \<open>A project\<close>

definition no_project :: go_error where
  "no_project = ErrMsg ''STK_PROJECT_ID is required''"

text \<open>The start of every command: the communicator and the project.\<close>

definition with_project ::
  "'w http_client \<Rightarrow> environ \<Rightarrow> fs \<Rightarrow> 'w \<Rightarrow>
     ('w Communicator \<Rightarrow> string \<Rightarrow> fs \<Rightarrow> 'a res \<times> fs \<times> 'w) \<Rightarrow> 'a res \<times> fs \<times> 'w" where
  "with_project cl env w n k =
     (case NewFromEnv cl env w of (comm, w1) \<Rightarrow>
        let projectID = resolve_project env comm in
        if projectID = [] then (Inl no_project, w1, n) else k comm projectID w1)"

text \<open>A call of the hub with the text its error gets.\<close>

definition hub_call_text :: "string \<Rightarrow> fs \<Rightarrow> 'a res \<times> 'w \<Rightarrow> 'a res \<times> fs \<times> 'w" where
  "hub_call_text failed w out =
     (case out of (Inl e, n') \<Rightarrow> (Inl (ErrWrap failed e), w, n') | (Inr x, n') \<Rightarrow> (Inr x, w, n'))"

section \<open>Configuration\<close>

definition config_names :: "string list" where
  "config_names = [''databases'', ''auth'', ''storage'']"

definition readOptionalFile :: "string \<Rightarrow> fs \<Rightarrow> string res \<times> fs" where
  "readOptionalFile path w =
     (case os_ReadFile path w of
        (Inl e, w') \<Rightarrow> (if e = ErrNotExist then Inr [] else Inl e, w')
      | (Inr data, w') \<Rightarrow> (Inr data, w'))"

fun only_parts :: "string list \<Rightarrow> (string, bool) gomap \<Rightarrow> (string, bool) gomap res" where
  "only_parts [] result = Inr result"
| "only_parts (part # parts) result =
     (let key = trim_space (to_lower part) in
      if key = [] then only_parts parts result
      else if map_of result key = None then
        Inl (ErrFmt ''unknown config type %q (use databases,auth,storage)'' [key])
      else only_parts parts (gm_put key True result))"

definition parseConfigOnly :: "string \<Rightarrow> (string, bool) gomap res" where
  "parseConfigOnly value =
     (if value = [] then Inr (map (\<lambda>k. (k, True)) config_names)
      else only_parts (split_char (CHR '','') value) (map (\<lambda>k. (k, False)) config_names))"

text \<open>One of the three blocks that read a file when it is wanted.\<close>

fun read_configs ::
  "(string, bool) gomap \<Rightarrow> string \<Rightarrow> string list \<Rightarrow> (string, string) gomap \<Rightarrow> fs \<Rightarrow> (string, string) gomap res \<times> fs" where
  "read_configs only dir [] configs w = (Inr configs, w)"
| "read_configs only dir (name # names) configs w =
     (if map_of only name \<noteq> Some True then read_configs only dir names configs w
      else (case readOptionalFile (path_join [dir, name @ ''.yaml'']) w of
              (Inl e, w') \<Rightarrow> (Inl (ErrWrap (''Failed to read '' @ name @ ''.yaml: '') e), w')
            | (Inr data, w') \<Rightarrow>
                read_configs only dir names (if data \<noteq> [] then gm_put name data configs else configs) w'))"

definition config_apply ::
  "'w http_client \<Rightarrow> environ \<Rightarrow> string \<Rightarrow> string \<Rightarrow> fs \<Rightarrow> 'w \<Rightarrow> unit res \<times> fs \<times> 'w" where
  "config_apply cl env rootDir only w n =
     with_project cl env w n (\<lambda>comm projectID w1.
       case parseConfigOnly only of
         Inl e \<Rightarrow> (Inl e, w1, n)
       | Inr onlyMap \<Rightarrow>
           (case read_configs onlyMap (path_join [rootDir, ''config'']) config_names [] w1 of
              (Inl e, w2) \<Rightarrow> (Inl e, w2, n)
            | (Inr configs, w2) \<Rightarrow>
                if configs = [] then (Inr (), w2, n)
                else hub_call_text ''Config apply failed: '' w2 (ApplyConfig comm projectID configs n)))"

definition config_show :: "'w http_client \<Rightarrow> environ \<Rightarrow> fs \<Rightarrow> 'w \<Rightarrow> ProjectConfig res \<times> fs \<times> 'w" where
  "config_show cl env w n =
     with_project cl env w n (\<lambda>comm projectID w1.
       hub_call_text ''Failed to fetch config: '' w1 (GetConfig comm projectID n))"

section \<open>Schemas\<close>

fun load_schemas :: "ScannedFile list \<Rightarrow> (string, string) gomap \<Rightarrow> fs \<Rightarrow> (string, string) gomap res \<times> fs" where
  "load_schemas [] schemas w = (Inr schemas, w)"
| "load_schemas (file # files) schemas w =
     (if path_ext (SPath file) \<noteq> ''.hcl'' then load_schemas files schemas w
      else (case os_ReadFile (SPath file) w of
              (Inl e, w') \<Rightarrow> (Inl e, w')
            | (Inr content, w') \<Rightarrow>
                let name = path_base (SPath file)
                in load_schemas files (gm_put (take (length name - length (path_ext name)) name) content schemas) w'))"

definition loadSchemaFiles :: "string \<Rightarrow> fs \<Rightarrow> (string, string) gomap res \<times> fs" where
  "loadSchemaFiles rootDir w =
     (case ScanSchema (new_scanner rootDir) w of
        (Inl e, w') \<Rightarrow> (Inl e, w')
      | (Inr files, w') \<Rightarrow> load_schemas files [] w')"

text \<open>\<open>input\<close> is the line that was typed.\<close>

definition confirmPrompt :: "string \<Rightarrow> bool" where
  "confirmPrompt input = (trim_space (to_lower input) \<in> {''y'', ''yes''})"

text \<open>Planning starts \<open>schema plan\<close> and \<open>schema apply\<close> alike; \<open>None\<close> is a project without schema files.\<close>

definition plan_schemas ::
  "'w http_client \<Rightarrow> environ \<Rightarrow> string \<Rightarrow> fs \<Rightarrow> 'w \<Rightarrow>
     ('w Communicator \<times> string \<times> PlanResult) option res \<times> fs \<times> 'w" where
  "plan_schemas cl env rootDir w n =
     (case NewFromEnv cl env w of (comm, w1) \<Rightarrow>
        (case loadSchemaFiles rootDir w1 of
           (Inl e, w2) \<Rightarrow> (Inl (ErrWrap ''Failed to load schema files: '' e), w2, n)
         | (Inr schemas, w2) \<Rightarrow>
             if schemas = [] then (Inr None, w2, n)
             else let projectID = resolve_project env comm in
               if projectID = [] then (Inl no_project, w2, n)
               else (case PlanSchema comm projectID schemas n of
                       (Inl e, n') \<Rightarrow> (Inl (ErrWrap ''Schema plan failed: '' e), w2, n')
                     | (Inr plan, n') \<Rightarrow> (Inr (Some (comm, projectID, plan)), w2, n'))))"

definition migration_list :: "PlanResult \<Rightarrow> Migration list" where
  "migration_list plan = (case Migrations plan of None \<Rightarrow> [] | Some ms \<Rightarrow> ms)"

text \<open>The result is the number of migrations that were applied.\<close>

definition schema_apply ::
  "'w http_client \<Rightarrow> environ \<Rightarrow> string \<Rightarrow> bool \<Rightarrow> string \<Rightarrow> fs \<Rightarrow> 'w \<Rightarrow> nat res \<times> fs \<times> 'w" where
  "schema_apply cl env rootDir yes input w n =
     (case plan_schemas cl env rootDir w n of
        (Inl e, w', n') \<Rightarrow> (Inl e, w', n')
      | (Inr None, w', n') \<Rightarrow> (Inr 0, w', n')
      | (Inr (Some (comm, projectID, plan)), w', n') \<Rightarrow>
          if \<not> HasChanges plan \<or> migration_list plan = [] then (Inr 0, w', n')
          else if \<not> yes \<and> \<not> confirmPrompt input then (Inr 0, w', n')
          else (case hub_call_text ''Schema apply failed: '' w' (ApplySchema comm projectID (migration_list plan) n') of
                  (Inl e, w'', n'') \<Rightarrow> (Inl e, w'', n'')
                | (Inr _, w'', n'') \<Rightarrow> (Inr (length (migration_list plan)), w'', n'')))"

definition schema_plan ::
  "'w http_client \<Rightarrow> environ \<Rightarrow> string \<Rightarrow> fs \<Rightarrow> 'w \<Rightarrow> (string \<times> nat) option res \<times> fs \<times> 'w" where
  "schema_plan cl env rootDir w n =
     (case plan_schemas cl env rootDir w n of
        (Inl e, w', n') \<Rightarrow> (Inl e, w', n')
      | (Inr None, w', n') \<Rightarrow> (Inr None, w', n')
      | (Inr (Some (comm, projectID, plan)), w', n') \<Rightarrow>
          (Inr (Some (Summary plan, length (migration_list plan))), w', n'))"

section \<open>Secrets\<close>

definition secret_set :: "'w http_client \<Rightarrow> environ \<Rightarrow> string \<Rightarrow> string \<Rightarrow> fs \<Rightarrow> 'w \<Rightarrow> unit res \<times> fs \<times> 'w" where
  "secret_set cl env key value w n =
     with_project cl env w n (\<lambda>comm projectID w1.
       hub_call_text ''Failed to set secret: '' w1 (SetSecret comm projectID key value n))"

definition secret_list :: "'w http_client \<Rightarrow> environ \<Rightarrow> fs \<Rightarrow> 'w \<Rightarrow> string list option res \<times> fs \<times> 'w" where
  "secret_list cl env w n =
     with_project cl env w n (\<lambda>comm projectID w1.
       hub_call_text ''Failed to list secrets: '' w1 (ListSecrets comm projectID n))"

definition secret_delete :: "'w http_client \<Rightarrow> environ \<Rightarrow> string \<Rightarrow> fs \<Rightarrow> 'w \<Rightarrow> unit res \<times> fs \<times> 'w" where
  "secret_delete cl env key w n =
     with_project cl env w n (\<lambda>comm projectID w1.
       hub_call_text ''Failed to delete secret: '' w1 (DeleteSecret comm projectID key n))"

section \<open>Sync\<close>

record stkConfig =
  StkProjectID :: string
  StkOutput :: string

definition stk_config_decoder :: "stkConfig decoder" where
  "stk_config_decoder =
     decode_struct [(''project_id'', decode_str (\<lambda>x c. c\<lparr>StkProjectID := x\<rparr>)),
       (''codegen'', decode_struct [(''output'', decode_str (\<lambda>x c. c\<lparr>StkOutput := x\<rparr>))])]"

definition resolveCodegenOutput :: "string \<Rightarrow> fs \<Rightarrow> string res \<times> fs" where
  "resolveCodegenOutput rootDir w =
     (let place = (\<lambda>path. if is_abs path then path else path_join [rootDir, path]) in
      case os_ReadFile (path_join [rootDir, ''stk.config.json'']) w of
        (Inl _, w') \<Rightarrow> (Inr (place ''santokit-env.d.ts''), w')
      | (Inr data, w') \<Rightarrow>
          (case json_unmarshal stk_config_decoder data \<lparr>StkProjectID = [], StkOutput = []\<rparr> of
             Inl e \<Rightarrow> (Inl e, w')
           | Inr cfg \<Rightarrow> (Inr (place (if StkOutput cfg \<noteq> [] then StkOutput cfg else ''santokit-env.d.ts'')), w')))"

text \<open>Making the directory and writing a file into it, with the texts of the two errors.\<close>

definition write_into :: "string \<Rightarrow> string \<Rightarrow> string \<Rightarrow> string \<Rightarrow> string \<Rightarrow> fs \<Rightarrow> unit res \<times> fs" where
  "write_into dir path data dir_failed write_failed w =
     (case os_MkdirAll dir w of
        (Inl e, w') \<Rightarrow> (Inl (ErrWrap dir_failed e), w')
      | (Inr _, w') \<Rightarrow>
          (case os_WriteFile path data w' of
             (Inl e, w'') \<Rightarrow> (Inl (ErrWrap write_failed e), w'')
           | (Inr _, w'') \<Rightarrow> (Inr (), w'')))"

text \<open>The manifest is serialised after its directory is made.\<close>

definition save_manifest :: "string \<Rightarrow> json Manifest \<Rightarrow> fs \<Rightarrow> unit res \<times> fs" where
  "save_manifest rootDir manifest w =
     (let cacheDir = path_join [rootDir, ''.santokit''] in
      case os_MkdirAll cacheDir w of
        (Inl e, w') \<Rightarrow> (Inl (ErrWrap ''Failed to create cache dir: '' e), w')
      | (Inr _, w') \<Rightarrow>
          (case manifest_json (\<lambda>j. Inr (json_sorted j)) manifest of
             Inl e \<Rightarrow> (Inl (ErrWrap ''Failed to serialize manifest: '' e), w')
           | Inr j \<Rightarrow>
               (case os_WriteFile (path_join [cacheDir, ''manifest.json'']) (json_indented j) w' of
                  (Inl e, w'') \<Rightarrow> (Inl (ErrWrap ''Failed to write manifest: '' e), w'')
                | (Inr _, w'') \<Rightarrow> (Inr (), w''))))"

definition sync :: "'w http_client \<Rightarrow> environ \<Rightarrow> string \<Rightarrow> fs \<Rightarrow> 'w \<Rightarrow> string res \<times> fs \<times> 'w" where
  "sync cl env rootDir w n =
     with_project cl env w n (\<lambda>comm projectID w1.
       case FetchManifest comm projectID n of
         (Inl e, n') \<Rightarrow> (Inl (ErrWrap ''Failed to fetch manifest: '' e), w1, n')
       | (Inr manifest, n') \<Rightarrow>
           (case save_manifest rootDir manifest w1 of
              (Inl e, w2) \<Rightarrow> (Inl e, w2, n')
            | (Inr _, w2) \<Rightarrow>
                (case resolveCodegenOutput rootDir w2 of
                   (Inl e, w3) \<Rightarrow> (Inl (ErrWrap ''Failed to resolve codegen output: '' e), w3, n')
                 | (Inr typePath, w3) \<Rightarrow>
                     (case write_into (path_dir typePath) typePath (GenerateTypes manifest)
                         ''Failed to create type definition directory: '' ''Failed to write type definition: '' w3 of
                        (Inl e, w4) \<Rightarrow> (Inl e, w4, n')
                      | (Inr _, w4) \<Rightarrow> (Inr typePath, w4, n')))))"


section \<open>What the commands send\<close>

text \<open>A client that keeps the requests it was given.\<close>

definition logged :: "'w http_client \<Rightarrow> ('w \<times> out_request list) http_client" where
  "logged cl =
     \<lparr>new_request = new_request cl,
      client_do = (\<lambda>r (n, log). case client_do cl r n of (x, n') \<Rightarrow> (x, (n', log @ [r])))\<rparr>"

datatype hub_command =
    ConfigApply string | ConfigShow | SchemaApply bool string | SchemaPlan
  | SecretSet string string | SecretList | SecretDelete string | Sync | LogicApply

text \<open>The error of a command, over the arguments that some of them have.\<close>

record 'y cli_run =
  run_env :: environ
  run_dir :: string
  run_yaml :: "'y yaml"
  run_enc :: "'y \<Rightarrow> json res"
  run_order :: "'y entry_order"
  run_clock :: "nat \<Rightarrow> go_moment"

definition outcome :: "'a res \<times> fs \<times> 'w \<Rightarrow> unit res \<times> fs \<times> 'w" where
  "outcome out = (case out of (Inl e, w, n) \<Rightarrow> (Inl e, w, n) | (Inr _, w, n) \<Rightarrow> (Inr (), w, n))"

fun run_hub_command :: "'y cli_run \<Rightarrow> 'w http_client \<Rightarrow> hub_command \<Rightarrow> fs \<Rightarrow> 'w \<Rightarrow> unit res \<times> fs \<times> 'w" where
  "run_hub_command R cl (ConfigApply only) w n = config_apply cl (run_env R) (run_dir R) only w n"
| "run_hub_command R cl ConfigShow w n = outcome (config_show cl (run_env R) w n)"
| "run_hub_command R cl (SchemaApply yes input) w n = outcome (schema_apply cl (run_env R) (run_dir R) yes input w n)"
| "run_hub_command R cl SchemaPlan w n = outcome (schema_plan cl (run_env R) (run_dir R) w n)"
| "run_hub_command R cl (SecretSet key value) w n = secret_set cl (run_env R) key value w n"
| "run_hub_command R cl SecretList w n = outcome (secret_list cl (run_env R) w n)"
| "run_hub_command R cl (SecretDelete key) w n = secret_delete cl (run_env R) key w n"
| "run_hub_command R cl Sync w n = outcome (sync cl (run_env R) (run_dir R) w n)"
| "run_hub_command R cl LogicApply w n =
     logic_apply (run_yaml R) (run_enc R) (run_order R) (run_clock R) cl (run_env R) (run_dir R) w n"

text \<open>A request for the hub of a configuration.\<close>

definition for_hub :: "CommConfig \<Rightarrow> string \<Rightarrow> out_request \<Rightarrow> bool" where
  "for_hub cfg projectID r \<longleftrightarrow>
     (\<exists>path. out_url r = CHubURL cfg @ ''/api/v1/'' @ path) \<and>
     out_headers r = setHeaders cfg @ setProjectHeader projectID"

text \<open>A request that asks for something only.\<close>

definition asks_only :: "CommConfig \<Rightarrow> out_request \<Rightarrow> bool" where
  "asks_only cfg r \<longleftrightarrow>
     out_method r = ''GET'' \<or> (out_method r = ''POST'' \<and> out_url r = CHubURL cfg @ ''/api/v1/schema/plan'')"

fun reads_only :: "hub_command \<Rightarrow> bool" where
  "reads_only (SchemaApply yes input) = (\<not> yes \<and> \<not> confirmPrompt input)"
| "reads_only c = (c \<in> {ConfigShow, SchemaPlan, SecretList, Sync})"

definition sends_ok :: "CommConfig \<Rightarrow> string \<Rightarrow> bool \<Rightarrow> out_request list \<Rightarrow> out_request list \<Rightarrow> bool" where
  "sends_ok cfg p ro log log' \<longleftrightarrow>
     (\<exists>rs. log' = log @ rs \<and> (\<forall>r \<in> set rs. for_hub cfg p r \<and> (ro \<longrightarrow> asks_only cfg r)))"

lemma sends_refl [simp]: "sends_ok cfg p ro log log"
  by (simp add: sends_ok_def)

lemma sends_trans: "sends_ok cfg p ro a b \<Longrightarrow> sends_ok cfg p ro b c \<Longrightarrow> sends_ok cfg p ro a c"
  by (auto simp: sends_ok_def)

lemma exchange_sends:
  assumes "comm_client c = logged cl" and "comm_config c = cfg"
    and "exchange c (hub_request cfg method path p body) failed n = (r, n')"
    and "has_prefix path ''/api/v1/''"
    and "ro \<longrightarrow> method = ''GET'' \<or> (method = ''POST'' \<and> path = ''/api/v1/schema/plan'')"
  shows "sends_ok cfg p ro (snd n) (snd n')"
proof -
  obtain q where q: "path = ''/api/v1/'' @ q" using assms(4) by (auto simp: has_prefix_iff)
  have "for_hub cfg p (hub_request cfg method path p body)"
    by (simp add: for_hub_def hub_request_def q)
  moreover have "ro \<longrightarrow> asks_only cfg (hub_request cfg method path p body)"
    using assms(5) by (auto simp: asks_only_def hub_request_def)
  moreover have "snd n' = snd n \<or> snd n' = snd n @ [hub_request cfg method path p body]"
    using assms(1,3) by (cases n) (auto simp: exchange_def logged_def split: option.splits sum.splits prod.splits)
  ultimately show ?thesis by (auto simp: sends_ok_def)
qed


text \<open>Every call of the communicator sends at most its request; these facts carry the proofs below.\<close>

lemma call_sends:
  assumes "comm_client c = logged cl" and "comm_config c = cfg"
  shows "PushManifest enc c m n = (r1, n') \<Longrightarrow> sends_ok cfg (ProjectID m) False (snd n) (snd n')"
    "PlanSchema c p ss n = (r2, n') \<Longrightarrow> sends_ok cfg p ro (snd n) (snd n')"
    "ApplySchema c p ms n = (r3, n') \<Longrightarrow> sends_ok cfg p False (snd n) (snd n')"
    "ApplyConfig c p ss n = (r3, n') \<Longrightarrow> sends_ok cfg p False (snd n) (snd n')"
    "GetConfig c p n = (r4, n') \<Longrightarrow> sends_ok cfg p ro (snd n) (snd n')"
    "FetchManifest c p n = (r5, n') \<Longrightarrow> sends_ok cfg p ro (snd n) (snd n')"
    "SetSecret c p key value n = (r3, n') \<Longrightarrow> sends_ok cfg p False (snd n) (snd n')"
    "ListSecrets c p n = (r6, n') \<Longrightarrow> sends_ok cfg p ro (snd n) (snd n')"
    "DeleteSecret c p key n = (r3, n') \<Longrightarrow> sends_ok cfg p False (snd n) (snd n')"
  by (auto simp: PushManifest_def PlanSchema_def ApplySchema_def ApplyConfig_def GetConfig_def FetchManifest_def
      SetSecret_def ListSecrets_def DeleteSecret_def assms(2) split: sum.splits prod.splits)
    (erule exchange_sends [OF assms]; simp)+


definition command_config :: "environ \<Rightarrow> fs \<Rightarrow> CommConfig" where
  "command_config env w = comm_config (fst (NewFromEnv \<lparr>new_request = (\<lambda>_ _. None), client_do = (\<lambda>_ n. (Inl ErrIO, n))\<rparr> env w) :: unit Communicator)"

definition command_project :: "environ \<Rightarrow> fs \<Rightarrow> string" where
  "command_project env w =
     (if CProjectID (command_config env w) = [] then env ''STK_PROJECT_ID'' else CProjectID (command_config env w))"

lemma NewFromEnv_parts:
  assumes "NewFromEnv cl env w = (comm, w1)"
  shows "comm_client comm = cl \<and> comm_config comm = command_config env w \<and> resolve_project env comm = command_project env w"
proof -
  have "comm_client comm = cl \<and> comm_config comm = command_config env w"
    using assms by (auto simp: NewFromEnv_def command_config_def Let_def split: prod.splits)
  then show ?thesis by (simp add: command_project_def resolve_project_def)
qed

lemma with_project_cases:
  assumes "with_project cl env w n k = (r, w', n')"
  obtains "n' = n" | comm w1 where "comm_client comm = cl" "comm_config comm = command_config env w"
    "k comm (command_project env w) w1 = (r, w', n')"
  using assms NewFromEnv_parts [of cl env w]
  by (auto simp: with_project_def Let_def split: prod.splits if_splits)

lemma plan_schemas_sends:
  assumes "plan_schemas (logged cl) env root w n = (r, w', n')"
  shows "sends_ok (command_config env w) (command_project env w) ro (snd n) (snd n') \<and>
    (\<forall>comm p plan. r = Inr (Some (comm, p, plan)) \<longrightarrow>
       comm_client comm = logged cl \<and> comm_config comm = command_config env w \<and> p = command_project env w)"
proof (cases "NewFromEnv (logged cl) env w")
  case (Pair comm w1)
  note parts = NewFromEnv_parts [OF Pair]
  show ?thesis using assms parts
    by (auto simp: plan_schemas_def Pair Let_def split: prod.splits sum.splits if_splits
        dest: call_sends(2) [of comm cl "command_config env w"])
qed

lemma schema_apply_sends:
  assumes "schema_apply (logged cl) env root yes input w n = (r, w', n')"
  shows "sends_ok (command_config env w) (command_project env w) (\<not> yes \<and> \<not> confirmPrompt input) (snd n) (snd n')"
proof -
  obtain r1 w1 n1 where fields: "plan_schemas (logged cl) env root w n = (r1, w1, n1)" by (metis prod_cases3)
  note plan = plan_schemas_sends [OF fields, of "\<not> yes \<and> \<not> confirmPrompt input"]
  consider "n' = n1" | comm p plan r2 n2 where "r1 = Inr (Some (comm, p, plan))" "yes \<or> confirmPrompt input"
      "ApplySchema comm p (migration_list plan) n1 = (r2, n2)" "n' = n2"
    using assms
    by (auto simp: schema_apply_def fields hub_call_text_def split: sum.splits option.splits prod.splits if_splits)
  then show ?thesis
  proof cases
    case 1
    with plan show ?thesis by blast
  next
    case (2 comm p plan r2 n2)
    then have "sends_ok (command_config env w) (command_project env w) False (snd n1) (snd n')"
      using plan_schemas_sends [OF fields] call_sends(3) [of comm cl _ p _ n1 r2 n2] by auto
    with plan 2(2) sends_trans show ?thesis by fastforce
  qed
qed

lemma sync_sends:
  assumes "sync (logged cl) env root w n = (r, w', n')"
  shows "sends_ok (command_config env w) (command_project env w) ro (snd n) (snd n')"
  using assms unfolding sync_def
proof (cases rule: with_project_cases)
  case (2 comm w1)
  obtain r1 n1 where f: "FetchManifest comm (command_project env w) n = (r1, n1)" by (metis surj_pair)
  with 2 have "n' = n1" by (auto split: sum.splits prod.splits)
  with call_sends(6) [OF 2(1,2) f] show ?thesis by simp
qed simp

lemma logic_apply_sends:
  assumes "logic_apply yaml enc order clock (logged cl) env root w n = (r, w', n')"
  shows "sends_ok (command_config env w) (command_project env w) False (snd n) (snd n')"
proof (cases "NewFromEnv (logged cl) env w")
  case (Pair comm w1)
  note parts = NewFromEnv_parts [OF Pair]
  then have pid: "ProjectID (CreateManifest (resolve_project env comm) bs a b) = command_project env w" for bs a b
    by (simp add: CreateManifest_def)
  show ?thesis using assms parts
    by (auto simp: logic_apply_def Pair Let_def split: prod.splits sum.splits if_splits
        dest!: call_sends(1) [of comm cl "command_config env w"]) (simp_all add: pid CreateManifest_def)
qed

lemma text_call: "hub_call_text f v call = (s, w', n') \<Longrightarrow> \<exists>s. call = (s, n')"
  by (cases call) (auto simp: hub_call_text_def split: sum.splits)

lemma simple_sends:
  assumes "with_project (logged cl) env w n (\<lambda>comm p w1. hub_call_text f w1 (call comm p n)) = (r, w', n')"
    and "\<And>comm s. comm_client comm = logged cl \<Longrightarrow> comm_config comm = command_config env w \<Longrightarrow>
      call comm (command_project env w) n = (s, n') \<Longrightarrow>
      sends_ok (command_config env w) (command_project env w) ro (snd n) (snd n')"
  shows "sends_ok (command_config env w) (command_project env w) ro (snd n) (snd n')"
  using assms(1)
proof (cases rule: with_project_cases)
  case (2 comm w1)
  from text_call [OF 2(3)] obtain s where "call comm (command_project env w) n = (s, n')" by blast
  from assms(2) [OF 2(1,2) this] show ?thesis .
qed simp

lemma config_apply_sends:
  assumes "config_apply (logged cl) env root only w n = (r, w', n')"
  shows "sends_ok (command_config env w) (command_project env w) False (snd n) (snd n')"
  using assms unfolding config_apply_def
proof (cases rule: with_project_cases)
  case (2 comm w1)
  then consider "n' = n" | configs w2 s where
      "hub_call_text ''Config apply failed: '' w2 (ApplyConfig comm (command_project env w) configs n) = (s, w', n')"
    by (auto split: sum.splits prod.splits if_splits)
  then show ?thesis
  proof cases
    case b: (2 configs w2 s)
    from text_call [OF b] obtain s1 where "ApplyConfig comm (command_project env w) configs n = (s1, n')" by blast
    from call_sends(4) [OF 2(1,2) this] show ?thesis .
  qed simp
qed simp

lemma outcome_call: "outcome out = (r, w', n') \<Longrightarrow> \<exists>s. out = (s, w', n')"
  by (cases out) (auto simp: outcome_def split: sum.splits)

text \<open>The commands by group.\<close>

lemma config_commands_send:
  assumes "run_hub_command R (logged cl) c w n = (r, w', n')" and "c = ConfigShow \<or> (\<exists>only. c = ConfigApply only)"
  shows "sends_ok (command_config (run_env R) w) (command_project (run_env R) w) (reads_only c) (snd n) (snd n')"
  using assms(2)
proof (elim disjE exE)
  fix only assume c: "c = ConfigApply only"
  with assms(1) have "config_apply (logged cl) (run_env R) (run_dir R) only w n = (r, w', n')" by simp
  from config_apply_sends [OF this] c show ?thesis by simp
next
  assume c: "c = ConfigShow"
  with assms(1) obtain s where "config_show (logged cl) (run_env R) w n = (s, w', n')" using outcome_call by fastforce
  note run = this [unfolded config_show_def]
  have ro: "reads_only c = True" by (simp add: c)
  show ?thesis unfolding ro
    by (rule simple_sends [where call = "GetConfig", OF run]) (erule (2) call_sends(5))
qed

lemma schema_commands_send:
  assumes "run_hub_command R (logged cl) c w n = (r, w', n')" and "c = SchemaPlan \<or> (\<exists>yes input. c = SchemaApply yes input)"
  shows "sends_ok (command_config (run_env R) w) (command_project (run_env R) w) (reads_only c) (snd n) (snd n')"
  using assms(2)
proof (elim disjE exE)
  fix yes input assume c: "c = SchemaApply yes input"
  with assms(1) have "outcome (schema_apply (logged cl) (run_env R) (run_dir R) yes input w n) = (r, w', n')" by simp
  from outcome_call [OF this] obtain s where
    "schema_apply (logged cl) (run_env R) (run_dir R) yes input w n = (s, w', n')" by blast
  from schema_apply_sends [OF this] c show ?thesis by simp
next
  assume c: "c = SchemaPlan"
  with assms(1) obtain s where "schema_plan (logged cl) (run_env R) (run_dir R) w n = (s, w', n')" using outcome_call by fastforce
  then obtain s1 where "plan_schemas (logged cl) (run_env R) (run_dir R) w n = (s1, w', n')"
    by (auto simp: schema_plan_def split: prod.splits sum.splits option.splits)
  then show ?thesis using plan_schemas_sends by blast
qed

lemma secret_commands_send:
  assumes "run_hub_command R (logged cl) c w n = (r, w', n')"
    and "c = SecretList \<or> (\<exists>key val. c = SecretSet key val) \<or> (\<exists>key. c = SecretDelete key)"
  shows "sends_ok (command_config (run_env R) w) (command_project (run_env R) w) (reads_only c) (snd n) (snd n')"
  using assms(2)
proof (elim disjE exE)
  fix key val assume c: "c = SecretSet key val"
  with assms(1) have "secret_set (logged cl) (run_env R) key val w n = (r, w', n')" by simp
  note run = this [unfolded secret_set_def]
  have ro: "reads_only c = False" by (simp add: c)
  show ?thesis unfolding ro
    by (rule simple_sends [where call = "\<lambda>c p n. SetSecret c p key val n", OF run]) (erule (2) call_sends(7))
next
  assume c: "c = SecretList"
  with assms(1) obtain s where "secret_list (logged cl) (run_env R) w n = (s, w', n')" using outcome_call by fastforce
  note run = this [unfolded secret_list_def]
  have ro: "reads_only c = True" by (simp add: c)
  show ?thesis unfolding ro
    by (rule simple_sends [where call = "ListSecrets", OF run]) (erule (2) call_sends(8))
next
  fix key assume c: "c = SecretDelete key"
  with assms(1) have "secret_delete (logged cl) (run_env R) key w n = (r, w', n')" by simp
  note run = this [unfolded secret_delete_def]
  have ro: "reads_only c = False" by (simp add: c)
  show ?thesis unfolding ro
    by (rule simple_sends [where call = "\<lambda>c p n. DeleteSecret c p key n", OF run]) (erule (2) call_sends(9))
qed



definition token_env :: environ where
  "token_env x = (if x = ''STK_PROJECT_ID'' then ''p1'' else if x = ''STK_TOKEN'' then ''t1'' else [])"

definition sample_run :: "unit cli_run" where
  "sample_run =
     \<lparr>run_env = token_env, run_dir = ''/p'', run_yaml = (\<lambda>s c. Inr c), run_enc = (\<lambda>_. Inr JNull),
      run_order = id, run_clock = (\<lambda>_. zero_moment)\<rparr>"

lemma token_config:
  "NewFromEnv cl token_env empty_fs =
     (\<lparr>comm_config = \<lparr>CHubURL = ''https://hub.santokit.dev'', CToken = ''t1'', CProjectID = ''p1''\<rparr>, comm_client = cl\<rparr>, empty_fs)"
  by (simp add: NewFromEnv_def Load_def configPath_def token_env_def env_config_def no_profile_def Let_def)


end
