(* ===== verification/Cli_Hub.thy ===== *)
theory Cli_Hub
  imports Hub_Wire Hub_Api_Props Cli_Commands
begin

text \<open>
  The tool and the hub together: the commands of \<open>stk\<close> over the client of \<open>Hub_Wire\<close>, so that every
  request and answer passes through its bytes, the router, the middleware and the handler.
\<close>

section \<open>What the hub gets of a request\<close>

definition sent_raw :: "CommConfig \<Rightarrow> string \<Rightarrow> string \<Rightarrow> string \<Rightarrow> string \<Rightarrow> raw_request" where
  "sent_raw cfg meth path p payload =
     \<lparr>raw_method = meth, raw_path = url_path path, raw_query = url_query path,
      raw_headers = map (\<lambda>(k, v). (k, trim_blank v)) (setHeaders cfg @ setProjectHeader p), raw_body = payload\<rparr>"

text \<open>The value of the \<open>Authorization\<close> header, and the project, as the handlers read them.\<close>

definition auth_sent :: "CommConfig \<Rightarrow> string" where
  "auth_sent cfg = (if CToken cfg = [] then [] else trim_blank (''Bearer '' @ CToken cfg))"

definition project_sent :: "string \<Rightarrow> string" where
  "project_sent p = trim_space (trim_blank p)"

lemma trim_blank_Nil [simp]: "trim_blank [] = []"
  by (simp add: trim_blank_def)

lemma trim_space_Nil: "trim_space [] = []"
  by code_simp

lemma sent_headers:
  "header (to_request (sent_raw cfg meth path p payload) b) ''Authorization'' = auth_sent cfg"
  "project_header (to_request (sent_raw cfg meth path p payload) b) = project_sent p"
  by (auto simp: to_request_def sent_raw_def raw_header_def setHeaders_def setProjectHeader_def auth_sent_def
      project_header_def project_sent_def trim_space_Nil)

lemma to_request_sel [simp]:
  "body (to_request r b) = b" "url_param (to_request r b) k = snd (path_split (raw_path r))"
  by (simp_all add: to_request_def)

lemma sent_raw_sel [simp]:
  "raw_method (sent_raw cfg meth path p payload) = meth" "raw_path (sent_raw cfg meth path p payload) = url_path path"
  "raw_body (sent_raw cfg meth path p payload) = payload"
  by (simp_all add: sent_raw_def)

text \<open>A configuration whose values can be sent.\<close>

definition sendable :: "CommConfig \<Rightarrow> string \<Rightarrow> bool" where
  "sendable cfg p \<longleftrightarrow> list_all header_char (CToken cfg) \<and> list_all header_char p"

lemma sendable_headers:
  assumes "sendable cfg p"
  shows "list_all (\<lambda>(k, v). list_all header_char v) (setHeaders cfg @ setProjectHeader p)"
proof -
  have "list_all header_char ''application/json''" "list_all header_char ''Bearer ''" by code_simp+
  with assms show ?thesis by (auto simp: sendable_def setHeaders_def setProjectHeader_def)
qed

text \<open>The exchange of one request is one call of the hub.\<close>

lemma exchange_hub:
  assumes "comm_client c = hub_client E draw W (CHubURL cfg)" and "comm_config c = cfg"
    and "sendable cfg p" and "has_prefix path ''/''" and "url_ok path" and "list_all path_char (url_path path)"
    and "hub_http E (draw i) W (sent_raw cfg meth path p payload) h = (resp, h')"
  shows "exchange c (hub_request cfg meth path p payload) failed (h, i) = (Inr resp, (h', Suc i))"
proof -
  have "deliver (CHubURL cfg) (hub_request cfg meth path p payload) = Some (sent_raw cfg meth path p payload)"
    using deliver_plain [of "hub_request cfg meth path p payload" "CHubURL cfg" path] assms(4-6) sendable_headers [OF assms(3)]
    by (simp add: hub_request_def sent_raw_def)
  moreover have "new_request (hub_client E draw W (CHubURL cfg)) meth (CHubURL cfg @ path) = None"
    using assms(5) by (simp add: hub_client_def)
  ultimately show ?thesis
    using assms(7) by (simp add: exchange_def assms(1,2) hub_request_def hub_client_def)
qed

section \<open>A tool connected to a hub\<close>

text \<open>The address, token and project of the tool are those of the hub, which lets the token in at every
  call; the operating system raises no errors while the profiles are read.\<close>

definition connected ::
  "('o, 'r, 'w, 'k, 'm, 'c) hub_env \<Rightarrow> (nat \<Rightarrow> call_draws) \<Rightarrow> string \<Rightarrow> environ \<Rightarrow> fs \<Rightarrow> bool" where
  "connected E draw addr env w \<longleftrightarrow>
     fs_faults w = [] \<and> CHubURL (command_config env w) = addr \<and>
     sendable (command_config env w) (command_project env w) \<and> project_sent (command_project env w) \<noteq> [] \<and>
     (\<forall>i. \<exists>u. authenticate (he_environ E) (secret_of E) (cd_auth (draw i)) (auth_sent (command_config env w)) = Inr u)"

lemma NewFromEnv_same:
  assumes "fs_faults w = []"
  shows "\<exists>comm. NewFromEnv cl env w = (comm, w) \<and> comm_client comm = cl \<and> comm_config comm = command_config env w \<and>
    resolve_project env comm = command_project env w"
proof -
  have "snd (Load env w) = w"
    using assms by (auto simp: Load_def os_ReadFile_def os_fault_def split: sum.split option.split prod.split)
  then obtain comm where c: "NewFromEnv cl env w = (comm, w)"
    by (cases "Load env w") (auto simp: NewFromEnv_def Let_def)
  with NewFromEnv_parts [OF c] show ?thesis by blast
qed

lemma with_project_hub:
  assumes "connected E draw addr env w"
  shows "\<exists>comm. with_project cl env w n k = k comm (command_project env w) w \<and> comm_client comm = cl \<and>
    comm_config comm = command_config env w"
proof -
  have "command_project env w \<noteq> []"
    using assms by (auto simp: connected_def project_sent_def trim_space_Nil)
  with NewFromEnv_same [of w cl env] assms show ?thesis
    by (auto simp: connected_def with_project_def)
qed

lemma guarded_sent:
  assumes "connected E draw addr env w"
  shows "\<exists>u. guarded E (draw i) handle h (to_request (sent_raw (command_config env w) meth path p payload) b) =
    handle h (with_user_id u (to_request (sent_raw (command_config env w) meth path p payload) b))"
proof -
  obtain u where "authenticate (he_environ E) (secret_of E) (cd_auth (draw i)) (auth_sent (command_config env w)) = Inr u"
    using assms by (auto simp: connected_def)
  then show ?thesis by (auto simp: guarded_def authMiddleware_def sent_headers)
qed

text \<open>The routes of the calls.\<close>

lemma routed_calls:
  "routed ''POST'' ''/api/v1/secrets'' = Some ''handleSetSecret''"
  "routed ''GET'' ''/api/v1/secrets'' = Some ''handleListSecrets''"
  "routed ''POST'' ''/api/v1/config/apply'' = Some ''handleConfigApply''"
  "routed ''GET'' ''/api/v1/config'' = Some ''handleConfigGet''"
  "routed ''POST'' ''/api/v1/schema/plan'' = Some ''handleSchemaPlan''"
  "routed ''POST'' ''/api/v1/schema/apply'' = Some ''handleSchemaApply''"
  "routed ''POST'' ''/api/v1/manifest'' = Some ''handlePushManifest''"
  "routed ''GET'' ''/api/v1/manifest'' = Some ''handleGetManifest''"
  "routed ''GET'' ''/api/v1/auth/me'' = Some ''handleAuthMe''"
  by code_simp+

lemma plain_paths:
  "list_all path_char ''/api/v1/secrets''" "list_all path_char ''/api/v1/config/apply''" "list_all path_char ''/api/v1/config''"
  "list_all path_char ''/api/v1/schema/plan''" "list_all path_char ''/api/v1/schema/apply''"
  "list_all path_char ''/api/v1/manifest''" "list_all path_char ''/api/v1/auth/me''" "list_all path_char ''/api/v1/secrets/''"
  by code_simp+

lemma routed_delete:
  assumes "key \<noteq> []" and "slash \<notin> set key"
  shows "routed ''DELETE'' (''/api/v1/secrets/'' @ key) = Some ''handleDeleteSecret''"
proof -
  have "split_char slash (''/api/v1/secrets/'' @ key) = [[], ''api'', ''v1'', ''secrets'', key]"
    using split_char_cat [of slash "''/api/v1/secrets''" key] split_char_none [of slash key] assms(2)
    by simp
  then show ?thesis
    using assms(1) by (simp add: routed_def public_routes_def protected_routes_def path_matches_def)
qed

section \<open>Secrets\<close>

lemma secret_field_names:
  "json_fold ''key'' = ''key''" "json_fold ''value'' = ''value''" "json_fold ''project_id'' = ''project_id''"
  by (simp_all add: lower_char_def char_of_eq_iff)

lemma secret_field_keys: "to_valid ''key'' = ''key''" "to_valid ''value'' = ''value''"
  by (rule to_valid_ascii, simp add: ascii_def)+

lemma secret_body:
  "json_decode secret_decoder (json_compact (str_map [(''key'', K), (''value'', V)])) \<lparr>SrProjectID = [], SrKey = [], SrValue = []\<rparr> =
     Inr \<lparr>SrProjectID = [], SrKey = to_valid K, SrValue = to_valid V\<rparr>"
proof -
  have "sorted [''key'', ''value'']" by code_simp
  then have j: "str_map [(''key'', K), (''value'', V)] = JObj [(''key'', JStr K), (''value'', JStr V)]"
    using sort_key_id_if_sorted [of fst "[(''key'', JStr K), (''value'', JStr V)]"] by (simp add: str_map_def sorted_obj_def)
  have d: "json_depth (JObj [(''key'', JStr K), (''value'', JStr V)]) \<le> max_nesting" by (rule nesting_small) simp
  have p: "plain_json (JObj [(''key'', JStr K), (''value'', JStr V)])" by simp
  show ?thesis
    unfolding j decode_sent [OF p d]
    by (simp add: secret_decoder_def decode_struct_def find_field_def secret_field_names secret_field_keys decode_str_def
        del: to_valid.simps json_fold.simps)
qed

lemma decode_keys:
  "json_decode keys_decoder (json_compact (nil_or ks (strs_json ks)) @ [CHR 0x0A]) None =
     Inr (if ks = [] then None else Some (map to_valid ks))"
proof -
  have all: "decode_all (decode_str (\<lambda>x _. x)) [] (map (\<lambda>k. RStr (to_valid k)) xs) = Inr (map to_valid xs)" for xs
    by (induction xs) (simp_all add: decode_str_def)
  have dep: "foldr (max \<circ> json_depth) (map JStr xs) 0 = 0" for xs by (induction xs) simp_all
  show ?thesis
  proof (cases "ks = []")
    case True
    then show ?thesis by (simp add: nil_or_def decode_line keys_decoder_def decode_list_def)
  next
    case False
    have "plain_json (strs_json ks)" by (simp add: strs_json_def list_all_iff)
    moreover have "json_depth (strs_json ks) \<le> max_nesting" by (rule nesting_small) (simp add: strs_json_def dep)
    ultimately show ?thesis using False all [of ks]
      by (simp add: nil_or_def decode_line keys_decoder_def decode_list_def strs_json_def comp_def)
  qed
qed

text \<open>One call, as the hub sees it: the path needs no escaping, and the client reads the answer.\<close>

lemma plain_exchange:
  assumes "connected E draw addr env w" and "comm_client c = hub_client E draw W addr" "comm_config c = command_config env w"
    and "has_prefix path ''/''" and "list_all path_char path"
    and "hub_http E (draw i) W (sent_raw (command_config env w) meth path (command_project env w) payload) h = (resp, h')"
  shows "exchange c (hub_request (command_config env w) meth path (command_project env w) payload) failed (h, i) =
    (Inr resp, (h', Suc i))"
proof (rule exchange_hub [where c = c and E = E and draw = draw and W = W, OF _ assms(3) _ assms(4) _ _ assms(6)])
  show "comm_client c = hub_client E draw W (CHubURL (command_config env w))" "sendable (command_config env w) (command_project env w)"
    using assms(1,2) by (simp_all add: connected_def)
  show "url_ok path" "list_all path_char (url_path path)" using url_parts_plain [OF assms(5)] assms(5) by simp_all
qed

text \<open>A request on a protected route is served by its handler, with the project of the tool and some user.\<close>

lemma guarded_handler:
  assumes "connected E draw addr env w"
  obtains u where "guarded E (draw i) handle h (to_request (sent_raw (command_config env w) meth path (command_project env w) payload) b) =
      handle h (with_user_id u (to_request (sent_raw (command_config env w) meth path (command_project env w) payload) b))"
    and "project_header (with_user_id u (to_request (sent_raw (command_config env w) meth path (command_project env w) payload) b)) =
      project_sent (command_project env w)"
    and "project_sent (command_project env w) \<noteq> []"
proof -
  have "project_sent (command_project env w) \<noteq> []" using assms by (simp add: connected_def)
  moreover obtain u where "guarded E (draw i) handle h
      (to_request (sent_raw (command_config env w) meth path (command_project env w) payload) b) =
    handle h (with_user_id u (to_request (sent_raw (command_config env w) meth path (command_project env w) payload) b))"
    using guarded_sent [OF assms] by metis
  ultimately show thesis by (rule that [rotated 2]) (simp add: sent_headers)
qed

text \<open>One command, as the calls of the hub see it.\<close>

lemma SetSecret_hub:
  assumes con: "connected E draw addr env w" and c: "comm_client c = hub_client E draw W addr" "comm_config c = command_config env w"
    and sim: "dbv.simulates (he_vault E) (hub_db h) M" and key: "new_vault_service key = Inr (he_vault E)"
    and nonce: "cd_nonce (draw i) = Some nonce" "length nonce = 12"
    and kv: "utf8_text K" "utf8_text V" "\<not> blank K" "\<not> blank V"
  shows "\<exists>h'. SetSecret c (command_project env w) K V (h, i) = (Inr (), (h', Suc i)) \<and>
    dbv.simulates (he_vault E) (hub_db h') (M((project_sent (command_project env w), K) \<mapsto> V))"
proof -
  let ?cfg = "command_config env w" and ?p = "command_project env w" and ?q = "\<lparr>SrProjectID = [], SrKey = K, SrValue = V\<rparr>"
  let ?text = "json_compact (str_map [(''key'', K), (''value'', V)])" and ?path = "''/api/v1/secrets''"
  obtain d where d: "vault_Set sql_vault (he_vault E) (cd_nonce (draw i)) (project_sent ?p) K V (hub_db h) = (Inr (), d)"
    and sim': "dbv.simulates (he_vault E) d (M((project_sent ?p, K) \<mapsto> V))"
    using dbv.simulates_set [OF key nonce(2) sim, of "project_sent ?p" K V] nonce(1) by auto
  from guarded_handler [OF con, where i = i and handle = "handleSetSecret E (draw i)" and h = h and meth = "''POST''" and path = ?path
      and payload = ?text and b = "Inr ?q"]
  obtain u where g: "guarded E (draw i) (handleSetSecret E (draw i)) h (to_request (sent_raw ?cfg ''POST'' ?path ?p ?text) (Inr ?q)) =
      handleSetSecret E (draw i) h (with_user_id u (to_request (sent_raw ?cfg ''POST'' ?path ?p ?text) (Inr ?q)))"
    and ps: "project_sent ?p \<noteq> []" by metis
  have url: "url_path ?path = ?path" using url_parts_plain [OF plain_paths(1)] by auto
  have dec: "json_decode secret_decoder ?text \<lparr>SrProjectID = [], SrKey = [], SrValue = []\<rparr> = Inr ?q"
    using secret_body [of K V] kv by (simp add: utf8_text_def)
  have "hub_http E (draw i) W (sent_raw ?cfg ''POST'' ?path ?p ?text) h = ((200, []), h\<lparr>hub_db := d\<rparr>)"
    using ps kv d
    by (simp add: hub_http_def url routed_calls call_of_def dec g handleSetSecret_def with_user_sel sent_headers run_hub_db_def Let_def)
  from plain_exchange [OF con c _ plain_paths(1) this] sim' show ?thesis
    by (intro exI [of _ "h\<lparr>hub_db := d\<rparr>"]) (simp add: SetSecret_def c(2) check_ok_def no_answer_def)
qed

lemma ListSecrets_hub:
  assumes con: "connected E draw addr env w" and c: "comm_client c = hub_client E draw W addr" "comm_config c = command_config env w"
    and sim: "dbv.simulates (he_vault E) (hub_db h) M"
    and keys: "\<And>k. M (project_sent (command_project env w), k) \<noteq> None \<Longrightarrow> utf8_text k"
  shows "\<exists>ks h'. ListSecrets c (command_project env w) (h, i) = (Inr ks, (h', Suc i)) \<and>
    mset (case ks of None \<Rightarrow> [] | Some ks \<Rightarrow> ks) = mset_set {k. M (project_sent (command_project env w), k) \<noteq> None} \<and>
    dbv.simulates (he_vault E) (hub_db h') M"
proof -
  let ?cfg = "command_config env w" and ?p = "command_project env w" and ?path = "''/api/v1/secrets''"
  obtain ks d where l: "vault_List sql_vault (project_sent ?p) (hub_db h) = (Inr ks, d)"
    and ks: "mset ks = mset_set {k. M (project_sent ?p, k) \<noteq> None}" and sim': "dbv.simulates (he_vault E) d M"
    using dbv.simulates_list [OF sim] by blast
  from guarded_handler [OF con, where i = i and handle = handleListSecrets and h = h and meth = "''GET''" and path = ?path
      and payload = "[]" and b = "Inr ()"]
  obtain u where g: "guarded E (draw i) handleListSecrets h (to_request (sent_raw ?cfg ''GET'' ?path ?p []) (Inr ())) =
      handleListSecrets h (with_user_id u (to_request (sent_raw ?cfg ''GET'' ?path ?p []) (Inr ())))"
    and ps: "project_sent ?p \<noteq> []" by metis
  have url: "url_path ?path = ?path" using url_parts_plain [OF plain_paths(1)] by auto
  have "hub_http E (draw i) W (sent_raw ?cfg ''GET'' ?path ?p []) h =
      ((200, json_compact (nil_or ks (strs_json ks)) @ [CHR 0x0A]), h\<lparr>hub_db := d\<rparr>)"
    using ps l
    by (simp add: hub_http_def url routed_calls call_of_def g handleListSecrets_def with_user_sel sent_headers run_hub_db_def Let_def)
  note ex = plain_exchange [OF con c _ plain_paths(1) this]
  have "set_mset (mset ks) \<subseteq> {k. M (project_sent ?p, k) \<noteq> None}"
    unfolding ks by (cases "finite {k. M (project_sent ?p, k) \<noteq> None}") auto
  with keys have "map to_valid ks = ks" by (auto simp: utf8_text_def intro!: map_idI)
  then have "json_decode keys_decoder (json_compact (nil_or ks (strs_json ks)) @ [CHR 0x0A]) None =
      Inr (if ks = [] then None else Some ks)" using decode_keys [of ks] by simp
  with ex sim' show ?thesis unfolding ks [symmetric]
    by (intro exI [of _ "if ks = [] then None else Some ks"] exI [of _ "h\<lparr>hub_db := d\<rparr>"]) (simp add: ListSecrets_def c(2) any_body_def decode_answer_def)
qed

lemma DeleteSecret_hub:
  assumes con: "connected E draw addr env w" and c: "comm_client c = hub_client E draw W addr" "comm_config c = command_config env w"
    and sim: "dbv.simulates (he_vault E) (hub_db h) M"
    and key: "K \<noteq> []" "list_all path_char K" "slash \<notin> set K"
  shows "\<exists>h'. DeleteSecret c (command_project env w) K (h, i) = (Inr (), (h', Suc i)) \<and>
    dbv.simulates (he_vault E) (hub_db h') (M((project_sent (command_project env w), K) := None))"
proof -
  let ?cfg = "command_config env w" and ?p = "command_project env w" 
  define path where "path = ''/api/v1/secrets/'' @ K"
  obtain d where d: "vault_Delete sql_vault (project_sent ?p) K (hub_db h) = (Inr (), d)"
    and sim': "dbv.simulates (he_vault E) d (M((project_sent ?p, K) := None))"
    using dbv.simulates_delete [OF sim] by blast
  have plain: "list_all path_char path" using plain_paths(8) key(2) unfolding path_def by simp
  from guarded_handler [OF con, where i = i and handle = handleDeleteSecret and h = h and meth = "''DELETE''" and path = path
      and payload = "[]" and b = "Inr ()"]
  obtain u where g: "guarded E (draw i) handleDeleteSecret h (to_request (sent_raw ?cfg ''DELETE'' path ?p []) (Inr ())) =
      handleDeleteSecret h (with_user_id u (to_request (sent_raw ?cfg ''DELETE'' path ?p []) (Inr ())))"
    and ps: "project_sent ?p \<noteq> []" by metis
  have url: "url_path path = path" using url_parts_plain [OF plain] by auto
  have base: "snd (path_split path) = K" using path_split_last [of K "''/api/v1/secrets''"] key(3) by (simp add: path_def)
  have route: "routed ''DELETE'' path = Some ''handleDeleteSecret''" using routed_delete [OF key(1,3)] by (simp only: path_def)
  have slash: "has_prefix path ''/''" by (simp add: path_def)
  have "hub_http E (draw i) W (sent_raw ?cfg ''DELETE'' path ?p []) h = ((200, []), h\<lparr>hub_db := d\<rparr>)"
    using ps d base url
    by (simp add: hub_http_def route call_of_def g handleDeleteSecret_def with_user_sel sent_headers
        run_hub_db_def Let_def)
  from plain_exchange [OF con c slash plain this] sim' show ?thesis
    by (intro exI [of _ "h\<lparr>hub_db := d\<rparr>"]) (simp only: DeleteSecret_def c(2) path_def [symmetric], simp add: check_ok_def no_answer_def)
qed

lemma with_project_rule:
  assumes "connected E draw addr env w"
    and "\<And>comm. comm_client comm = cl \<Longrightarrow> comm_config comm = command_config env w \<Longrightarrow>
      Q (k comm (command_project env w) w)"
  shows "Q (with_project cl env w n k)"
  using with_project_hub [OF assms(1), of cl n k] assms(2) by metis

text \<open>A command that calls the hub about the project of the tool, once its call is known.\<close>

lemma hub_command:
  assumes con: "connected E draw addr env w"
    and call: "\<And>comm. comm_client comm = cl \<Longrightarrow> comm_config comm = command_config env w \<Longrightarrow>
      \<exists>x h'. f comm (command_project env w) n = (Inr x, h', i') \<and> P x h'"
  shows "\<exists>x h'. with_project cl env w n (\<lambda>comm projectID w1. hub_call_text failed w1 (f comm projectID n)) =
    (Inr x, w, h', i') \<and> P x h'"
proof -
  obtain comm where run: "with_project cl env w n (\<lambda>comm projectID w1. hub_call_text failed w1 (f comm projectID n)) =
      hub_call_text failed w (f comm (command_project env w) n)"
    and "comm_client comm = cl" "comm_config comm = command_config env w"
    using with_project_hub [OF con, where cl = cl and n = n and k = "\<lambda>comm projectID w1. hub_call_text failed w1 (f comm projectID n)"]
    by metis
  with call obtain x h' where "f comm (command_project env w) n = (Inr x, h', i')" "P x h'" by metis
  with run show ?thesis by (auto simp: hub_call_text_def)
qed

text \<open>The commands about secrets, in a row.\<close>

datatype secret_command = PutSecret string string | ShowSecrets | DropSecret string

fun run_secret ::
  "'w http_client \<Rightarrow> environ \<Rightarrow> secret_command \<Rightarrow> fs \<Rightarrow> 'w \<Rightarrow> string multiset res \<times> fs \<times> 'w" where
  "run_secret cl env (PutSecret K V) w n =
     (case secret_set cl env K V w n of (r, w', n') \<Rightarrow> (case r of Inl e \<Rightarrow> Inl e | Inr _ \<Rightarrow> Inr {#}, w', n'))"
| "run_secret cl env ShowSecrets w n =
     (case secret_list cl env w n of (r, w', n') \<Rightarrow>
        (case r of Inl e \<Rightarrow> Inl e | Inr ks \<Rightarrow> Inr (mset (case ks of None \<Rightarrow> [] | Some ks \<Rightarrow> ks)), w', n'))"
| "run_secret cl env (DropSecret K) w n =
     (case secret_delete cl env K w n of (r, w', n') \<Rightarrow> (case r of Inl e \<Rightarrow> Inl e | Inr _ \<Rightarrow> Inr {#}, w', n'))"

fun run_secrets ::
  "'w http_client \<Rightarrow> environ \<Rightarrow> secret_command list \<Rightarrow> fs \<Rightarrow> 'w \<Rightarrow> string multiset res list \<times> fs \<times> 'w" where
  "run_secrets cl env [] w n = ([], w, n)"
| "run_secrets cl env (c # cs) w n =
     (case run_secret cl env c w n of (r, w', n') \<Rightarrow>
        (case run_secrets cl env cs w' n' of (rs, w'', n'') \<Rightarrow> (r # rs, w'', n'')))"

text \<open>What they mean: the secrets of the project are a map from keys to values.\<close>

fun secret_effect :: "secret_command \<Rightarrow> (string \<rightharpoonup> string) \<Rightarrow> string multiset \<times> (string \<rightharpoonup> string)" where
  "secret_effect (PutSecret K V) m = ({#}, m(K \<mapsto> V))"
| "secret_effect ShowSecrets m = (mset_set (dom m), m)"
| "secret_effect (DropSecret K) m = ({#}, m(K := None))"

fun secret_spec :: "secret_command list \<Rightarrow> (string \<rightharpoonup> string) \<Rightarrow> string multiset res list \<times> (string \<rightharpoonup> string)" where
  "secret_spec [] m = ([], m)"
| "secret_spec (c # cs) m = apfst ((#) (Inr (fst (secret_effect c m)))) (secret_spec cs (snd (secret_effect c m)))"

text \<open>Keys and values that are text, and, for the keys that are deleted, that need no escaping in a path.\<close>

fun secret_command_ok :: "secret_command \<Rightarrow> bool" where
  "secret_command_ok (PutSecret K V) = (utf8_text K \<and> utf8_text V \<and> \<not> blank K \<and> \<not> blank V)"
| "secret_command_ok ShowSecrets = True"
| "secret_command_ok (DropSecret K) = (K \<noteq> [] \<and> list_all path_char K \<and> slash \<notin> set K)"

text \<open>The hub holds a map of the project's secrets, all with keys that are text.\<close>

definition hub_secrets ::
  "('o, 'r, 'w, 'k, 'm, 'c) hub_env \<Rightarrow> string \<Rightarrow> ('r, 'w) hub \<Rightarrow> (string \<rightharpoonup> string) \<Rightarrow> bool" where
  "hub_secrets E p h m \<longleftrightarrow>
     (\<exists>M. dbv.simulates (he_vault E) (hub_db h) M \<and> m = (\<lambda>k. M (p, k)) \<and> (\<forall>k \<in> dom m. utf8_text k))"

lemma hub_secretsI:
  "\<lbrakk>dbv.simulates (he_vault E) (hub_db h) M; m = (\<lambda>k. M (p, k)); \<And>k. m k \<noteq> None \<Longrightarrow> utf8_text k\<rbrakk> \<Longrightarrow> hub_secrets E p h m"
  by (auto simp: hub_secrets_def)

lemma run_secret_step:
  assumes con: "connected E draw addr env w" and key: "new_vault_service key = Inr (he_vault E)"
    and nonce: "\<And>i. \<exists>nonce. cd_nonce (draw i) = Some nonce \<and> length nonce = 12"
    and m: "hub_secrets E (project_sent (command_project env w)) h m" and ok: "secret_command_ok c"
  shows "\<exists>h'. run_secret (hub_client E draw W addr) env c w (h, i) = (Inr (fst (secret_effect c m)), w, (h', Suc i)) \<and>
    hub_secrets E (project_sent (command_project env w)) h' (snd (secret_effect c m))"
proof -
  let ?p = "project_sent (command_project env w)" and ?cl = "hub_client E draw W addr"
  obtain M where sim: "dbv.simulates (he_vault E) (hub_db h) M" and M: "m = (\<lambda>k. M (?p, k))" and u: "\<And>k. m k \<noteq> None \<Longrightarrow> utf8_text k"
    using m by (auto simp: hub_secrets_def)
  show ?thesis
  proof (cases c)
    case (PutSecret K V)
    obtain nonce where n: "cd_nonce (draw i) = Some nonce" "length nonce = 12" using nonce by blast
    have kv: "utf8_text K" "utf8_text V" "\<not> blank K" "\<not> blank V" using ok PutSecret by simp_all
    have "\<exists>x h'. secret_set ?cl env K V w (h, i) = (Inr x, w, (h', Suc i)) \<and>
        dbv.simulates (he_vault E) (hub_db h') (M((?p, K) \<mapsto> V))"
      unfolding secret_set_def using SetSecret_hub [OF con _ _ sim key n kv] by (intro hub_command [OF con]) blast
    then show ?thesis using M u kv(1) PutSecret by (auto intro!: hub_secretsI ext split: if_splits)
  next
    case ShowSecrets
    have "\<exists>ks h'. secret_list ?cl env w (h, i) = (Inr ks, w, (h', Suc i)) \<and>
        mset (case ks of None \<Rightarrow> [] | Some ks \<Rightarrow> ks) = mset_set (dom m) \<and> dbv.simulates (he_vault E) (hub_db h') M"
      unfolding secret_list_def using ListSecrets_hub [OF con _ _ sim] u
      by (intro hub_command [OF con]) (simp add: M dom_def)
    then show ?thesis using M u ShowSecrets by (auto intro!: hub_secretsI)
  next
    case (DropSecret K)
    have kk: "K \<noteq> []" "list_all path_char K" "slash \<notin> set K" using ok DropSecret by simp_all
    have "\<exists>x h'. secret_delete ?cl env K w (h, i) = (Inr x, w, (h', Suc i)) \<and>
        dbv.simulates (he_vault E) (hub_db h') (M((?p, K) := None))"
      unfolding secret_delete_def using DeleteSecret_hub [OF con _ _ sim kk] by (intro hub_command [OF con]) blast
    then show ?thesis using M u DropSecret by (auto intro!: hub_secretsI ext split: if_splits)
  qed
qed

lemma run_secrets_spec:
  assumes "connected E draw addr env w" and "new_vault_service key = Inr (he_vault E)"
    and "\<And>i. \<exists>nonce. cd_nonce (draw i) = Some nonce \<and> length nonce = 12"
  shows "hub_secrets E (project_sent (command_project env w)) h m \<Longrightarrow> list_all secret_command_ok cs \<Longrightarrow>
    \<exists>h'. run_secrets (hub_client E draw W addr) env cs w (h, i) = (fst (secret_spec cs m), w, (h', i + length cs)) \<and>
      hub_secrets E (project_sent (command_project env w)) h' (snd (secret_spec cs m))"
proof (induction cs arbitrary: h i m)
  case (Cons c cs)
  from run_secret_step [OF assms Cons.prems(1), where c = c and i = i and W = W] Cons.prems(2) obtain h1 where
    run: "run_secret (hub_client E draw W addr) env c w (h, i) = (Inr (fst (secret_effect c m)), w, (h1, Suc i))"
    and "hub_secrets E (project_sent (command_project env w)) h1 (snd (secret_effect c m))" by auto
  from Cons.IH [OF this(2), where i = "Suc i"] Cons.prems(2) run show ?case by auto
qed simp

text \<open>
  Property C1.  Secrets over HTTP are a map: with a tool connected to a hub whose database is healthy and
  empty, every sequence of \<open>stk secret set\<close>, \<open>list\<close> and \<open>delete\<close>, each through its request, the router, the
  middleware, the handler, the vault and the table, answers what a plain map from keys to values
  answers, and afterwards the vault opens for every key exactly the value that the map has.  Keys and
  values are text that is not blank, and a key to be deleted needs no escaping in a path.
\<close>
theorem secrets_over_http:
  assumes "connected E draw addr env w" and "new_vault_service key = Inr (he_vault E)"
    and "\<And>i. \<exists>nonce. cd_nonce (draw i) = Some nonce \<and> length nonce = 12"
    and "db_healthy (hub_db h)" and "tables (hub_db h) = empty_tables" and "list_all secret_command_ok cs"
  shows "\<exists>h'. run_secrets (hub_client E draw W addr) env cs w (h, 0) =
      (fst (secret_spec cs Map.empty), w, (h', length cs)) \<and>
    (\<forall>k. fst (vault_Get sql_vault (he_vault E) (project_sent (command_project env w)) k (hub_db h')) =
      (case snd (secret_spec cs Map.empty) k of None \<Rightarrow> Inl ErrSecretNotFound | Some v \<Rightarrow> Inr v))"
proof -
  have "hub_secrets E (project_sent (command_project env w)) h Map.empty"
    using sql_simulates_empty [OF assms(4,5)] by (rule hub_secretsI) simp_all
  from run_secrets_spec [OF assms(1-3) this assms(6), where i = 0 and W = W] show ?thesis
    by (auto simp: hub_secrets_def dbv.simulates_get)
qed

section \<open>A hub in local mode\<close>

definition sample_wire :: wire where
  "sample_wire = \<lparr>err_text = (\<lambda>_. ''error''), time_text = (\<lambda>_. Inr ''2024-01-01T00:00:00Z'')\<rparr>"

lemma sample_communicator:
  "NewFromEnv cl token_env w =
     (\<lparr>comm_config = \<lparr>CHubURL = ''https://hub.santokit.dev'', CToken = ''t1'', CProjectID = ''p1''\<rparr>, comm_client = cl\<rparr>, w)"
  by (simp add: NewFromEnv_def Load_def configPath_def token_env_def env_config_def no_profile_def Let_def)

lemma sample_settings: "CHubURL (command_config token_env w) = ''https://hub.santokit.dev''"
  "CToken (command_config token_env w) = ''t1''" "command_project token_env w = ''p1''"
  by (simp_all add: command_config_def command_project_def sample_communicator)

lemma sample_project_header: "project_sent ''p1'' = ''p1''"
  by code_simp

lemma sample_connected:
  assumes "fs_faults w = []"
  shows "connected (sample_env (\<lambda>_. [])) draw ''https://hub.santokit.dev'' token_env w"
proof -
  have "list_all header_char ''t1''" "list_all header_char ''p1''" by code_simp+
  with assms show ?thesis
    by (simp add: connected_def sendable_def sample_settings sample_project_header authenticate_def auth_disabled_def)
qed

lemma no_faults: "fs_faults empty_fs = []"
  by (simp add: empty_fs_def)

theorem secrets_over_http_witness:
  "\<exists>h'. run_secrets (hub_client (sample_env (\<lambda>_. [])) (\<lambda>_. sample_cd) sample_wire ''https://hub.santokit.dev'') token_env
      [PutSecret ''A'' ''x'', PutSecret ''B'' ''y'', DropSecret ''A'', ShowSecrets] empty_fs (sample_hub [], 0) =
    ([Inr {#}, Inr {#}, Inr {#}, Inr {#''B''#}], empty_fs, (h', 4)) \<and>
    fst (vault_Get sql_vault (he_vault (sample_env (\<lambda>_. []))) ''p1'' ''B'' (hub_db h')) = Inr ''y''"
proof -
  let ?cs = "[PutSecret ''A'' ''x'', PutSecret ''B'' ''y'', DropSecret ''A'', ShowSecrets]"
  have ok: "list_all secret_command_ok ?cs" by code_simp
  have spec: "secret_spec ?cs Map.empty = ([Inr {#}, Inr {#}, Inr {#}, Inr {#''B''#}], [''B'' \<mapsto> ''y''])"
    by (auto simp: fun_eq_iff)
  have h: "db_healthy (hub_db (sample_hub []))" "tables (hub_db (sample_hub [])) = empty_tables"
    "\<And>i :: nat. \<exists>nonce. cd_nonce sample_cd = Some nonce \<and> length nonce = 12" by (simp_all add: db_healthy_def)
  have four: "length ?cs = 4" by simp
  from secrets_over_http [OF sample_connected [OF no_faults] sample_vault h(3,1,2) ok, where W = sample_wire]
  show ?thesis unfolding spec four fst_conv snd_conv sample_settings sample_project_header
    by (elim ex_forward conjE) (simp del: run_secrets.simps)
qed

end
