(* ===== verification/Cli_Hub_Config.thy ===== *)
theory Cli_Hub_Config
  imports Cli_Hub
begin

text \<open>
  Configuration through the tool and the hub: what \<open>stk config apply\<close> makes \<open>stk config show\<close> say.
\<close>

section \<open>The configuration files of a project\<close>

definition config_path :: "string \<Rightarrow> string \<Rightarrow> string" where
  "config_path rootDir name = path_join [path_join [rootDir, ''config''], name @ ''.yaml'']"

definition config_text :: "fs \<Rightarrow> string \<Rightarrow> string \<Rightarrow> string" where
  "config_text w rootDir name =
     (case map_of (fs_files w) (path_key (config_path rootDir name)) of None \<Rightarrow> [] | Some t \<Rightarrow> t)"

text \<open>The texts that are wanted; the others are empty.\<close>

definition wanted_text :: "(string, bool) gomap \<Rightarrow> fs \<Rightarrow> string \<Rightarrow> string \<Rightarrow> string" where
  "wanted_text m w rootDir name = (if map_of m name = Some True then config_text w rootDir name else [])"

definition wanted_config :: "(string, bool) gomap \<Rightarrow> fs \<Rightarrow> string \<Rightarrow> ProjectConfig" where
  "wanted_config m w rootDir =
     \<lparr>ProjectConfig.Databases = wanted_text m w rootDir ''databases'', Auth = wanted_text m w rootDir ''auth'',
      Storage = wanted_text m w rootDir ''storage''\<rparr>"

text \<open>No directory stands where a file is looked for.\<close>

definition config_readable :: "fs \<Rightarrow> string \<Rightarrow> bool" where
  "config_readable w rootDir \<longleftrightarrow>
     list_all (\<lambda>name. fst (readOptionalFile (config_path rootDir name) w) \<noteq> Inl ErrIO) config_names"

lemma read_optional:
  assumes "fs_faults w = []" and "config_readable w rootDir" and "name \<in> set config_names"
  shows "readOptionalFile (config_path rootDir name) w = (Inr (config_text w rootDir name), w)"
proof -
  have "fst (readOptionalFile (config_path rootDir name) w) \<noteq> Inl ErrIO"
    using assms(2,3) by (auto simp: config_readable_def list_all_iff)
  then show ?thesis
    using assms(1) by (auto simp: readOptionalFile_def os_ReadFile_def os_fault_def config_text_def split: option.splits if_splits)
qed

text \<open>What is read, with the names in the order of the code.\<close>

definition text_entry :: "string \<Rightarrow> string \<Rightarrow> (string, string) gomap" where
  "text_entry name t = (if t = [] then [] else [(name, t)])"

lemma read_configs_texts:
  assumes "fs_faults w = []" and "config_readable w rootDir"
  shows "set names \<subseteq> set config_names \<Longrightarrow> distinct names \<Longrightarrow> set names \<inter> fst ` set acc = {} \<Longrightarrow>
    read_configs m (path_join [rootDir, ''config'']) names acc w =
      (Inr (acc @ concat (map (\<lambda>name. text_entry name (wanted_text m w rootDir name)) names)), w)"
proof (induction names arbitrary: acc)
  case (Cons name names)
  have rd: "readOptionalFile (path_join [path_join [rootDir, ''config''], name @ ''.yaml'']) w = (Inr (config_text w rootDir name), w)"
    using read_optional [OF assms] Cons.prems(1) by (simp add: config_path_def)
  have put: "gm_put name t acc = acc @ [(name, t)]" for t
    using Cons.prems(3) by (simp add: gm_put_fresh)
  have acc: "set names \<inter> fst ` set (acc @ text_entry name t) = {}" for t
    using Cons.prems(2,3) by (auto simp: text_entry_def)
  have "read_configs m (path_join [rootDir, ''config'']) (name # names) acc w =
      read_configs m (path_join [rootDir, ''config'']) names (acc @ text_entry name (wanted_text m w rootDir name)) w"
    using rd put by (simp add: wanted_text_def text_entry_def del: path_join.simps)
  also have "\<dots> = (Inr ((acc @ text_entry name (wanted_text m w rootDir name)) @
      concat (map (\<lambda>name. text_entry name (wanted_text m w rootDir name)) names)), w)"
    using Cons.prems(1,2) by (intro Cons.IH acc) auto
  finally show ?case by simp
qed simp

section \<open>What is sent\<close>

lemma config_name_order: "''auth'' \<le> ''databases''" "''auth'' \<le> ''storage''" "''databases'' \<le> ''storage''"
  "\<not> ''databases'' \<le> ''auth''" "\<not> ''storage'' \<le> ''auth''" "\<not> ''storage'' \<le> ''databases''"
  by code_simp+

definition json_entry :: "string \<Rightarrow> string \<Rightarrow> (string \<times> json) list" where
  "json_entry name t = (if t = [] then [] else [(name, JStr t)])"

lemma configs_sorted:
  "str_map (text_entry ''databases'' d @ text_entry ''auth'' a @ text_entry ''storage'' s) =
     JObj (json_entry ''auth'' a @ json_entry ''databases'' d @ json_entry ''storage'' s)"
  using config_name_order
  by (auto simp: str_map_def sorted_obj_def text_entry_def json_entry_def sort_key_def)

lemma config_field_names:
  "json_fold ''configs'' = ''configs''" "json_fold ''databases'' = ''databases''" "json_fold ''auth'' = ''auth''"
  "json_fold ''storage'' = ''storage''" "json_fold ''project_id'' = ''project_id''"
  by (simp_all add: lower_char_def char_of_eq_iff)

lemma config_field_keys: "to_valid ''configs'' = ''configs''" "to_valid ''databases'' = ''databases''"
  "to_valid ''auth'' = ''auth''" "to_valid ''storage'' = ''storage''"
  by (rule to_valid_ascii, simp add: ascii_def)+

lemma config_sent:
  assumes "utf8_text d" "utf8_text a" "utf8_text s"
  shows "json_decode Hub_Wire.config_decoder
      (json_compact (JObj [(''configs'', str_map (text_entry ''databases'' d @ text_entry ''auth'' a @ text_entry ''storage'' s))]))
      \<lparr>CfProjectID = [], CfConfigs = empty_Config\<rparr> =
    Inr \<lparr>CfProjectID = [], CfConfigs = \<lparr>Config.Databases = d, Auth = a, Storage = s\<rparr>\<rparr>"
proof -
  let ?j = "JObj [(''configs'', JObj (json_entry ''auth'' a @ json_entry ''databases'' d @ json_entry ''storage'' s))]"
  have d: "json_depth ?j \<le> max_nesting" by (rule nesting_small) (simp add: json_entry_def)
  have p: "plain_json ?j" by (simp add: json_entry_def)
  show ?thesis
    using assms
    unfolding configs_sorted decode_sent [OF p d]
    by (simp add: Hub_Wire.config_decoder_def decode_struct_def find_field_def config_field_names config_field_keys decode_str_def
        json_entry_def utf8_text_def empty_Config_def del: to_valid.simps json_fold.simps)
qed

lemma config_shown:
  assumes "utf8_text d" "utf8_text a" "utf8_text s"
  shows "json_decode project_config_decoder
      (json_compact (config_value \<lparr>Config.Databases = d, Auth = a, Storage = s\<rparr>) @ [CHR 0x0A]) zero_project_config =
    Inr \<lparr>ProjectConfig.Databases = d, Auth = a, Storage = s\<rparr>"
proof -
  let ?j = "config_value \<lparr>Config.Databases = d, Auth = a, Storage = s\<rparr>"
  have d: "json_depth ?j \<le> max_nesting" by (rule nesting_small) (simp add: config_value_def)
  have p: "plain_json ?j" by (simp add: config_value_def)
  show ?thesis
    using assms
    unfolding decode_line [OF p d]
    by (simp add: config_value_def project_config_decoder_def decode_struct_def find_field_def config_field_names config_field_keys
        decode_str_def zero_project_config_def utf8_text_def del: to_valid.simps json_fold.simps)
qed

section \<open>The calls\<close>

lemma ApplyConfig_hub:
  assumes con: "connected E draw addr env w" and c: "comm_client c = hub_client E draw W addr" "comm_config c = command_config env w"
    and h: "db_healthy (hub_db h)" and utf: "utf8_text d" "utf8_text a" "utf8_text s"
    and some: "\<not> (blank d \<and> blank a \<and> blank s)"
    and configs: "configs = text_entry ''databases'' d @ text_entry ''auth'' a @ text_entry ''storage'' s"
  shows "\<exists>h'. ApplyConfig c (command_project env w) configs (h, i) = (Inr (), (h', Suc i)) \<and>
    db_healthy (hub_db h') \<and>
    config_view (hub_db h') (project_sent (command_project env w)) = Some \<lparr>Config.Databases = d, Auth = a, Storage = s\<rparr>"
proof -
  let ?cfg = "command_config env w" and ?p = "command_project env w" and ?path = "''/api/v1/config/apply''"
  let ?text = "json_compact (JObj [(''configs'', str_map configs)])"
    and ?new = "\<lparr>Config.Databases = d, Auth = a, Storage = s\<rparr>"
  let ?q = "\<lparr>CfProjectID = [], CfConfigs = ?new\<rparr>"
  from guarded_handler [OF con, where i = i and handle = handleConfigApply and h = h and meth = "''POST''" and path = ?path
      and payload = ?text and b = "Inr ?q"]
  obtain u where g: "guarded E (draw i) handleConfigApply h (to_request (sent_raw ?cfg ''POST'' ?path ?p ?text) (Inr ?q)) =
      handleConfigApply h (with_user_id u (to_request (sent_raw ?cfg ''POST'' ?path ?p ?text) (Inr ?q)))"
    and ps: "project_sent ?p \<noteq> []" by metis
  obtain d' where d': "db_cfg_set (project_sent ?p) ?new (hub_db h) = (Inr (), d')" and healthy: "db_healthy d'"
    using dbc.set_healthy [OF h ps] by blast
  have view: "config_view d' (project_sent ?p) = Some ?new"
    using fun_cong [OF dbc.set_ok [OF d'], of "project_sent ?p"] ps by simp
  have url: "url_path ?path = ?path" using url_parts_plain [OF plain_paths(2)] by auto
  have dec: "json_decode Hub_Wire.config_decoder ?text \<lparr>CfProjectID = [], CfConfigs = empty_Config\<rparr> = Inr ?q"
    unfolding configs by (rule config_sent [OF utf])
  have "hub_http E (draw i) W (sent_raw ?cfg ''POST'' ?path ?p ?text) h = ((200, []), h\<lparr>hub_db := d'\<rparr>)"
    using ps some d'
    by (simp add: hub_http_def url routed_calls call_of_def dec g handleConfigApply_def with_user_sel sent_headers run_hub_db_def Let_def)
  from plain_exchange [OF con c _ plain_paths(2) this] healthy view show ?thesis
    by (intro exI [of _ "h\<lparr>hub_db := d'\<rparr>"]) (simp add: ApplyConfig_def c(2) check_ok_def no_answer_def)
qed

lemma GetConfig_hub:
  assumes con: "connected E draw addr env w" and c: "comm_client c = hub_client E draw W addr" "comm_config c = command_config env w"
    and h: "db_healthy (hub_db h)" and utf: "utf8_text d" "utf8_text a" "utf8_text s"
    and view: "config_view (hub_db h) (project_sent (command_project env w)) = Some \<lparr>Config.Databases = d, Auth = a, Storage = s\<rparr>"
  shows "\<exists>h'. GetConfig c (command_project env w) (h, i) =
    (Inr \<lparr>ProjectConfig.Databases = d, Auth = a, Storage = s\<rparr>, (h', Suc i))"
proof -
  let ?cfg = "command_config env w" and ?p = "command_project env w" and ?path = "''/api/v1/config''"
    and ?old = "\<lparr>Config.Databases = d, Auth = a, Storage = s\<rparr>"
  from guarded_handler [OF con, where i = i and handle = handleConfigGet and h = h and meth = "''GET''" and path = ?path
      and payload = "[]" and b = "Inr ()"]
  obtain u where g: "guarded E (draw i) handleConfigGet h (to_request (sent_raw ?cfg ''GET'' ?path ?p []) (Inr ())) =
      handleConfigGet h (with_user_id u (to_request (sent_raw ?cfg ''GET'' ?path ?p []) (Inr ())))"
    and ps: "project_sent ?p \<noteq> []" by metis
  obtain d' where d': "db_cfg_get (project_sent ?p) (hub_db h) = (Inr ?old, d')"
    using dbc.get_healthy [OF h ps] ps view by (cases "db_cfg_get (project_sent ?p) (hub_db h)") simp
  have url: "url_path ?path = ?path" using url_parts_plain [OF plain_paths(3)] by auto
  have "hub_http E (draw i) W (sent_raw ?cfg ''GET'' ?path ?p []) h =
      ((200, json_compact (config_value ?old) @ [CHR 0x0A]), h\<lparr>hub_db := d'\<rparr>)"
    using ps d'
    by (simp add: hub_http_def url routed_calls call_of_def g handleConfigGet_def with_user_sel sent_headers run_hub_db_def Let_def)
  from plain_exchange [OF con c _ plain_paths(3) this] show ?thesis
    by (intro exI [of _ "h\<lparr>hub_db := d'\<rparr>"]) (simp add: GetConfig_def c(2) check_ok_def decode_answer_def config_shown [OF utf])
qed

section \<open>The commands\<close>

text \<open>Something is sent: one of the wanted texts is more than blanks, and all are text.\<close>

definition sendable_texts :: "(string, bool) gomap \<Rightarrow> fs \<Rightarrow> string \<Rightarrow> bool" where
  "sendable_texts m w rootDir \<longleftrightarrow>
     list_all (\<lambda>name. utf8_text (wanted_text m w rootDir name)) config_names \<and>
     list_ex (\<lambda>name. \<not> blank (wanted_text m w rootDir name)) config_names"

text \<open>
  Property C7.  What \<open>stk config apply\<close> sends is what \<open>stk config show\<close> says next: the texts of the wanted
  files, byte for byte, and nothing for the others, whatever the hub held before.  So \<open>--only\<close> erases
  the configurations that it leaves out.
\<close>
theorem config_apply_then_show:
  assumes con: "connected E draw addr env w" and h: "db_healthy (hub_db h)" and rd: "config_readable w rootDir"
    and m: "parseConfigOnly only = Inr m" and ok: "sendable_texts m w rootDir"
  shows "\<exists>h' h''. config_apply (hub_client E draw W addr) env rootDir only w (h, i) = (Inr (), w, (h', Suc i)) \<and>
    config_show (hub_client E draw W addr) env w (h', Suc i) = (Inr (wanted_config m w rootDir), w, (h'', Suc (Suc i)))"
proof -
  let ?d = "wanted_text m w rootDir ''databases''" and ?a = "wanted_text m w rootDir ''auth''" and ?s = "wanted_text m w rootDir ''storage''"
  let ?cl = "hub_client E draw W addr" and ?p = "command_project env w"
  define configs where "configs = text_entry ''databases'' ?d @ text_entry ''auth'' ?a @ text_entry ''storage'' ?s"
  have "fs_faults w = []" using con by (simp add: connected_def)
  from read_configs_texts [OF this rd, of config_names "[]" m]
  have read: "read_configs m (path_join [rootDir, ''config'']) config_names [] w = (Inr configs, w)"
    by (simp add: config_names_def configs_def del: read_configs.simps path_join.simps)
  have u: "utf8_text ?d" "utf8_text ?a" "utf8_text ?s" and some: "\<not> (blank ?d \<and> blank ?a \<and> blank ?s)"
    using ok by (simp_all add: sendable_texts_def config_names_def)
  have ne: "configs \<noteq> []" using some by (auto simp: configs_def text_entry_def blank_def trim_space_Nil)
  have "\<exists>h'. config_apply ?cl env rootDir only w (h, i) = (Inr (), w, (h', Suc i)) \<and> db_healthy (hub_db h') \<and>
      config_view (hub_db h') (project_sent ?p) = Some \<lparr>Config.Databases = ?d, Auth = ?a, Storage = ?s\<rparr>"
    unfolding config_apply_def
  proof (rule with_project_rule [OF con])
    fix comm :: "('b, 'c) hub_net Communicator"
    assume "comm_client comm = ?cl" "comm_config comm = command_config env w"
    from ApplyConfig_hub [OF con this h u some configs_def, where i = i]
    show "\<exists>h'. (case parseConfigOnly only of
         Inl e \<Rightarrow> (Inl e, w, h, i)
       | Inr onlyMap \<Rightarrow>
           (case read_configs onlyMap (path_join [rootDir, ''config'']) config_names [] w of
              (Inl e, w2) \<Rightarrow> (Inl e, w2, h, i)
            | (Inr configs, w2) \<Rightarrow>
                if configs = [] then (Inr (), w2, h, i)
                else hub_call_text ''Config apply failed: '' w2 (ApplyConfig comm ?p configs (h, i)))) =
        (Inr (), w, (h', Suc i)) \<and> db_healthy (hub_db h') \<and>
        config_view (hub_db h') (project_sent ?p) = Some \<lparr>Config.Databases = ?d, Auth = ?a, Storage = ?s\<rparr>"
      unfolding m read sum.case prod.case if_not_P [OF ne] by (auto simp: hub_call_text_def)
  qed
  then obtain h' where ap: "config_apply ?cl env rootDir only w (h, i) = (Inr (), w, (h', Suc i))" and h': "db_healthy (hub_db h')"
    and view: "config_view (hub_db h') (project_sent ?p) = Some \<lparr>Config.Databases = ?d, Auth = ?a, Storage = ?s\<rparr>" by blast
  have "\<exists>x h''. config_show ?cl env w (h', Suc i) = (Inr x, w, (h'', Suc (Suc i))) \<and> x = wanted_config m w rootDir"
    unfolding config_show_def wanted_config_def
    using GetConfig_hub [OF con _ _ h' u view] by (intro hub_command [OF con]) blast
  with ap show ?thesis by blast
qed

definition sample_site :: fs where
  "sample_site = \<lparr>fs_dirs = [], fs_files = [(path_key ''/p/config/auth.yaml'', ''a: 1''), (path_key ''/p/config/storage.yaml'', ''b'')], fs_faults = []\<rparr>"

theorem config_apply_then_show_witness:
  "\<exists>h' h''. config_apply (hub_client (sample_env (\<lambda>_. [])) (\<lambda>_. sample_cd) sample_wire ''https://hub.santokit.dev'') token_env
      ''/p'' ''auth'' sample_site (sample_hub [], 0) = (Inr (), sample_site, (h', 1)) \<and>
    config_show (hub_client (sample_env (\<lambda>_. [])) (\<lambda>_. sample_cd) sample_wire ''https://hub.santokit.dev'') token_env
      sample_site (h', 1) = (Inr \<lparr>ProjectConfig.Databases = [], Auth = ''a: 1'', Storage = []\<rparr>, sample_site, (h'', 2))"
proof -
  have f: "fs_faults sample_site = []" and h: "db_healthy (hub_db (sample_hub []))" by (simp_all add: sample_site_def db_healthy_def)
  let ?m = "[(''databases'', False), (''auth'', True), (''storage'', False)]"
  have m: "parseConfigOnly ''auth'' = Inr ?m" and rd: "config_readable sample_site ''/p''"
    and ok: "sendable_texts ?m sample_site ''/p''"
    and c: "wanted_config ?m sample_site ''/p'' = \<lparr>ProjectConfig.Databases = [], Auth = ''a: 1'', Storage = []\<rparr>"
    by code_simp+
  from config_apply_then_show [OF sample_connected [OF f] h rd m ok, where W = sample_wire and i = 0 and draw = "\<lambda>_. sample_cd"]
  show ?thesis unfolding c One_nat_def [symmetric] Suc_1 .
qed

end
