(* ===== verification/Cli_Hub_Schema.thy ===== *)
theory Cli_Hub_Schema
  imports Cli_Hub
begin

text \<open>
  Schemas through the tool and the hub, for a project without a database URL: \<open>stk schema apply\<close>
  reaches a state in which \<open>stk schema plan\<close> has nothing left to propose.
\<close>

section \<open>What is sent\<close>

definition schemas_ok :: "schemas \<Rightarrow> bool" where
  "schemas_ok S \<longleftrightarrow> S \<noteq> [] \<and> list_all (\<lambda>(k, v). utf8_text k \<and> utf8_text v \<and> \<not> blank k \<and> \<not> blank v) S"

lemma check_schemas_ok: "list_all (\<lambda>(k, v). utf8_text k \<and> utf8_text v \<and> \<not> blank k \<and> \<not> blank v) S \<Longrightarrow> check_schemas S = Inr ()"
  by (induction S rule: check_schemas.induct) (auto simp: Validate_def)

lemma decode_entries_strs:
  "list_all (\<lambda>(k, v). utf8_text k \<and> utf8_text v) S \<Longrightarrow> distinct (map fst (m @ S)) \<Longrightarrow>
    decode_entries (decode_str (\<lambda>x _. x)) [] (map (\<lambda>(k, v). (to_valid k, RStr (to_valid v))) S) m = Inr (m @ S)"
proof (induction S arbitrary: m)
  case (Cons kv S)
  then have "gm_put (fst kv) (snd kv) m = m @ [kv]" by (cases kv) (auto intro!: gm_put_fresh)
  with Cons show ?case by (cases kv) (auto simp: decode_str_def utf8_text_def)
qed simp

lemma schema_field_names:
  "json_fold ''schemas'' = ''schemas''" "json_fold ''project_id'' = ''project_id''" "json_fold ''migrations'' = ''migrations''"
  "json_fold ''has_changes'' = ''has_changes''" "json_fold ''summary'' = ''summary''" "json_fold ''id'' = ''id''"
  "json_fold ''version'' = ''version''" "json_fold ''sql'' = ''sql''" "json_fold ''description'' = ''description''"
  "json_fold ''applied'' = ''applied''"
  by (simp_all add: lower_char_def char_of_eq_iff)

lemma schema_field_keys: "to_valid ''schemas'' = ''schemas''" "to_valid ''project_id'' = ''project_id''"
  "to_valid ''migrations'' = ''migrations''" "to_valid ''has_changes'' = ''has_changes''" "to_valid ''summary'' = ''summary''"
  "to_valid ''id'' = ''id''" "to_valid ''version'' = ''version''" "to_valid ''sql'' = ''sql''"
  "to_valid ''description'' = ''description''" "to_valid ''applied'' = ''applied''"
  by (rule to_valid_ascii, simp add: ascii_def)+

lemmas schema_fields = schema_field_names schema_field_keys

lemma str_map_sorted: "str_map m = JObj (map (\<lambda>(k, v). (k, JStr v)) (sort_key fst m))"
proof -
  have ins: "insort_key fst (k, JStr v) (map (\<lambda>(k, v). (k, JStr v)) m) = map (\<lambda>(k, v). (k, JStr v)) (insort_key fst (k, v) m)"
    for k v and m :: "(string \<times> string) list" by (induction m) auto
  have "sort_key fst (map (\<lambda>(k, v). (k, JStr v)) m) = map (\<lambda>(k, v). (k, JStr v)) (sort_key fst m)"
    by (induction m) (auto simp: ins)
  then show ?thesis by (simp add: str_map_def sorted_obj_def)
qed

lemma flat_depth: "foldr (\<lambda>(k, v). max (json_depth v)) (map (\<lambda>(k, v). (k, JStr (f v))) m) 0 = 0"
  by (induction m) auto

lemma schemas_sent:
  assumes "schemas_ok S" and "map_wf S"
  shows "json_decode Hub_Wire.plan_decoder (json_compact (JObj [(''schemas'', str_map S)])) \<lparr>PlProjectID = [], PlSchemas = []\<rparr> =
    Inr \<lparr>PlProjectID = [], PlSchemas = sort_key fst S\<rparr>"
proof -
  let ?S = "sort_key fst S"
  let ?j = "JObj [(''schemas'', JObj (map (\<lambda>(k, v). (k, JStr v)) ?S))]"
  have d: "json_depth ?j \<le> max_nesting" by (rule nesting_small) (simp add: flat_depth [of "\<lambda>x. x"])
  have p: "plain_json ?j" by (auto simp: list_all_iff)
  have "list_all (\<lambda>(k, v). utf8_text k \<and> utf8_text v) ?S" using assms(1) by (auto simp: schemas_ok_def list_all_iff)
  moreover have "distinct (map fst ([] @ ?S))"
    using assms(2) by (simp add: map_wf_def) (metis distinct_map distinct_sort set_sort)
  ultimately have "decode_entries (decode_str (\<lambda>x _. x)) [] (map (\<lambda>(k, v). (to_valid k, RStr (to_valid v))) ?S) [] = Inr ([] @ ?S)"
    by (rule decode_entries_strs)
  then show ?thesis
    unfolding str_map_sorted decode_sent [OF p d]
    by (simp add: Hub_Wire.plan_decoder_def decode_struct_def find_field_def schema_fields decode_str_map_def case_prod_unfold comp_def
        del: to_valid.simps json_fold.simps)
qed

section \<open>What is answered\<close>

text \<open>A migration of the hub as the tool decodes it, and back.\<close>

definition shown_migration :: "Hub_Schema.Migration \<Rightarrow> Cli_Communicator.Migration" where
  "shown_migration m =
     \<lparr>MigID = to_valid (MgID m), MigProjectID = to_valid (MgProjectID m), MigVersion = to_valid (MgVersion m),
      MigSQL = to_valid (MgSQL m), MigDescription = to_valid (MgDescription m), Applied = MgApplied m\<rparr>"

definition sent_migration :: "Cli_Communicator.Migration \<Rightarrow> Hub_Schema.Migration" where
  "sent_migration m =
     \<lparr>MgID = to_valid (MigID m), MgProjectID = to_valid (MigProjectID m), MgVersion = to_valid (MigVersion m),
      MgSQL = to_valid (MigSQL m), MgDescription = to_valid (MigDescription m), MgApplied = Applied m\<rparr>"

lemma migration_shown:
  "Cli_Communicator.migration_decoder (raw_of (hub_migration_json m)) Cli_Communicator.zero_migration = Inr (shown_migration m)"
  by (simp add: Cli_Communicator.migration_decoder_def Cli_Communicator.zero_migration_def hub_migration_json_def shown_migration_def
      decode_struct_def find_field_def schema_fields decode_str_def decode_bool_def del: to_valid.simps json_fold.simps)

lemma migration_sent:
  "Hub_Wire.migration_decoder (raw_of (migration_json m)) Hub_Wire.zero_migration = Inr (sent_migration m)"
  by (simp add: Hub_Wire.migration_decoder_def Hub_Wire.zero_migration_def migration_json_def sent_migration_def
      decode_struct_def find_field_def schema_fields decode_str_def decode_bool_def del: to_valid.simps json_fold.simps)

lemma array_depth: "(\<And>x. json_depth (f x) \<le> n) \<Longrightarrow> foldr (max \<circ> json_depth) (map f xs) 0 \<le> n"
  by (induction xs) auto

lemma migration_depth: "json_depth (hub_migration_json m) \<le> 1" "json_depth (migration_json m') \<le> 1"
  by (simp_all add: hub_migration_json_def migration_json_def)

lemma plan_shown:
  "json_decode Cli_Communicator.plan_decoder (json_compact (plan_value P) @ [CHR 0x0A]) zero_plan =
    Inr \<lparr>Migrations = (if Hub_Schema.PlanResult.Migrations P = [] then None
        else Some (map shown_migration (Hub_Schema.PlanResult.Migrations P))),
      HasChanges = Hub_Schema.PlanResult.HasChanges P, Summary = to_valid (Hub_Schema.PlanResult.Summary P)\<rparr>"
proof -
  let ?ms = "Hub_Schema.PlanResult.Migrations P"
  have "foldr (max \<circ> json_depth) (map hub_migration_json ?ms) 0 \<le> 1" by (rule array_depth) (rule migration_depth)
  then have d: "json_depth (plan_value P) \<le> max_nesting" by (intro nesting_small) (simp add: plan_value_def nil_or_def)
  have p: "plain_json (plan_value P)" by (simp add: plan_value_def nil_or_def list_all_iff hub_migration_json_def)
  have "decode_all Cli_Communicator.migration_decoder Cli_Communicator.zero_migration (map (raw_of \<circ> hub_migration_json) ?ms) =
      Inr (map shown_migration ?ms)" by (rule decode_all_map) (simp add: migration_shown)
  then show ?thesis
    unfolding decode_line [OF p d]
    by (simp add: plan_value_def nil_or_def Cli_Communicator.plan_decoder_def decode_struct_def find_field_def schema_fields
        decode_list_def decode_str_def decode_bool_def zero_plan_def del: to_valid.simps json_fold.simps)
qed

lemma migrations_sent:
  "json_decode apply_decoder (json_compact (JObj [(''migrations'', JArr (map migration_json ms))])) \<lparr>ApProjectID = [], ApMigrations = []\<rparr> =
    Inr \<lparr>ApProjectID = [], ApMigrations = map sent_migration ms\<rparr>"
proof -
  let ?j = "JObj [(''migrations'', JArr (map migration_json ms))]"
  have "foldr (max \<circ> json_depth) (map migration_json ms) 0 \<le> 1" by (rule array_depth) (rule migration_depth)
  then have d: "json_depth ?j \<le> max_nesting" by (intro nesting_small) simp
  have p: "plain_json ?j" by (simp add: list_all_iff migration_json_def)
  have "decode_all Hub_Wire.migration_decoder Hub_Wire.zero_migration (map (raw_of \<circ> migration_json) ms) =
      Inr (map sent_migration ms)" by (rule decode_all_map) (simp add: migration_sent)
  then show ?thesis
    unfolding decode_sent [OF p d]
    by (simp add: apply_decoder_def decode_struct_def find_field_def schema_fields decode_elems_def decode_list_def
        del: to_valid.simps json_fold.simps)
qed

section \<open>The calls\<close>

text \<open>The hub without a database URL for the project.\<close>

definition hub_local :: "('o, 'r, 'w, 'k, 'm, 'c) hub_env \<Rightarrow> string \<Rightarrow> ('r, 'w) hub \<Rightarrow> bool" where
  "hub_local E p h \<longleftrightarrow> local_mode sql_vault (he_vault E) p (hub_db h)"

definition planned_state :: "string \<Rightarrow> ('r, 'w) hub \<Rightarrow> schemas option" where
  "planned_state p h = map_of (lastPlanned (hub_schema h)) p"

definition schema_state :: "string \<Rightarrow> ('r, 'w) hub \<Rightarrow> schemas option" where
  "schema_state p h = map_of (sch_state (hub_schema h)) p"

lemma PlanSchema_hub:
  assumes con: "connected E draw addr env w" and c: "comm_client c = hub_client E draw W addr" "comm_config c = command_config env w"
    and loc: "hub_local E (project_sent (command_project env w)) h" and S: "schemas_ok S" "map_wf S"
  shows "\<exists>h' plan. PlanSchema c (command_project env w) S (h, i) = (Inr plan, (h', Suc i)) \<and>
    hub_local E (project_sent (command_project env w)) h' \<and>
    schema_state (project_sent (command_project env w)) h' = schema_state (project_sent (command_project env w)) h \<and>
    planned_state (project_sent (command_project env w)) h' = Some (sort_key fst S) \<and>
    length (migration_list plan) =
      length (filter (needs_update (schema_state (project_sent (command_project env w)) h)) (sort_key fst S)) \<and>
    (HasChanges plan \<longleftrightarrow> migration_list plan \<noteq> [])"
proof -
  let ?cfg = "command_config env w" and ?p = "command_project env w" and ?path = "''/api/v1/schema/plan''"
  let ?text = "json_compact (JObj [(''schemas'', str_map S)])" and ?q = "\<lparr>PlProjectID = [], PlSchemas = sort_key fst S\<rparr>"
  let ?pp = "project_sent ?p" and ?S = "sort_key fst S"
  define ms where "ms = mock_changes (cd_plan (draw i)) 0 ?pp (schema_state ?pp h) ?S"
  have len: "length (filter (needs_update (schema_state ?pp h)) ?S) = length ms" by (simp add: ms_def length_mock_changes)
  let ?P = "\<lparr>Hub_Schema.PlanResult.Migrations = ms, HasChanges = 0 < length ms, Summary = planSummary (length ms)\<rparr>"
  let ?h = "h\<lparr>hub_schema := (hub_schema h)\<lparr>lastPlanned := gm_put ?pp ?S (lastPlanned (hub_schema h))\<rparr>\<rparr>"
  from guarded_handler [OF con, where i = i and handle = "handleSchemaPlan E (draw i)" and h = h and meth = "''POST''" and path = ?path
      and payload = ?text and b = "Inr ?q"]
  obtain u where g: "guarded E (draw i) (handleSchemaPlan E (draw i)) h (to_request (sent_raw ?cfg ''POST'' ?path ?p ?text) (Inr ?q)) =
      handleSchemaPlan E (draw i) h (with_user_id u (to_request (sent_raw ?cfg ''POST'' ?path ?p ?text) (Inr ?q)))"
    and ps: "?pp \<noteq> []" by metis
  have wf: "map_wf ?S" using S(2) by (simp add: map_wf_def) (metis distinct_map distinct_sort set_sort)
  have chk: "check_schemas ?S = Inr ()"
    using S(1) by (auto simp: schemas_ok_def list_all_iff intro!: check_schemas_ok)
  have nil: "S \<noteq> []" using S(1) by (simp add: schemas_ok_def)
  then have "set ?S \<noteq> {}" by simp
  then have ne: "?S \<noteq> []" by (metis set_empty)
  have plan: "Plan sql_vault (he_vault E) (he_atlas E) (cd_plan (draw i)) ?pp ?S (hub_schema h, hub_db h, hub_targets h) =
      (Inr ?P, hub_schema ?h, hub_db h, hub_targets h)"
    by (simp add: Plan_local [OF loc [unfolded hub_local_def] ps ne] planMock_def Let_def ms_def schema_state_def copySchemas_same [OF wf])
  have url: "url_path ?path = ?path" using url_parts_plain [OF plain_paths(4)] by auto
  have "hub_http E (draw i) W (sent_raw ?cfg ''POST'' ?path ?p ?text) h = ((200, json_compact (plan_value ?P) @ [CHR 0x0A]), ?h)"
    using ps plan nil
    by (simp add: hub_http_def url routed_calls call_of_def schemas_sent [OF S] g handleSchemaPlan_def with_user_sel sent_headers
        run_schema_def Let_def chk)
  from plain_exchange [OF con c _ plain_paths(4) this] loc show ?thesis
    unfolding len
    by (intro exI [of _ ?h]) (simp add: PlanSchema_def c(2) check_ok_def decode_answer_def plan_shown hub_local_def
        schema_state_def planned_state_def migration_list_def)
qed

lemma ApplySchema_hub:
  assumes con: "connected E draw addr env w" and c: "comm_client c = hub_client E draw W addr" "comm_config c = command_config env w"
    and loc: "hub_local E (project_sent (command_project env w)) h"
    and planned: "planned_state (project_sent (command_project env w)) h = Some S" "map_wf S"
  shows "\<exists>h'. ApplySchema c (command_project env w) ms (h, i) = (Inr (), (h', Suc i)) \<and>
    hub_local E (project_sent (command_project env w)) h' \<and>
    schema_state (project_sent (command_project env w)) h' = Some S"
proof -
  let ?cfg = "command_config env w" and ?p = "command_project env w" and ?path = "''/api/v1/schema/apply''"
  let ?text = "json_compact (JObj [(''migrations'', JArr (map migration_json ms))])"
    and ?q = "\<lparr>ApProjectID = [], ApMigrations = map sent_migration ms\<rparr>" and ?pp = "project_sent ?p"
  let ?sch = "(hub_schema h)\<lparr>sch_state := gm_put ?pp S (sch_state (hub_schema h)), lastPlanned := gm_del ?pp (lastPlanned (hub_schema h))\<rparr>"
  let ?h = "h\<lparr>hub_schema := ?sch\<rparr>"
  from guarded_handler [OF con, where i = i and handle = "handleSchemaApply E (draw i)" and h = h and meth = "''POST''" and path = ?path
      and payload = ?text and b = "Inr ?q"]
  obtain u where g: "guarded E (draw i) (handleSchemaApply E (draw i)) h (to_request (sent_raw ?cfg ''POST'' ?path ?p ?text) (Inr ?q)) =
      handleSchemaApply E (draw i) h (with_user_id u (to_request (sent_raw ?cfg ''POST'' ?path ?p ?text) (Inr ?q)))"
    and ps: "?pp \<noteq> []" by metis
  have ap: "Apply sql_vault (he_vault E) (he_atlas E) (cd_order (draw i)) ?pp (map sent_migration ms) (hub_schema h, hub_db h, hub_targets h) =
      (Inr (), ?sch, hub_db h, hub_targets h)"
    using planned by (simp add: Apply_local [OF loc [unfolded hub_local_def] ps] applyMock_def planned_state_def copySchemas_same)
  have url: "url_path ?path = ?path" using url_parts_plain [OF plain_paths(5)] by auto
  have "hub_http E (draw i) W (sent_raw ?cfg ''POST'' ?path ?p ?text) h = ((200, []), ?h)"
    using ps ap
    by (simp add: hub_http_def url routed_calls call_of_def migrations_sent g handleSchemaApply_def with_user_sel sent_headers
        run_schema_def Let_def)
  from plain_exchange [OF con c _ plain_paths(5) this] loc show ?thesis
    by (intro exI [of _ ?h]) (simp add: ApplySchema_def c(2) check_ok_def no_answer_def hub_local_def schema_state_def)
qed

section \<open>The commands\<close>

lemma load_schemas_wf: "load_schemas files acc w = (Inr S, w') \<Longrightarrow> map_wf acc \<Longrightarrow> map_wf S"
proof (induction files arbitrary: acc w)
  case (Cons f fs)
  show ?case
  proof (cases "path_ext (SPath f) = ''.hcl''")
    case True
    with Cons.prems obtain content w1 where "os_ReadFile (SPath f) w = (Inr content, w1)"
      by (cases "os_ReadFile (SPath f) w") (auto split: sum.splits)
    with Cons.prems True show ?thesis by (auto simp: Let_def intro: Cons.IH [OF _ map_wf_put])
  qed (use Cons in simp)
qed simp

lemma loadSchemaFiles_wf: "loadSchemaFiles rootDir w = (Inr S, w') \<Longrightarrow> map_wf S"
  using load_schemas_wf [where acc = "[]"]
  by (auto simp: loadSchemaFiles_def map_wf_def split: sum.splits prod.splits)

text \<open>The number of files that differ from a state.\<close>

definition changed_files :: "schemas option \<Rightarrow> schemas \<Rightarrow> nat" where
  "changed_files current S = length (filter (needs_update current) S)"

lemma changed_sorted: "length (filter (needs_update current) (sort_key fst S)) = changed_files current S"
  unfolding changed_files_def by (metis mset_filter mset_sort size_mset)

lemma changed_same: "map_wf S \<Longrightarrow> changed_files (Some (sort_key fst S)) S = 0"
proof -
  assume wf: "map_wf S"
  then have "map_wf (sort_key fst S)" by (simp add: map_wf_def) (metis distinct_map distinct_sort set_sort)
  then have "\<not> needs_update (Some (sort_key fst S)) x" if "x \<in> set S" for x
    using that map_wf_pair [of "sort_key fst S" "fst x" "snd x"] by (simp add: needs_update_def schema_at_def)
  then show ?thesis by (simp add: changed_files_def filter_empty_conv)
qed

lemma plan_schemas_hub:
  assumes con: "connected E draw addr env w" and load: "loadSchemaFiles rootDir w = (Inr S, w)"
    and loc: "hub_local E (project_sent (command_project env w)) h" and S: "schemas_ok S"
  shows "\<exists>comm h' plan. plan_schemas (hub_client E draw W addr) env rootDir w (h, i) =
      (Inr (Some (comm, command_project env w, plan)), w, (h', Suc i)) \<and>
    comm_client comm = hub_client E draw W addr \<and> comm_config comm = command_config env w \<and>
    hub_local E (project_sent (command_project env w)) h' \<and>
    schema_state (project_sent (command_project env w)) h' = schema_state (project_sent (command_project env w)) h \<and>
    planned_state (project_sent (command_project env w)) h' = Some (sort_key fst S) \<and>
    length (migration_list plan) = changed_files (schema_state (project_sent (command_project env w)) h) S \<and>
    (HasChanges plan \<longleftrightarrow> migration_list plan \<noteq> [])"
proof -
  have fs: "fs_faults w = []" and p: "command_project env w \<noteq> []"
    using con by (auto simp: connected_def project_sent_def trim_space_Nil)
  obtain comm where n: "NewFromEnv (hub_client E draw W addr) env w = (comm, w)" and c: "comm_client comm = hub_client E draw W addr"
    "comm_config comm = command_config env w" and pr: "resolve_project env comm = command_project env w"
    using NewFromEnv_same [OF fs] by blast
  have "S \<noteq> []" using S by (simp add: schemas_ok_def)
  with PlanSchema_hub [OF con c loc S loadSchemaFiles_wf [OF load], of i] n load p c pr show ?thesis
    unfolding changed_sorted by (auto simp: plan_schemas_def Let_def)
qed


definition sample_tables :: fs where
  "sample_tables = \<lparr>fs_dirs = [[''/'', ''p''], [''/'', ''p'', ''schema'']],
     fs_files = [([''/'', ''p'', ''schema'', ''main.hcl''], ''table'')], fs_faults = []\<rparr>"


end
