(* ===== verification/Cli_Hub_Login.thy ===== *)
theory Cli_Hub_Login
  imports Cli_Hub Cli_Login
begin

text \<open>
  A login with a token that the hub issued: the tool is connected afterwards, and the hub takes its calls
  for those of the user of the token.
\<close>

section \<open>Tokens in headers\<close>

lemma path_char_facts: "path_char c \<Longrightarrow> header_char c \<and> c \<noteq> CHR '' '' \<and> c \<noteq> CHR 0x09"
  by (auto simp: path_char_def header_char_def control_char_def Let_def)

lemma url_encode_plain: "list_all path_char (url_encode s)"
proof -
  have "list_all path_char url_alphabet" by code_simp
  moreover have "c \<in> set url_alphabet" if "c \<in> set (url_encode s)" for c
    using that unfolding url_encode_def by (rule url.enc_chars_raw)
  ultimately show ?thesis by (auto simp: list_all_iff)
qed

lemma issued_token_plain:
  assumes "issueToken s n u m t ttl = Inr (tok, exp)"
  shows "list_all path_char tok" and "tok \<noteq> []"
proof -
  have "path_char dot" by code_simp
  with assms show "list_all path_char tok" and "tok \<noteq> []"
    by (auto simp: issueToken_def signToken_def Let_def url_encode_plain split: if_splits)
qed

lemma plain_header:
  assumes "list_all path_char tok" and "tok \<noteq> []"
  shows "list_all header_char tok" and "trim_blank (''Bearer '' @ tok) = ''Bearer '' @ tok"
proof -
  show "list_all header_char tok" using assms(1) by (auto simp: list_all_iff dest: path_char_facts)
  obtain c r where r: "rev tok = c # r" using assms(2) by (cases "rev tok") auto
  then have "c \<in> set tok" by (metis list.set_intros(1) set_rev)
  then have "c \<noteq> CHR '' ''" "c \<noteq> CHR 0x09" using assms(1) path_char_facts by (auto simp: list_all_iff)
  then show "trim_blank (''Bearer '' @ tok) = ''Bearer '' @ tok"
    by (simp add: trim_blank_def Let_def r) (metis append.assoc append_Cons append_Nil r rev.simps(2) rev_rev_ident)
qed

section \<open>Faults\<close>

lemma no_fault: "fs_faults w = [] \<Longrightarrow> os_fault w = (False, w)"
  by (simp add: os_fault_def)

lemma save_no_faults: "fs_faults w = [] \<Longrightarrow> fs_faults (snd (save_config env cfg w)) = []"
  by (auto simp: save_config_def Save_def os_MkdirAll_def os_WriteFile_def no_fault Let_def split: sum.splits prod.splits if_splits)

lemma load_no_faults: "fs_faults w = [] \<Longrightarrow> snd (Load env w) = w"
  by (auto simp: Load_def os_ReadFile_def no_fault split: sum.split option.split prod.split)

section \<open>Who am I\<close>

lemma me_field_names:
  "json_fold ''id'' = ''id''" "json_fold ''email'' = ''email''" "json_fold ''roles'' = ''roles''" "json_fold ''user_id'' = ''user_id''"
  by (simp_all add: lower_char_def char_of_eq_iff)

lemma me_field_keys: "to_valid ''id'' = ''id''" "to_valid ''email'' = ''email''" "to_valid ''roles'' = ''roles''"
  by (rule to_valid_ascii, simp add: ascii_def)+

text \<open>The tool reads \<open>user_id\<close>, the hub writes \<open>id\<close>: the answer never has a user for the tool.\<close>

lemma user_info_answer:
  assumes "URoles u = []"
  shows "json_decode user_info_decoder (json_compact (user_json u) @ [CHR 0x0A]) \<lparr>UserID = [], Email = []\<rparr> =
    Inr \<lparr>UserID = [], Email = to_valid (UEmail u)\<rparr>"
proof -
  have d: "json_depth (user_json u) \<le> max_nesting" by (rule nesting_small) (simp add: user_json_def strs_json_def assms)
  have p: "plain_json (user_json u)" by (simp add: user_json_def strs_json_def assms)
  have e: "to_valid [] = []" by (rule to_valid_ascii) simp
  show ?thesis
    unfolding decode_line [OF p d]
    by (simp add: user_json_def strs_json_def assms user_info_decoder_def decode_struct_def find_field_def me_field_names me_field_keys
        decode_str_def del: to_valid.simps json_fold.simps) (simp add: e)
qed

lemma getUserInfo_hub:
  assumes tok: "issueToken (secret_of E) t u m k ttl = Inr (tok, exp)" "clock_ok t" and live: "unix (cd_now (draw i)) \<le> unix exp"
  shows "\<exists>email. getUserInfo (hub_client E draw W addr) addr tok (h, i) = (Inr \<lparr>UserID = [], Email = email\<rparr>, (h, Suc i))"
proof -
  let ?path = "''/api/v1/auth/me''" and ?req = "user_info_request addr tok"
  let ?raw = "\<lparr>raw_method = ''GET'', raw_path = ?path, raw_query = [], raw_headers = [(''Authorization'', ''Bearer '' @ tok)], raw_body = []\<rparr>"
  have plain: "list_all path_char tok" "tok \<noteq> []" using issued_token_plain [OF tok(1)] by auto
  have url: "url_path ?path = ?path" "url_query ?path = []" "url_ok ?path" using url_parts_plain [OF plain_paths(7)] by auto
  have "list_all header_char ''Bearer ''" by code_simp
  then have "deliver addr ?req = Some ?raw"
    using deliver_plain [of ?req addr ?path] url plain_paths(7) plain_header [OF plain]
    by (simp add: user_info_request_def)
  moreover obtain ms where ms: "parseTokenPayload tok = Some ms"
    using issued_user(2) [OF tok live] by (auto simp: api_parseUserIDFromToken_def parseUserIDFromToken_def split: option.splits if_splits)
  then obtain em where "handleAuthMe E (draw i) h (to_request ?raw (Inr ())) =
      (h, HttpJson (VUser \<lparr>UID = payload_user ms, UEmail = em, URoles = []\<rparr>))"
    using issued_user(1) [OF tok live]
    by (auto simp: handleAuthMe_def read_bearer_def to_request_def raw_header_def bearer_def)
  then have "hub_http E (draw i) W ?raw h =
      ((200, json_compact (user_json \<lparr>UID = payload_user ms, UEmail = em, URoles = []\<rparr>) @ [CHR 0x0A]), h)"
    by (simp add: hub_http_def routed_calls call_of_def)
  ultimately show ?thesis
    using url user_info_answer [of "\<lparr>UID = payload_user ms, UEmail = em, URoles = []\<rparr>"]
    by (simp add: getUserInfo_def hub_client_def user_info_request_def)
qed

section \<open>After the login\<close>

lemma issued_authenticates:
  assumes tok: "issueToken (secret_of E) t u m k ttl = Inr (tok, exp)" "clock_ok t" and live: "unix now \<le> unix exp"
  shows "authenticate (he_environ E) (secret_of E) now (''Bearer '' @ tok) = Inr (to_valid u)"
proof -
  have "to_valid u \<noteq> []" using issued_exp [OF tok(1)] by (intro to_valid_not_Nil) auto
  with issued_user(2) [OF tok live] show ?thesis by (simp add: authenticate_def bearer_def)
qed

text \<open>
  Property C8.  A login with a token that the hub issued connects the tool: when the profile can be saved,
  \<open>stk login\<close> succeeds, with one request that changes nothing on the hub, and from then on the tool
  talks to that hub with that token, which the hub takes for the user it was issued to at every call
  until it expires, whether or not it checks tokens.  The project has to come from the environment.
\<close>
theorem login_connects:
  assumes tok: "issueToken (secret_of E) t u m k ttl = Inr (tok, exp)" "clock_ok t"
    and live: "\<And>j. unix (cd_auth (draw j)) \<le> unix exp" "unix (cd_now (draw i)) \<le> unix exp"
    and env: "env ''STK_HUB_URL'' = []" "env ''STK_TOKEN'' = []"
    and project: "list_all header_char (env ''STK_PROJECT_ID'')" "project_sent (env ''STK_PROJECT_ID'') \<noteq> []"
    and addr: "addr \<noteq> []" "utf8_text addr"
    and fs: "fs_faults w = []" "fst (Load env w) = Inr cfg" "good_config cfg"
    and sv: "save_config env (cfg\<lparr>Profiles := gm_put ''default'' (login_profile addr tok) (Profiles cfg), Current := ''default''\<rparr>) w =
      (Inr (), w')"
  shows "\<exists>email. login (hub_client E draw W addr) env addr (Callback tok) w (h, i) = (Inr email, w', (h, Suc i)) \<and>
    connected E draw addr env w' \<and>
    (\<forall>j. authenticate (he_environ E) (secret_of E) (cd_auth (draw j)) (auth_sent (command_config env w')) = Inr (to_valid u))"
proof -
  let ?cl = "hub_client E draw W addr"
  have ld: "Load env w = (Inr cfg, w)" using fs(2) load_no_faults [OF fs(1), of env] by (cases "Load env w") simp
  obtain email where "getUserInfo ?cl addr tok (h, i) = (Inr \<lparr>UserID = [], Email = email\<rparr>, (h, Suc i))"
    using getUserInfo_hub [where draw = draw and i = i, OF tok live(2)] by blast
  then have run: "login ?cl env addr (Callback tok) w (h, i) = (Inr email, w', (h, Suc i))"
    using issued_token_plain(2) [OF tok(1)] ld sv by (simp add: login_def login_wait_def callback_handler_def)
  note plain = issued_token_plain [OF tok(1)]
  have "list_all ascii tok" using plain(1) by (auto simp: list_all_iff path_char_def ascii_def Let_def)
  then have utf: "\<And>tk. Callback tok = Callback tk \<Longrightarrow> utf8_text tk" using to_valid_ascii by (simp add: utf8_text_def)
  have f': "fs_faults w' = []" using save_no_faults [OF fs(1)] sv by (metis snd_conv)
  then have "fs_healthy w'" by (simp add: fs_healthy_def)
  from login_starts_session [OF run fs(2,3) addr(2) utf this] env addr(1)
  have cfg: "comm_config (fst (NewFromEnv ?cl env w')) = \<lparr>CHubURL = addr, CToken = tok, CProjectID = env ''STK_PROJECT_ID''\<rparr>"
    by auto
  obtain comm where "NewFromEnv ?cl env w' = (comm, w')" "comm_config comm = command_config env w'"
    using NewFromEnv_same [OF f'] by blast
  with cfg have cc: "command_config env w' = \<lparr>CHubURL = addr, CToken = tok, CProjectID = env ''STK_PROJECT_ID''\<rparr>" by simp
  then have cp: "command_project env w' = env ''STK_PROJECT_ID''" by (simp add: command_project_def)
  have auth: "auth_sent (command_config env w') = ''Bearer '' @ tok"
    using plain_header(2) [OF plain] plain(2) by (simp add: auth_sent_def cc)
  have all: "authenticate (he_environ E) (secret_of E) (cd_auth (draw j)) (auth_sent (command_config env w')) = Inr (to_valid u)" for j
    unfolding auth by (rule issued_authenticates [OF tok]) (rule live(1))
  then have "connected E draw addr env w'"
    using f' cc cp project plain_header(1) [OF plain] by (simp add: connected_def sendable_def)
  with run all show ?thesis by blast
qed

lemma same_home:
  assumes "env ''HOME'' = env' ''HOME''"
  shows "Load env w = Load env' w" and "Save env cfg w = Save env' cfg w"
  using assms by (simp_all add: Load_def Save_def configPath_def)

definition shop_env :: environ where
  "shop_env x = (if x = ''STK_PROJECT_ID'' then ''p1'' else home_env x)"

theorem login_connects_witness:
  "\<exists>tok email w'. login (hub_client (sample_env enforcing_env) (\<lambda>_. sample_cd) sample_wire ''http://h'') shop_env ''http://h'' (Callback tok)
      empty_fs (sample_hub [], 0) = (Inr email, w', (sample_hub [], 1)) \<and>
    connected (sample_env enforcing_env) (\<lambda>_. sample_cd) ''http://h'' shop_env w'"
proof -
  let ?E = "sample_env enforcing_env"
  obtain tok where i: "issueToken (secret_of ?E) 2000 ''ada'' [] ''login'' 5000000000 = Inr (tok, 2000 + sint (5000000000 :: 64 word))"
    using issueToken_eq [OF sample_user(1)] by blast
  have live: "unix (cd_auth sample_cd) \<le> unix (2000 + sint (5000000000 :: 64 word))"
    "unix (cd_now sample_cd) \<le> unix (2000 + sint (5000000000 :: 64 word))" by (simp_all add: unix_def ns_per_s_def)
  have e: "shop_env ''STK_HUB_URL'' = []" "shop_env ''STK_TOKEN'' = []" "shop_env ''STK_PROJECT_ID'' = ''p1''"
    "shop_env ''HOME'' = home_env ''HOME''" by (simp_all add: shop_env_def home_env_def)
  have p: "list_all header_char (shop_env ''STK_PROJECT_ID'')" "project_sent (shop_env ''STK_PROJECT_ID'') \<noteq> []"
    unfolding e by code_simp+
  have "list_all ascii ''http://h''" by (simp add: ascii_def)
  then have u: "utf8_text ''http://h''" unfolding utf8_text_def by (rule to_valid_ascii)
  have l: "fst (Load shop_env empty_fs) = Inr empty_user_config" using same_home(1) [of shop_env home_env, OF e(4)] home_Load by simp
  have g: "good_config empty_user_config"
    using to_valid_ascii [of "[]"] by (simp add: good_config_def empty_user_config_def utf8_text_def)
  obtain w' where "Save shop_env (empty_user_config\<lparr>Profiles := gm_put ''default'' (login_profile ''http://h'' tok)
      (Profiles empty_user_config), Current := ''default''\<rparr>) empty_fs = (Inr (), w')"
    using same_home(2) [of shop_env home_env, OF e(4)] home_Save by metis
  then have sv: "save_config shop_env (empty_user_config\<lparr>Profiles := gm_put ''default'' (login_profile ''http://h'' tok)
      (Profiles empty_user_config), Current := ''default''\<rparr>) empty_fs = (Inr (), w')" by (simp add: save_config_def)
  have a: "''http://h'' \<noteq> []" by simp
  from login_connects [where E = ?E and draw = "\<lambda>_. sample_cd" and i = 0 and h = "sample_hub []" and W = sample_wire,
      OF i sample_clock(1) live e(1,2) p a u no_faults l g sv]
  show ?thesis unfolding One_nat_def by blast
qed

end
