(* ===== verification/Cli_Hub_Bundles.thy ===== *)
theory Cli_Hub_Bundles
  imports Cli_Hub Cli_Generator
begin

text \<open>
  Bundles between the tool and the hub: a bundle written by the tool, read by the hub, stored, written
  by the hub and read by the tool looks the same, and gives the same declarations.
\<close>

section \<open>Values that travel unchanged\<close>

text \<open>No number is among them, whose text is not unique, the strings are text, and keys are in order.\<close>

fun settled :: "json \<Rightarrow> bool" where
  "settled JNull \<longleftrightarrow> True"
| "settled (JBool b) \<longleftrightarrow> True"
| "settled (JNum neg f) \<longleftrightarrow> False"
| "settled (JStr s) \<longleftrightarrow> utf8_text s"
| "settled (JArr vs) \<longleftrightarrow> list_all settled vs"
| "settled (JObj ms) \<longleftrightarrow> list_all (\<lambda>(k, v). utf8_text k \<and> settled v) ms \<and> sorted_wrt (<) (map fst ms)"

lemma settled_members: "settled (JObj ms) \<Longrightarrow> (k, v) \<in> set ms \<Longrightarrow> utf8_text k \<and> settled v"
  by (auto simp: list_all_iff)

lemma settled_order:
  assumes "settled (JObj ms)"
  shows "sorted (map fst ms)" "distinct (map fst ms)"
  using assms strict_sorted_distinct by auto

lemma map_members: "(\<And>k v. (k, v) \<in> set ms \<Longrightarrow> f k v = (k, v)) \<Longrightarrow> map (\<lambda>(k, v). f k v) ms = ms"
  by (rule map_idI) auto

lemma put_all_distinct:
  "distinct (map fst (acc @ ms)) \<Longrightarrow> fold (\<lambda>(k, v). gm_put k v) ms acc = acc @ ms"
proof (induction ms arbitrary: acc)
  case (Cons m ms)
  obtain k v where m: "m = (k, v)" by (cases m)
  have "gm_put k v acc = acc @ [(k, v)]" using Cons.prems by (intro gm_put_fresh) (auto simp: m)
  with Cons m show ?case by simp
qed simp

lemma settled_plain: "settled j \<Longrightarrow> plain_json j"
  by (induction j) (auto simp: list_all_iff)

lemma settled_sort: "settled (JObj ms) \<Longrightarrow> sort_key fst ms = ms"
  using settled_order by (simp add: sort_key_id_if_sorted del: settled.simps)

lemma settled_put: "settled (JObj ms) \<Longrightarrow> fold (\<lambda>(k, v). gm_put k v) ms [] = ms"
  using put_all_distinct [of "[]" ms] settled_order by (simp del: settled.simps)

lemma settled_read: "settled j \<Longrightarrow> raw_value (raw_of j) = Some j"
proof (induction j)
  case (JArr vs)
  then have "map raw_value (map raw_of vs) = map (\<lambda>v. Some (id v)) vs"
    by (auto simp: list_all_iff)
  then show ?case by (simp only: raw_of.simps raw_value.simps those_map_Some) simp
next
  case (JObj ms)
  have "map_option (Pair (to_valid k)) (raw_value (raw_of v)) = Some (k, v)" if "(k, v) \<in> set ms" for k v
    using JObj.IH [OF that] settled_members [OF JObj.prems that] by (auto simp: utf8_text_def)
  then have "map (\<lambda>(k, v). map_option (Pair k) (raw_value v)) (map (\<lambda>(k, v). (to_valid k, raw_of v)) ms) = map (\<lambda>m. Some (id m)) ms"
    by auto
  with settled_put [OF JObj.prems] show ?case by (simp only: raw_of.simps raw_value.simps those_map_Some) simp
qed (simp_all add: utf8_text_def)

lemma settled_sorted: "settled j \<Longrightarrow> json_sorted j = j"
proof (induction j)
  case (JArr vs)
  then show ?case by (auto simp: list_all_iff intro: map_idI)
next
  case (JObj ms)
  have "map (\<lambda>(k, v). (k, json_sorted v)) ms = ms"
    using JObj.IH settled_members [OF JObj.prems] by (intro map_members) auto
  with settled_sort [OF JObj.prems] show ?case by (simp add: sorted_obj_def)
qed simp_all

lemma settled_norm: "settled j \<Longrightarrow> json_norm j = j"
proof (induction j)
  case (JArr vs)
  then show ?case by (auto simp: list_all_iff intro: map_idI)
next
  case (JObj ms)
  have "map (\<lambda>(k, v). (to_valid k, json_norm v)) ms = ms"
    using JObj.IH settled_members [OF JObj.prems] by (intro map_members) (auto simp: utf8_text_def)
  with settled_sort [OF JObj.prems] settled_put [OF JObj.prems] show ?case by simp
qed (simp_all add: utf8_text_def)

lemma settled_any: "settled j \<Longrightarrow> any_json Inr (json_any j) = Inr j"
proof (induction j)
  case (JObj ms)
  have "map (\<lambda>(k, v). case any_json Inr v of Inl e \<Rightarrow> None | Inr j \<Rightarrow> Some (k, j)) (map (\<lambda>(k, v). (k, json_any v)) ms) =
      map (\<lambda>m. Some (id m)) ms"
    using JObj.IH settled_members [OF JObj.prems] by fastforce
  with settled_sort [OF JObj.prems] show ?case
    by (simp only: json_any.simps any_json.simps those_map_Some) (simp add: sorted_obj_def)
qed simp_all

lemma encode_text: "utf8_text (std_encode s)"
proof -
  have "list_all ascii (CHR ''='' # std_alphabet)" by code_simp
  then have "list_all ascii (std_encode s)"
    using std.enc_chars unfolding list_all_iff std_encode_def by fastforce
  then show ?thesis by (simp add: utf8_text_def to_valid_ascii)
qed

section \<open>Bundles\<close>

definition config_of :: "'y Cli_Integrator.Bundle \<Rightarrow> (string, 'y go_any) gomap" where
  "config_of b = (case Cli_Integrator.Bundle.BConfig b of None \<Rightarrow> [] | Some m \<Rightarrow> m)"

text \<open>The configuration of a bundle as it is written.\<close>

definition sent_config :: "('y \<Rightarrow> json res) \<Rightarrow> 'y Cli_Integrator.Bundle \<Rightarrow> (string \<times> json) list" where
  "sent_config enc b = (case any_json enc (AnyMap (config_of b)) of Inr (JObj js) \<Rightarrow> js | _ \<Rightarrow> [])"

text \<open>A bundle that travels unchanged: its time can be written, its strings are text, and so is its
  configuration, which is not too deep.\<close>

definition sendable_bundle :: "('y \<Rightarrow> json res) \<Rightarrow> 'y Cli_Integrator.Bundle \<Rightarrow> bool" where
  "sendable_bundle enc b \<longleftrightarrow>
     is_ok (moment_text (Cli_Integrator.Bundle.CreatedAt b)) \<and>
     list_all utf8_text [Cli_Integrator.Bundle.BType b, BNamespace b, Cli_Integrator.Bundle.BName b, Hash b] \<and>
     (case any_json enc (AnyMap (config_of b)) of Inr j \<Rightarrow> settled j \<and> json_depth j \<le> 90 | Inl _ \<Rightarrow> False)"

text \<open>It as the hub holds it.\<close>

definition hub_bundle :: "('y \<Rightarrow> json res) \<Rightarrow> 'y Cli_Integrator.Bundle \<Rightarrow> Hub_Registry.Bundle" where
  "hub_bundle enc b =
     \<lparr>Hub_Registry.Bundle.BType = Cli_Integrator.Bundle.BType b, Namespace = BNamespace b, Hub_Registry.Bundle.BName = Cli_Integrator.Bundle.BName b,
      BHash = Hash b, Hub_Registry.Bundle.Content = slice_bytes (Cli_Integrator.Bundle.Content b),
      Hub_Registry.Bundle.BConfig = (if config_of b = [] then None else Some (sent_config enc b))\<rparr>"

lemma any_map_Inr:
  assumes "any_json enc (AnyMap ms) = Inr j"
  obtains js where "j = JObj js" and "js = [] \<longleftrightarrow> ms = []"
proof -
  have len: "those xs = Some ys \<Longrightarrow> length ys = length xs" for xs :: "(string \<times> json) option list" and ys
    by (induction xs arbitrary: ys) (auto split: option.splits)
  obtain js where js: "those (map (\<lambda>(k, v). case any_json enc v of Inl e \<Rightarrow> None | Inr j \<Rightarrow> Some (k, j)) ms) = Some js"
    "j = JObj (sort_key fst js)"
    using assms by (auto simp: sorted_obj_def split: option.splits)
  have "length (sort_key fst js) = length ms" using len [OF js(1)] by simp
  then have "sort_key fst js = [] \<longleftrightarrow> ms = []" by (metis length_0_conv)
  with js(2) that show thesis by blast
qed

lemma sendable_bundle_parts:
  assumes "sendable_bundle enc b"
  shows "\<exists>t. moment_text (Cli_Integrator.Bundle.CreatedAt b) = Inr t"
    and "utf8_text (Cli_Integrator.Bundle.BType b)" "utf8_text (BNamespace b)" "utf8_text (Cli_Integrator.Bundle.BName b)" "utf8_text (Hash b)"
    and "any_json enc (AnyMap (config_of b)) = Inr (JObj (sent_config enc b))"
    and "settled (JObj (sent_config enc b))" "json_depth (JObj (sent_config enc b)) \<le> 90"
    and "sent_config enc b = [] \<longleftrightarrow> config_of b = []"
proof -
  obtain j where j: "any_json enc (AnyMap (config_of b)) = Inr j" "settled j" "json_depth j \<le> 90"
    using assms by (auto simp: sendable_bundle_def split: sum.splits)
  from any_map_Inr [OF j(1)] obtain js where js: "j = JObj js" "js = [] \<longleftrightarrow> config_of b = []" by blast
  then have c: "sent_config enc b = js" using j(1) by (simp add: sent_config_def del: any_json.simps)
  show "any_json enc (AnyMap (config_of b)) = Inr (JObj (sent_config enc b))" "settled (JObj (sent_config enc b))"
    "json_depth (JObj (sent_config enc b)) \<le> 90" "sent_config enc b = [] \<longleftrightarrow> config_of b = []"
    using j js unfolding c by simp_all
qed (use assms in \<open>auto simp: sendable_bundle_def is_ok_iff\<close>)

text \<open>The names of the fields.\<close>

lemma bundle_field_names:
  "json_fold ''type'' = ''type''" "json_fold ''namespace'' = ''namespace''" "json_fold ''name'' = ''name''"
  "json_fold ''hash'' = ''hash''" "json_fold ''content'' = ''content''" "json_fold ''config'' = ''config''"
  "json_fold ''created_at'' = ''created_at''" "json_fold ''created_by'' = ''created_by''" "json_fold ''id'' = ''id''"
  "json_fold ''version'' = ''version''" "json_fold ''bundles'' = ''bundles''" "json_fold ''project_id'' = ''project_id''"
  by (simp_all add: lower_char_def char_of_eq_iff)

lemma bundle_field_keys:
  "to_valid ''type'' = ''type''" "to_valid ''namespace'' = ''namespace''" "to_valid ''name'' = ''name''"
  "to_valid ''hash'' = ''hash''" "to_valid ''content'' = ''content''" "to_valid ''config'' = ''config''"
  "to_valid ''created_at'' = ''created_at''" "to_valid ''created_by'' = ''created_by''" "to_valid ''id'' = ''id''"
  "to_valid ''version'' = ''version''" "to_valid ''bundles'' = ''bundles''" "to_valid ''project_id'' = ''project_id''"
  by (rule to_valid_ascii, simp add: ascii_def)+

lemmas field_simps = bundle_field_names bundle_field_keys find_field_def decode_struct_def decode_str_def

lemma bundle_sent:
  assumes "sendable_bundle enc b"
  obtains j where "Cli_Communicator.bundle_json enc b = Inr j" "plain_json j" "json_depth j \<le> 91"
    "Hub_Wire.bundle_decoder (raw_of j) Hub_Wire.zero_bundle = Inr (hub_bundle enc b)"
proof -
  note parts = sendable_bundle_parts [OF assms]
  obtain t where t: "moment_text (Cli_Integrator.Bundle.CreatedAt b) = Inr t" using parts(1) by blast
  let ?cfg = "if config_of b = [] then [] else [(''config'', JObj (sent_config enc b))]"
  let ?j = "JObj ([(''type'', JStr (Cli_Integrator.Bundle.BType b)), (''namespace'', JStr (BNamespace b)), (''name'', JStr (Cli_Integrator.Bundle.BName b)),
       (''content'', case Cli_Integrator.Bundle.Content b of None \<Rightarrow> JNull | Some s \<Rightarrow> JStr (std_encode s)), (''hash'', JStr (Hash b))] @
       ?cfg @ [(''created_at'', JStr t)])"
  have j: "Cli_Communicator.bundle_json enc b = Inr ?j"
    using parts(6) by (simp add: Cli_Communicator.bundle_json_def t config_of_def split: option.splits del: any_json.simps)
  have p: "plain_json ?j" using settled_plain [OF parts(7)] by (simp split: option.split)
  have d: "json_depth ?j \<le> 91" using parts(8) by (simp split: option.split)
  have "Hub_Wire.bundle_decoder (raw_of ?j) Hub_Wire.zero_bundle = Inr (hub_bundle enc b)"
    using parts(2-5) encode_text settled_read [OF parts(7)]
    by (auto simp: field_simps Hub_Wire.bundle_decoder_def Hub_Wire.zero_bundle_def hub_bundle_def decode_bytes_def decode_json_map_def
        utf8_text_def bytes_or_empty_def slice_bytes_def simp del: to_valid.simps json_fold.simps raw_value.simps split: option.splits)
  with j p d that show thesis by blast
qed

text \<open>A bundle of the hub that is written and read back unchanged, and what the tool makes of it.\<close>

definition text_bundle :: "Hub_Registry.Bundle \<Rightarrow> bool" where
  "text_bundle b \<longleftrightarrow>
     list_all utf8_text [Hub_Registry.Bundle.BType b, Namespace b, Hub_Registry.Bundle.BName b, BHash b] \<and>
     (case Hub_Registry.Bundle.BConfig b of None \<Rightarrow> True
      | Some m \<Rightarrow> m \<noteq> [] \<and> settled (JObj m) \<and> json_depth (JObj m) \<le> 90)"

definition fetched_bundle :: "Hub_Registry.Bundle \<Rightarrow> json Cli_Integrator.Bundle" where
  "fetched_bundle b =
     \<lparr>Cli_Integrator.Bundle.BType = Hub_Registry.Bundle.BType b, BNamespace = Namespace b,
      Cli_Integrator.Bundle.BName = Hub_Registry.Bundle.BName b,
      Cli_Integrator.Bundle.Content = (if Hub_Registry.Bundle.Content b = [] then None else Some (Hub_Registry.Bundle.Content b)),
      Hash = BHash b,
      Cli_Integrator.Bundle.BConfig = map_option (map (\<lambda>(k, j). (k, json_any j))) (Hub_Registry.Bundle.BConfig b),
      Cli_Integrator.Bundle.CreatedAt = zero_moment\<rparr>"

lemma hub_bundle_text: "sendable_bundle enc b \<Longrightarrow> text_bundle (hub_bundle enc b)"
  using sendable_bundle_parts [of enc b] by (simp add: text_bundle_def hub_bundle_def del: settled.simps json_depth.simps)

lemma text_bundle_stored: "text_bundle b \<Longrightarrow> norm_bundle b = b"
  using settled_norm [of "JObj m" for m]
  by (auto simp: text_bundle_def norm_bundle_def norm_config_def utf8_text_def simp del: settled.simps json_norm.simps
      split: option.splits)

lemma bundle_answered:
  assumes "text_bundle b"
  shows "plain_json (hub_bundle_json b)" "json_depth (hub_bundle_json b) \<le> 91"
    and "Cli_Communicator.bundle_decoder (raw_of (hub_bundle_json b)) Cli_Communicator.zero_bundle = Inr (fetched_bundle b)"
proof -
  have cfg: "json_sorted (JObj m) = JObj m \<and> plain_json (JObj m) \<and> raw_value (raw_of (JObj m)) = Some (JObj m) \<and>
      json_depth (JObj m) \<le> 90 \<and> m \<noteq> []" if "Hub_Registry.Bundle.BConfig b = Some m" for m
    using assms that settled_sorted [of "JObj m"] settled_plain [of "JObj m"] settled_read [of "JObj m"]
    by (simp add: text_bundle_def del: settled.simps json_sorted.simps plain_json.simps json_depth.simps raw_of.simps)
  show "plain_json (hub_bundle_json b)" "json_depth (hub_bundle_json b) \<le> 91"
    using cfg by (auto simp: hub_bundle_json_def nil_or_def simp del: json_sorted.simps split: option.split)
  have t: "utf8_text (Hub_Registry.Bundle.BType b)" "utf8_text (Namespace b)" "utf8_text (Hub_Registry.Bundle.BName b)" "utf8_text (BHash b)"
    using assms by (simp_all add: text_bundle_def)
  show "Cli_Communicator.bundle_decoder (raw_of (hub_bundle_json b)) Cli_Communicator.zero_bundle = Inr (fetched_bundle b)"
    using t cfg encode_text [of "Hub_Registry.Bundle.Content b"]
    by (cases "Hub_Registry.Bundle.BConfig b")
      (auto simp: field_simps hub_bundle_json_def Cli_Communicator.bundle_decoder_def Cli_Communicator.zero_bundle_def
        fetched_bundle_def decode_bytes_def decode_any_map_def utf8_text_def nil_or_def
        simp del: to_valid.simps json_fold.simps raw_value.simps json_sorted.simps)
qed

section \<open>Manifests\<close>

lemma depth_all: "(\<And>x. x \<in> set xs \<Longrightarrow> f x \<le> n) \<Longrightarrow> foldr (max \<circ> f) xs 0 \<le> (n :: nat)"
  by (induction xs) auto

lemma those_all: "(\<And>x. x \<in> set xs \<Longrightarrow> f x = Some (g x)) \<Longrightarrow> those (map f xs) = Some (map g xs)"
  by (induction xs) simp_all

definition sendable_manifest :: "('y \<Rightarrow> json res) \<Rightarrow> 'y Cli_Integrator.Manifest \<Rightarrow> bool" where
  "sendable_manifest enc m \<longleftrightarrow> is_ok (moment_text (MCreatedAt m)) \<and> list_all (sendable_bundle enc) (bundle_list m)"

lemma manifest_sent:
  assumes "sendable_manifest enc m"
  obtains j p where "manifest_json enc m = Inr j"
    "json_decode Hub_Wire.manifest_decoder (json_compact j) \<lparr>MfProjectID = [], MfBundles = []\<rparr> =
      Inr \<lparr>MfProjectID = p, MfBundles = map (hub_bundle enc) (bundle_list m)\<rparr>"
proof -
  have "\<exists>j. Cli_Communicator.bundle_json enc b = Inr j \<and> plain_json j \<and> json_depth j \<le> 91 \<and>
      Hub_Wire.bundle_decoder (raw_of j) Hub_Wire.zero_bundle = Inr (hub_bundle enc b)" if "b \<in> set (bundle_list m)" for b
    using bundle_sent [of enc b] assms that by (auto simp: sendable_manifest_def list_all_iff)
  then obtain g where g: "Cli_Communicator.bundle_json enc b = Inr (g b) \<and> plain_json (g b) \<and> json_depth (g b) \<le> 91 \<and>
      Hub_Wire.bundle_decoder (raw_of (g b)) Hub_Wire.zero_bundle = Inr (hub_bundle enc b)" if "b \<in> set (bundle_list m)" for b
    by metis
  obtain t where t: "moment_text (MCreatedAt m) = Inr t" using assms by (auto simp: sendable_manifest_def is_ok_iff)
  let ?bs = "map g (bundle_list m)"
  let ?j = "JObj [(''version'', JStr (Cli_Integrator.Manifest.Version m)), (''project_id'', JStr (ProjectID m)),
     (''bundles'', case Cli_Integrator.Manifest.Bundles m of None \<Rightarrow> JNull | Some _ \<Rightarrow> JArr ?bs), (''created_at'', JStr t)]"
  have "those (map (\<lambda>b. case Cli_Communicator.bundle_json enc b of Inl e \<Rightarrow> None | Inr j \<Rightarrow> Some j) (bundle_list m)) = Some ?bs"
    using g by (intro those_all) simp
  then have j: "manifest_json enc m = Inr ?j" by (simp add: manifest_json_def t)
  have p: "plain_json ?j" using g by (simp add: list_all_iff split: option.split)
  have "foldr (max \<circ> json_depth) ?bs 0 \<le> 91" using g by (intro depth_all) auto
  then have d: "json_depth ?j \<le> max_nesting" by (intro nesting_small) (simp split: option.split)
  have "decode_all Hub_Wire.bundle_decoder Hub_Wire.zero_bundle (map (raw_of \<circ> g) (bundle_list m)) =
      Inr (map (hub_bundle enc) (bundle_list m))"
    using g by (intro decode_all_map) simp
  then have "Hub_Wire.manifest_decoder (raw_of ?j) \<lparr>MfProjectID = [], MfBundles = []\<rparr> =
      Inr \<lparr>MfProjectID = to_valid (ProjectID m), MfBundles = map (hub_bundle enc) (bundle_list m)\<rparr>"
    by (cases "Cli_Integrator.Manifest.Bundles m")
      (simp_all add: field_simps Hub_Wire.manifest_decoder_def decode_elems_def decode_list_def bundle_list_def
        del: to_valid.simps json_fold.simps)
  with decode_sent [OF p d] that [OF j] show thesis by metis
qed

text \<open>What the hub answers, and what the tool reads.\<close>

definition fetched_manifest :: "Hub_Registry.Manifest \<Rightarrow> go_moment \<Rightarrow> json Cli_Integrator.Manifest" where
  "fetched_manifest m at =
     \<lparr>Cli_Integrator.Manifest.Version = to_valid (Hub_Registry.Manifest.Version m), ProjectID = to_valid (MProjectID m),
      Cli_Integrator.Manifest.Bundles =
        (if Hub_Registry.Manifest.Bundles m = [] then None else Some (map fetched_bundle (Hub_Registry.Manifest.Bundles m))),
      MCreatedAt = at\<rparr>"

lemma bundle_list_fetched: "bundle_list (fetched_manifest m at) = map fetched_bundle (Hub_Registry.Manifest.Bundles m)"
  by (simp add: bundle_list_def fetched_manifest_def)

lemma manifest_answered:
  assumes "list_all text_bundle (Hub_Registry.Manifest.Bundles m)"
    and "time_text W (Hub_Registry.Manifest.CreatedAt m) = Inr t" "utf8_text t" "parse_moment t = Some at"
  obtains j where "value_json W (VManifest m) = Inr j"
    "json_decode Cli_Communicator.manifest_decoder (json_compact j @ [CHR 0x0A]) zero_manifest = Inr (fetched_manifest m at)"
proof -
  let ?bs = "Hub_Registry.Manifest.Bundles m"
  let ?j = "JObj [(''id'', JStr (MID m)), (''project_id'', JStr (MProjectID m)), (''version'', JStr (Hub_Registry.Manifest.Version m)),
      (''bundles'', nil_or ?bs (JArr (map hub_bundle_json ?bs))), (''created_at'', JStr t), (''created_by'', JStr (CreatedBy m))]"
  note ok = bundle_answered [OF assms(1) [unfolded list_all_iff, rule_format]]
  have p: "plain_json ?j" using ok(1) by (simp add: nil_or_def list_all_iff)
  have "foldr (max \<circ> json_depth) (map hub_bundle_json ?bs) 0 \<le> 91" using ok(2) by (intro depth_all) auto
  then have d: "json_depth ?j \<le> max_nesting" by (intro nesting_small) (simp add: nil_or_def)
  have "decode_all Cli_Communicator.bundle_decoder Cli_Communicator.zero_bundle (map (raw_of \<circ> hub_bundle_json) ?bs) =
      Inr (map fetched_bundle ?bs)"
    using ok(3) by (intro decode_all_map) simp
  then have "Cli_Communicator.manifest_decoder (raw_of ?j) zero_manifest = Inr (fetched_manifest m at)"
    using assms(3,4)
    by (simp add: field_simps Cli_Communicator.manifest_decoder_def decode_list_def nil_or_def fetched_manifest_def zero_manifest_def
        decode_moment_def utf8_text_def del: to_valid.simps json_fold.simps)
  then have "json_decode Cli_Communicator.manifest_decoder (json_compact ?j @ [CHR 0x0A]) zero_manifest = Inr (fetched_manifest m at)"
    unfolding decode_line [OF p d] .
  moreover have "value_json W (VManifest m) = Inr ?j" by (simp add: assms(2))
  ultimately show thesis using that by blast
qed

section \<open>The declarations\<close>

text \<open>A value of another kind is written as one of another kind.\<close>

fun other_json :: "json \<Rightarrow> bool" where
  "other_json (JStr s) \<longleftrightarrow> False"
| "other_json (JBool b) \<longleftrightarrow> False"
| "other_json (JObj ms) \<longleftrightarrow> False"
| "other_json j \<longleftrightarrow> True"

definition enc_others :: "('y \<Rightarrow> json res) \<Rightarrow> bool" where
  "enc_others enc \<longleftrightarrow> (\<forall>y j. enc y = Inr j \<longrightarrow> other_json j)"

definition sent_any :: "('y \<Rightarrow> json res) \<Rightarrow> 'y go_any \<Rightarrow> json" where
  "sent_any enc v = (case any_json enc v of Inr j \<Rightarrow> j | Inl _ \<Rightarrow> JNull)"

lemma insort_fst_map: "insort_key fst (k, g v) (map (\<lambda>(k, v). (k, g v)) ms) = map (\<lambda>(k, v). (k, g v)) (insort_key fst (k, v) ms)"
  by (induction ms) auto

lemma sort_fst_map: "sort_key fst (map (\<lambda>(k, v). (k, g v)) ms) = map (\<lambda>(k, v). (k, g v)) (sort_key fst ms)"
  by (induction ms) (auto simp: insort_fst_map)

lemma any_map_sent:
  assumes "any_json enc (AnyMap ms) = Inr j"
  shows "j = JObj (map (\<lambda>(k, v). (k, sent_any enc v)) (sort_key fst ms))"
    and "(k, v) \<in> set ms \<Longrightarrow> any_json enc v = Inr (sent_any enc v)"
proof -
  have sent: "any_json enc v = Inr j \<Longrightarrow> sent_any enc v = j" for v j by (simp add: sent_any_def)
  have enc: "those (map (\<lambda>(k, v). case any_json enc v of Inl e \<Rightarrow> None | Inr j \<Rightarrow> Some (k, j)) ms) = Some js \<Longrightarrow>
      js = map (\<lambda>(k, v). (k, sent_any enc v)) ms \<and> (\<forall>(k, v) \<in> set ms. any_json enc v = Inr (sent_any enc v))" for ms js
  proof (induction ms arbitrary: js)
    case (Cons m ms)
    obtain k v where m: "m = (k, v)" by (cases m)
    with Cons.prems obtain j where "any_json enc v = Inr j" by (auto split: sum.splits)
    with Cons m sent show ?case by (auto split: option.splits)
  qed simp
  obtain js where js: "those (map (\<lambda>(k, v). case any_json enc v of Inl e \<Rightarrow> None | Inr j \<Rightarrow> Some (k, j)) ms) = Some js"
    "j = sorted_obj js"
    using assms by (auto split: option.splits)
  have m: "js = map (\<lambda>(k, v). (k, sent_any enc v)) ms" and all: "\<forall>(k, v) \<in> set ms. any_json enc v = Inr (sent_any enc v)"
    using enc [OF js(1)] by blast+
  show "j = JObj (map (\<lambda>(k, v). (k, sent_any enc v)) (sort_key fst ms))"
    unfolding js(2) m sorted_obj_def sort_fst_map ..
  show "(k, v) \<in> set ms \<Longrightarrow> any_json enc v = Inr (sent_any enc v)" using all by blast
qed

text \<open>Looking into a map that was sent.\<close>

lemma sent_map_keys: "settled (JObj (map (\<lambda>(k, v). (k, f v)) ms)) \<Longrightarrow> distinct (map fst ms)"
  using settled_order(2) [of "map (\<lambda>(k, v). (k, f v)) ms"] by (simp add: comp_def case_prod_beta del: settled.simps)

lemma map_of_sort: "distinct (map fst ms) \<Longrightarrow> map_of (sort_key fst ms) = map_of ms"
  by (rule map_of_same_set) (simp_all add: distinct_map)

lemma sent_map_lookup:
  assumes "any_json enc (AnyMap ms) = Inr (JObj js)" and "settled (JObj js)"
  shows "map_of (map (\<lambda>(k, j). (k, json_any j)) js) k = map_option (\<lambda>v. json_any (sent_any enc v)) (map_of ms k)"
    and "map_of ms k = Some v \<Longrightarrow> any_json enc v = Inr (sent_any enc v) \<and> settled (sent_any enc v)"
proof -
  have js: "js = map (\<lambda>(k, v). (k, sent_any enc v)) (sort_key fst ms)" using any_map_sent(1) [OF assms(1)] by simp
  have "distinct (map fst (sort_key fst ms))" using sent_map_keys assms(2) unfolding js .
  then have d: "distinct (map fst ms)" by (simp add: distinct_map)
  have "map (\<lambda>(k, j). (k, json_any j)) js = map (\<lambda>(k, v). (k, json_any (sent_any enc v))) (sort_key fst ms)" by (auto simp: js)
  then show "map_of (map (\<lambda>(k, j). (k, json_any j)) js) k = map_option (\<lambda>v. json_any (sent_any enc v)) (map_of ms k)"
    by (simp add: map_of_map map_of_sort [OF d])
  assume "map_of ms k = Some v"
  then have mem: "(k, v) \<in> set ms" by (rule map_of_SomeD)
  then have "(k, sent_any enc v) \<in> set js" by (force simp: js)
  with any_map_sent(2) [OF assms(1) mem] settled_members [OF assms(2)]
  show "any_json enc v = Inr (sent_any enc v) \<and> settled (sent_any enc v)" by blast
qed

lemma sent_scalar:
  assumes "enc_others enc" and "any_json enc v = Inr j"
  shows "any_str (Some (json_any j)) = any_str (Some v)" and "any_bool (Some (json_any j)) = any_bool (Some v)"
    and "(\<exists>ms. json_any j = AnyMap ms) \<longleftrightarrow> (\<exists>ms. v = AnyMap ms)"
proof -
  consider s where "v = AnyStr s" "j = JStr s" | b where "v = AnyBool b" "j = JBool b"
    | y where "v = AnyOther y" "other_json j" | ms js where "v = AnyMap ms" "j = JObj js"
    using assms by (cases v) (auto simp: sorted_obj_def enc_others_def split: option.splits)
  then have "any_str (Some (json_any j)) = any_str (Some v) \<and> any_bool (Some (json_any j)) = any_bool (Some v) \<and>
      ((\<exists>ms. json_any j = AnyMap ms) \<longleftrightarrow> (\<exists>ms. v = AnyMap ms))"
    by cases (auto simp: any_str_def any_bool_def elim: other_json.elims)
  then show "any_str (Some (json_any j)) = any_str (Some v)" "any_bool (Some (json_any j)) = any_bool (Some v)"
    "(\<exists>ms. json_any j = AnyMap ms) \<longleftrightarrow> (\<exists>ms. v = AnyMap ms)" by blast+
qed

lemma param_text_sent:
  assumes enc: "enc_others enc" and v: "any_json enc v = Inr j" "settled j"
  shows "param_text indent p (json_any j) = param_text indent p v"
proof (cases "\<exists>ms. v = AnyMap ms")
  case False
  with sent_scalar(3) [OF enc v(1)] show ?thesis
    by (cases v; cases "json_any j") (auto simp: param_text_def)
next
  case True
  then obtain ms js where ms: "v = AnyMap ms" "j = JObj js" using any_map_Inr [of enc] v(1) by metis
  note look = sent_map_lookup [OF v(1) [unfolded ms] v(2) [unfolded ms(2)]]
  have "any_bool (map_of (map (\<lambda>(k, j). (k, json_any j)) js) k) = any_bool (map_of ms k) \<and>
      any_str (map_of (map (\<lambda>(k, j). (k, json_any j)) js) k) = any_str (map_of ms k)" for k
    using look(2) [of k] sent_scalar(1,2) [OF enc]
    by (cases "map_of ms k") (simp_all add: look(1) any_bool_def [of None] any_str_def [of None])
  then show ?thesis by (simp add: ms param_text_def)
qed

lemma param_lines_sent:
  assumes enc: "enc_others enc" and ms: "any_json enc (AnyMap ms) = Inr (JObj js)" "settled (JObj js)"
  shows "map (\<lambda>(p, v). param_text indent p v) (sort_key fst (map (\<lambda>(k, j). (k, json_any j)) js)) =
    map (\<lambda>(p, v). param_text indent p v) (sort_key fst ms)"
proof -
  have js: "js = map (\<lambda>(k, v). (k, sent_any enc v)) (sort_key fst ms)" using any_map_sent(1) [OF ms(1)] by simp
  have "sort_key fst (map (\<lambda>(k, j). (k, json_any j)) js) = map (\<lambda>(k, v). (k, json_any (sent_any enc v))) (sort_key fst ms)"
    unfolding sort_fst_map settled_sort [OF ms(2)] by (auto simp: js)
  moreover have "param_text indent k (json_any (sent_any enc v)) = param_text indent k v" if "(k, v) \<in> set (sort_key fst ms)" for k v
  proof -
    have "(k, v) \<in> set ms" "(k, sent_any enc v) \<in> set js" using that by (force simp: js)+
    then show ?thesis
      using param_text_sent [OF enc any_map_sent(2) [OF ms(1)]] settled_members [OF ms(2)] by blast
  qed
  ultimately show ?thesis by auto
qed

lemma bundle_text_sent:
  assumes enc: "enc_others enc" and b: "sendable_bundle enc b"
  shows "bundle_text indent (fetched_bundle (hub_bundle enc b)) = bundle_text indent b"
proof -
  note parts = sendable_bundle_parts [OF b]
  let ?b = "fetched_bundle (hub_bundle enc b)"
  have old: "Option.bind (Cli_Integrator.Bundle.BConfig b) (\<lambda>c. map_of c k) = map_of (config_of b) k" for k
    by (simp add: config_of_def split: option.split)
  have new: "Option.bind (Cli_Integrator.Bundle.BConfig ?b) (\<lambda>c. map_of c k) =
      map_option (\<lambda>v. json_any (sent_any enc v)) (map_of (config_of b) k)" for k
    using sent_map_lookup(1) [OF parts(6,7), of k] parts(9) by (auto simp: fetched_bundle_def hub_bundle_def)
  show ?thesis
  proof (cases "map_of (config_of b) ''params''")
    case None
    then show ?thesis using old new by (simp add: bundle_text_def) (simp add: fetched_bundle_def hub_bundle_def)
  next
    case (Some v)
    note v = sent_map_lookup(2) [OF parts(6,7) Some]
    have name: "Cli_Integrator.Bundle.BName ?b = Cli_Integrator.Bundle.BName b" by (simp add: fetched_bundle_def hub_bundle_def)
    show ?thesis
    proof (cases "\<exists>ms. v = AnyMap ms")
      case False
      then have "\<not> (\<exists>ms. json_any (sent_any enc v) = AnyMap ms)" using sent_scalar(3) [OF enc] v by blast
      with False show ?thesis unfolding bundle_text_def old new Some name
        by (auto split: go_any.split)
    next
      case True
      then obtain ms js where ms: "v = AnyMap ms" "sent_any enc v = JObj js" using any_map_Inr [of enc] v by metis
      have "any_json enc (AnyMap ms) = Inr (JObj js)" "settled (JObj js)" using v ms by simp_all
      from param_lines_sent [OF enc this] show ?thesis unfolding bundle_text_def old new Some name
        by (simp add: ms(1)) (simp add: ms(2) [unfolded ms(1)])
    qed
  qed
qed

text \<open>The declarations of bundles that look the same.\<close>

lemma group_text_map:
  "(\<And>p b k. (p, b) \<in> set items \<Longrightarrow> Cli_Integrator.Bundle.BName (f b) = Cli_Integrator.Bundle.BName b \<and> bundle_text k (f b) = bundle_text k b) \<Longrightarrow>
    group_text indent (map (\<lambda>(p, b). (p, f b)) items) = group_text indent items"
proof (induction indent items rule: group_text.induct)
  case (1 indent items)
  let ?m = "\<lambda>items. map (\<lambda>(p, b). (p, f b)) items"
  have h: "here (?m items) = map f (here items)" "heads (?m items) = heads items" "inside k (?m items) = ?m (inside k items)" for k
    by (auto simp: here_def heads_def inside_def filter_map comp_def case_prod_beta)
  have mem: "Cli_Integrator.Bundle.BName (f b) = Cli_Integrator.Bundle.BName b" "bundle_text indent (f b) = bundle_text indent b"
    if "b \<in> set (here items)" for b
    using "1.prems" that by (auto simp: here_def)
  have "sort_key Cli_Integrator.Bundle.BName (map f bs) = map f (sort_key Cli_Integrator.Bundle.BName bs)"
    if "\<And>b. b \<in> set bs \<Longrightarrow> Cli_Integrator.Bundle.BName (f b) = Cli_Integrator.Bundle.BName b" for bs
  proof -
    have "insort_key Cli_Integrator.Bundle.BName (f x) (map f ys) = map f (insort_key Cli_Integrator.Bundle.BName x ys)"
      if "\<forall>b \<in> set (x # ys). Cli_Integrator.Bundle.BName (f b) = Cli_Integrator.Bundle.BName b" for x ys
      using that by (induction ys) auto
    with that show ?thesis by (induction bs) auto
  qed
  from this [of "here items"] mem have here: "map (bundle_text indent) (sort_key Cli_Integrator.Bundle.BName (here (?m items))) =
      map (bundle_text indent) (sort_key Cli_Integrator.Bundle.BName (here items))"
    by (simp add: h)
  have "group_text (indent + 2) (?m (inside k items)) = group_text (indent + 2) (inside k items)" if "k \<in> set (sort (remdups (heads items)))" for k
    using "1.prems" by (intro "1.IH" [OF that]) (auto simp: inside_def)
  then have kids: "map (\<lambda>k. child_text indent k (group_text (indent + 2) (inside k (?m items)))) (sort (remdups (heads items))) =
      map (\<lambda>k. child_text indent k (group_text (indent + 2) (inside k items))) (sort (remdups (heads items)))"
    by (simp add: h)
  show ?case unfolding group_text.simps [of indent items] group_text.simps [of indent "?m items"] h(2) here kids ..
qed

lemma sent_names [simp]:
  "Cli_Integrator.Bundle.BName (fetched_bundle (hub_bundle enc b)) = Cli_Integrator.Bundle.BName b"
  "Cli_Integrator.Bundle.BType (fetched_bundle (hub_bundle enc b)) = Cli_Integrator.Bundle.BType b"
  "BNamespace (fetched_bundle (hub_bundle enc b)) = BNamespace b" "Hash (fetched_bundle (hub_bundle enc b)) = Hash b"
  "slice_bytes (Cli_Integrator.Bundle.Content (fetched_bundle (hub_bundle enc b))) = slice_bytes (Cli_Integrator.Bundle.Content b)"
  by (simp_all add: fetched_bundle_def hub_bundle_def slice_bytes_def)

lemma types_sent:
  assumes enc: "enc_others enc" and bs: "list_all (sendable_bundle enc) (bundle_list m)"
    and m': "bundle_list m' = map (\<lambda>b. fetched_bundle (hub_bundle enc b)) (bundle_list m)"
  shows "GenerateTypes m' = GenerateTypes m"
proof -
  let ?f = "\<lambda>b. fetched_bundle (hub_bundle enc b)"
  have "bundle_items (map ?f bs) = map (\<lambda>(p, b). (p, ?f b)) (bundle_items bs)" for bs
    by (induction bs) (simp_all add: bundle_items_def typed_bundle_def ns_parts_def)
  moreover have "Cli_Integrator.Bundle.BName (?f b) = Cli_Integrator.Bundle.BName b \<and> bundle_text k (?f b) = bundle_text k b"
    if "(p, b) \<in> set (bundle_items (bundle_list m))" for p b k
    using that bs bundle_text_sent [OF enc] by (auto simp: bundle_items_def list_all_iff)
  ultimately have "group_text 4 (bundle_items (bundle_list m')) = group_text 4 (bundle_items (bundle_list m))"
    using group_text_map [of "bundle_items (bundle_list m)" ?f 4] unfolding m' by simp
  then show ?thesis by (simp add: GenerateTypes_def namespace_tree_items write_tree)
qed

section \<open>What was fetched\<close>

text \<open>A bundle as the code looks at it: its names, its code, its hash and its configuration.\<close>

definition bundle_view :: "('y \<Rightarrow> json res) \<Rightarrow> 'y Cli_Integrator.Bundle \<Rightarrow> (string \<times> string \<times> string) \<times> string \<times> string \<times> (string \<times> json) list" where
  "bundle_view enc b =
     ((Cli_Integrator.Bundle.BType b, BNamespace b, Cli_Integrator.Bundle.BName b),
      slice_bytes (Cli_Integrator.Bundle.Content b), Hash b, sent_config enc b)"

lemma view_sent:
  assumes "sendable_bundle enc b"
  shows "bundle_view Inr (fetched_bundle (hub_bundle enc b)) = bundle_view enc b"
proof -
  note parts = sendable_bundle_parts [OF assms]
  have "config_of (fetched_bundle (hub_bundle enc b)) = map (\<lambda>(k, j). (k, json_any j)) (sent_config enc b)"
    using parts(9) by (auto simp: config_of_def fetched_bundle_def hub_bundle_def)
  then have "sent_config Inr (fetched_bundle (hub_bundle enc b)) = sent_config enc b"
    using settled_any [OF parts(7)] by (simp add: sent_config_def [of Inr] del: any_json.simps)
  then show ?thesis by (simp add: bundle_view_def)
qed

text \<open>What was fetched can be written.\<close>

lemma any_json_total: "(\<And>y. is_ok (enc y)) \<Longrightarrow> is_ok (any_json enc v)"
proof (induction v)
  case (AnyMap ms)
  have "those (map (\<lambda>(k, v). case any_json enc v of Inl e \<Rightarrow> None | Inr j \<Rightarrow> Some (k, j)) ms) =
      Some (map (\<lambda>(k, v). (k, sent_any enc v)) ms)"
    using AnyMap by (intro those_all) (fastforce simp: is_ok_iff sent_any_def)
  then show ?case by (simp add: is_ok_iff)
qed (simp_all add: is_ok_iff)

lemma fetched_manifest_written:
  assumes "is_ok (moment_text at)"
  obtains j where "manifest_json (\<lambda>j. Inr (json_sorted j)) (fetched_manifest m at) = Inr j"
proof -
  let ?enc = "\<lambda>j. Inr (json_sorted j) :: json res"
  have "\<exists>j. Cli_Communicator.bundle_json ?enc b = Inr j" if b: "b \<in> set (bundle_list (fetched_manifest m at))" for b
  proof -
    obtain c where "any_json ?enc (AnyMap (case Cli_Integrator.Bundle.BConfig b of None \<Rightarrow> [] | Some m \<Rightarrow> m)) = Inr c"
      using any_json_total [of ?enc] by (auto simp: is_ok_iff simp del: any_json.simps)
    moreover have "Cli_Integrator.Bundle.CreatedAt b = zero_moment"
      using b by (auto simp: bundle_list_def fetched_manifest_def fetched_bundle_def split: if_splits)
    ultimately show ?thesis by (simp add: Cli_Communicator.bundle_json_def zero_moment_text del: any_json.simps)
  qed
  then obtain g where "\<And>b. b \<in> set (bundle_list (fetched_manifest m at)) \<Longrightarrow> Cli_Communicator.bundle_json ?enc b = Inr (g b)" by metis
  then have "those (map (\<lambda>b. case Cli_Communicator.bundle_json ?enc b of Inl e \<Rightarrow> None | Inr j \<Rightarrow> Some j) (bundle_list (fetched_manifest m at))) =
      Some (map g (bundle_list (fetched_manifest m at)))"
    by (intro those_all) simp
  moreover obtain t where "moment_text (MCreatedAt (fetched_manifest m at)) = Inr t"
    using assms by (auto simp: is_ok_iff fetched_manifest_def)
  ultimately have "\<exists>j. manifest_json ?enc (fetched_manifest m at) = Inr j" unfolding manifest_json_def by simp
  with that show thesis by blast
qed

end
