(* ===== verification/Cli_Hub_Manifest.thy ===== *)
theory Cli_Hub_Manifest
  imports Cli_Hub_Bundles Cli_Logic Cli_Init
begin

text \<open>
  Manifests through the tool and the hub: the bundles that \<open>stk logic apply\<close> uploads are the ones that
  \<open>stk sync\<close> fetches, across the bytes of both requests, the registry and its table.
\<close>

section \<open>The calls\<close>

text \<open>The registry of the hub before a push: the manifests came in order, the last one before the second
  in which the clock is read, and the clock does not go back.\<close>

definition push_ready ::
  "('o, 'r, 'w, 'k, 'm, 'c) hub_env \<Rightarrow> call_draws \<Rightarrow> go_time \<Rightarrow> ('r, 'w) hub \<Rightarrow> bool" where
  "push_ready E d t h \<longleftrightarrow>
     db_healthy (hub_db h) \<and> sql_reg_ok (hub_db h) \<and> dbr.older (he_zone E) t (hub_db h) \<and>
     unix t < unix (cd_now d) \<and> year_ok (unix (cd_now d) + he_zone E) \<and> cd_now d \<le> cd_later d"

lemma Push_hub:
  assumes "push_ready E d t h"
  obtains m h' where "run_registry (Push sql_registry (he_environ E) (he_redis E) (he_zone E) (cd_now d) (cd_later d) p bs u) h = (Inr m, h')"
    and "push_ready E d' (cd_later d) h' \<longleftrightarrow>
      unix (cd_later d) < unix (cd_now d') \<and> year_ok (unix (cd_now d') + he_zone E) \<and> cd_now d' \<le> cd_later d'"
    and "db_healthy (hub_db h')" "sql_reg_ok (hub_db h')" "sql_history (hub_db h') p \<noteq> []"
    and "last (sql_history (hub_db h') p) = stored_manifest
      \<lparr>MID = [], MProjectID = p, Version = generateVersion (he_zone E) (cd_now d), Bundles = bs, CreatedAt = cd_later d, CreatedBy = u\<rparr>"
proof -
  let ?c = "\<lparr>pc_zone = he_zone E, pc_now = cd_now d, pc_made = cd_later d, pc_project = p, pc_bundles = bs, pc_user = u\<rparr>"
  let ?w = "\<lparr>rw_repo = hub_db h, rw_redis = hub_redis h, rw_files = hub_files h\<rparr>"
  have "sql_reg_ok (rw_repo ?w)" "db_healthy (rw_repo ?w)" "dbr.older (he_zone E) t (rw_repo ?w)" "in_order (he_zone E) t [?c]"
    using assms by (simp_all add: push_ready_def)
  from dbr.push_step [OF this, of "he_environ E" "he_redis E"] obtain w' where
    run: "Push sql_registry (he_environ E) (he_redis E) (he_zone E) (cd_now d) (cd_later d) p bs u ?w = (Inr (pushed_manifest ?c), w')"
    and ok: "sql_reg_ok (rw_repo w')" "db_healthy (rw_repo w')" "dbr.older (he_zone E) (cd_later d) (rw_repo w')"
    and hist: "sql_history (rw_repo w') p = sql_history (hub_db h) p @ [stored_manifest (pushed_manifest ?c)]"
    by auto
  show thesis
  proof (rule that)
    let ?h = "h\<lparr>hub_db := rw_repo w', hub_redis := rw_redis w', hub_files := rw_files w'\<rparr>"
    show "run_registry (Push sql_registry (he_environ E) (he_redis E) (he_zone E) (cd_now d) (cd_later d) p bs u) h =
        (Inr (pushed_manifest ?c), ?h)"
      by (simp add: run_registry_def run)
  qed (use ok hist in \<open>simp_all add: push_ready_def pushed_manifest_def\<close>)
qed

lemma PushManifest_hub:
  assumes con: "connected E draw addr env w" and c: "comm_client c = hub_client E draw W addr" "comm_config c = command_config env w"
    and ready: "push_ready E (draw i) t h" and m: "sendable_manifest enc m" "ProjectID m = command_project env w"
  shows "\<exists>h'. PushManifest enc c m (h, i) = (Inr (), (h', Suc i)) \<and> db_healthy (hub_db h') \<and> sql_reg_ok (hub_db h') \<and>
    (push_ready E (draw (Suc i)) (cd_later (draw i)) h' \<longleftrightarrow>
      unix (cd_later (draw i)) < unix (cd_now (draw (Suc i))) \<and> year_ok (unix (cd_now (draw (Suc i))) + he_zone E) \<and>
      cd_now (draw (Suc i)) \<le> cd_later (draw (Suc i))) \<and>
    sql_history (hub_db h') (project_sent (command_project env w)) \<noteq> [] \<and>
    (\<exists>u. last (sql_history (hub_db h') (project_sent (command_project env w))) = stored_manifest
      \<lparr>MID = [], MProjectID = project_sent (command_project env w), Version = generateVersion (he_zone E) (cd_now (draw i)),
       Bundles = map (hub_bundle enc) (bundle_list m), CreatedAt = cd_later (draw i), CreatedBy = u\<rparr>)"
proof -
  let ?cfg = "command_config env w" and ?p = "command_project env w" and ?path = "''/api/v1/manifest''"
  from manifest_sent [OF m(1)] obtain j p where j: "manifest_json enc m = Inr j" and
    dec: "json_decode Hub_Wire.manifest_decoder (json_compact j) \<lparr>MfProjectID = [], MfBundles = []\<rparr> =
      Inr \<lparr>MfProjectID = p, MfBundles = map (hub_bundle enc) (bundle_list m)\<rparr>" .
  let ?q = "\<lparr>MfProjectID = p, MfBundles = map (hub_bundle enc) (bundle_list m)\<rparr>"
  from guarded_handler [OF con, where i = i and handle = "handlePushManifest E (draw i)" and h = h and meth = "''POST''" and path = ?path
      and payload = "json_compact j" and b = "Inr ?q"]
  obtain u where g: "guarded E (draw i) (handlePushManifest E (draw i)) h (to_request (sent_raw ?cfg ''POST'' ?path ?p (json_compact j)) (Inr ?q)) =
      handlePushManifest E (draw i) h (with_user_id u (to_request (sent_raw ?cfg ''POST'' ?path ?p (json_compact j)) (Inr ?q)))"
    and ps: "project_sent ?p \<noteq> []" by metis
  let ?u = "if u = [] then ''local'' else u"
  from Push_hub [OF ready, where p = "project_sent ?p" and bs = "map (hub_bundle enc) (bundle_list m)" and u = ?u and d' = "draw (Suc i)"]
  obtain m' h' where run: "run_registry (Push sql_registry (he_environ E) (he_redis E) (he_zone E) (cd_now (draw i)) (cd_later (draw i))
      (project_sent ?p) (map (hub_bundle enc) (bundle_list m)) ?u) h = (Inr m', h')"
    and facts: "push_ready E (draw (Suc i)) (cd_later (draw i)) h' \<longleftrightarrow>
      unix (cd_later (draw i)) < unix (cd_now (draw (Suc i))) \<and> year_ok (unix (cd_now (draw (Suc i))) + he_zone E) \<and>
      cd_now (draw (Suc i)) \<le> cd_later (draw (Suc i))"
      "db_healthy (hub_db h')" "sql_reg_ok (hub_db h')" "sql_history (hub_db h') (project_sent ?p) \<noteq> []"
      "last (sql_history (hub_db h') (project_sent ?p)) = stored_manifest
        \<lparr>MID = [], MProjectID = project_sent ?p, Version = generateVersion (he_zone E) (cd_now (draw i)),
         Bundles = map (hub_bundle enc) (bundle_list m), CreatedAt = cd_later (draw i), CreatedBy = ?u\<rparr>"
    by metis
  have url: "url_path ?path = ?path" using url_parts_plain [OF plain_paths(6)] by auto
  obtain out where reply: "reply_bytes W (HttpJson (VManifest m')) = (200, out)"
    by (cases "value_json W (VManifest m')") simp_all
  have "hub_http E (draw i) W (sent_raw ?cfg ''POST'' ?path ?p (json_compact j)) h = ((200, out), h')"
    using ps run reply
    by (cases "u = []") (simp_all add: hub_http_def url routed_calls call_of_def dec g handlePushManifest_def with_user_sel
        sent_headers Let_def del: reply_bytes.simps)
  from plain_exchange [OF con c _ plain_paths(6) this] facts show ?thesis
    by (intro exI [of _ h'] conjI exI [of _ ?u]) (simp_all add: PushManifest_def j m(2) c(2) check_ok_def no_answer_def)
qed

lemma FetchManifest_hub:
  assumes con: "connected E draw addr env w" and c: "comm_client c = hub_client E draw W addr" "comm_config c = command_config env w"
    and h: "db_healthy (hub_db h)" "sql_reg_ok (hub_db h)" and ne: "sql_history (hub_db h) (project_sent (command_project env w)) \<noteq> []"
    and last: "last (sql_history (hub_db h) (project_sent (command_project env w))) = m" and bs: "list_all text_bundle (Hub_Registry.Manifest.Bundles m)"
    and zone: "time_text W (Hub_Registry.Manifest.CreatedAt m) = Inr tt" "utf8_text tt" "parse_moment tt = Some at"
  shows "\<exists>h'. FetchManifest c (command_project env w) (h, i) = (Inr (fetched_manifest m at), (h', Suc i))"
proof -
  let ?cfg = "command_config env w" and ?p = "command_project env w" and ?path = "''/api/v1/manifest''"
  from guarded_handler [OF con, where i = i and handle = handleGetManifest and h = h and meth = "''GET''" and path = ?path
      and payload = "[]" and b = "Inr ()"]
  obtain u where g: "guarded E (draw i) handleGetManifest h (to_request (sent_raw ?cfg ''GET'' ?path ?p []) (Inr ())) =
      handleGetManifest h (with_user_id u (to_request (sent_raw ?cfg ''GET'' ?path ?p []) (Inr ())))"
    and ps: "project_sent ?p \<noteq> []" by metis
  from manifest_answered [OF bs zone] obtain j where j: "value_json W (VManifest m) = Inr j" and
    dec: "json_decode Cli_Communicator.manifest_decoder (json_compact j @ [CHR 0x0A]) zero_manifest = Inr (fetched_manifest m at)" .
  have "fst (reg_latest sql_registry (project_sent ?p) (hub_db h)) = Inr m"
    using dbr.latest [OF h(2,1) ne] last by simp
  then obtain h' where run: "run_registry (reg_GetLatest sql_registry (project_sent ?p)) h = (Inr m, h')"
    by (cases "reg_latest sql_registry (project_sent ?p) (hub_db h)") (simp add: run_registry_def reg_GetLatest_def)
  have url: "url_path ?path = ?path" using url_parts_plain [OF plain_paths(6)] by auto
  have "hub_http E (draw i) W (sent_raw ?cfg ''GET'' ?path ?p []) h = ((200, json_compact j @ [CHR 0x0A]), h')"
    using ps run j
    by (simp add: hub_http_def url routed_calls call_of_def g handleGetManifest_def with_user_sel sent_headers Let_def
        del: value_json.simps)
  from plain_exchange [OF con c _ plain_paths(6) this] show ?thesis
    by (intro exI [of _ h']) (simp add: FetchManifest_def c(2) any_body_def decode_answer_def dec)
qed

section \<open>What a sync writes\<close>

text \<open>Nothing is in the way of the two files, of which neither is below the other.\<close>

definition sync_clear :: "string \<Rightarrow> string \<Rightarrow> fs \<Rightarrow> bool" where
  "sync_clear rootDir out w \<longleftrightarrow>
     fst (resolveCodegenOutput rootDir w) = Inr out \<and>
     (let C = path_key rootDir @ [''.santokit'']; T = path_key out in
      \<not> file_in_way w C \<and> \<not> dir_exists w (C @ [''manifest.json'']) \<and>
      path_key (path_dir out) = butlast T \<and> \<not> file_in_way w (butlast T) \<and> \<not> dir_exists w T \<and>
      T \<notin> set (prefixes_of C) \<and> C @ [''manifest.json''] \<notin> set (prefixes_of T))"

lemma resolve_same:
  assumes "fs_healthy w" "fs_healthy w'"
    and "map_of (fs_files w') (path_key (path_join [rootDir, ''stk.config.json''])) =
      map_of (fs_files w) (path_key (path_join [rootDir, ''stk.config.json'']))"
  shows "\<exists>w''. resolveCodegenOutput rootDir w' = (fst (resolveCodegenOutput rootDir w), w'') \<and> same_tree w'' w' \<and> fs_healthy w''"
proof -
  obtain u u' where "os_fault w = (False, u)" "fs_files u = fs_files w"
    and u': "os_fault w' = (False, u')" "fs_files u' = fs_files w'" "fs_dirs u' = fs_dirs w'" "fs_healthy u'"
    using os_fault_healthy assms(1,2) by metis
  then show ?thesis
    using assms(3)
    by (auto simp: resolveCodegenOutput_def os_ReadFile_def Let_def same_tree_def simp del: path_join.simps split: option.splits sum.splits)
qed

lemma write_into_ok:
  assumes "fs_healthy w" and "path_key dir = butlast (path_key path)" and "\<not> file_in_way w (butlast (path_key path))"
    and "\<not> dir_exists w (path_key path)"
  shows "\<exists>w'. write_into dir path data d f w = (Inr (), w') \<and> map_of (fs_files w') = (map_of (fs_files w))(path_key path \<mapsto> data) \<and>
    fs_healthy w' \<and> (\<forall>q. dir_exists w' q \<longleftrightarrow> dir_exists w q \<or> q \<in> set (prefixes_of (butlast (path_key path))))"
proof -
  let ?T = "path_key path"
  obtain w1 where w1: "os_MkdirAll dir w = (Inr (), w1)" "fs_healthy w1" "fs_files w1 = fs_files w"
    "fs_dirs w1 = fs_dirs w @ filter (\<lambda>k. \<not> dir_exists w k) (prefixes_of (butlast ?T))"
    using MkdirAll_ok [of w dir] assms(1-3) by auto
  then have ex: "dir_exists w1 q \<longleftrightarrow> dir_exists w q \<or> q \<in> set (prefixes_of (butlast ?T))" for q
    by (auto simp: dir_exists_def)
  have ne: "?T \<noteq> []" using assms(4) by (auto simp: dir_exists_def top_dir_def)
  have "butlast ?T \<noteq> ?T @ t" for t
  proof
    assume "butlast ?T = ?T @ t"
    then have "length (butlast ?T) = length (?T @ t)" by (rule arg_cong)
    then have "length ?T - 1 = length ?T + length t" unfolding length_butlast length_append .
    moreover have "0 < length ?T" using ne by blast
    ultimately show False by linarith
  qed
  then have "\<not> dir_exists w1 ?T" using assms(4) ex by (auto simp: in_prefixes)
  moreover have "dir_exists w1 (butlast ?T)"
    using ex [of "butlast ?T"] by (cases "butlast ?T = []") (auto simp: in_prefixes dir_exists_def top_dir_def)
  ultimately obtain w2 where "os_WriteFile path data w1 = (Inr (), w2)" "fs_healthy w2" "fs_dirs w2 = fs_dirs w1"
      "fs_files w2 = gm_put ?T data (fs_files w1)"
    using WriteFile_ok [OF w1(2)] by blast
  with w1(1,3) ex show ?thesis by (auto simp: write_into_def dir_exists_def)
qed

text \<open>The two files are all that a sync changes of the files.\<close>

definition write_synced :: "string \<Rightarrow> json Cli_Integrator.Manifest \<Rightarrow> fs \<Rightarrow> string res \<times> fs" where
  "write_synced rootDir manifest w =
     (case save_manifest rootDir manifest w of
        (Inl e, w2) \<Rightarrow> (Inl e, w2)
      | (Inr _, w2) \<Rightarrow>
          (case resolveCodegenOutput rootDir w2 of
             (Inl e, w3) \<Rightarrow> (Inl (ErrWrap ''Failed to resolve codegen output: '' e), w3)
           | (Inr typePath, w3) \<Rightarrow>
               (case write_into (path_dir typePath) typePath (GenerateTypes manifest)
                   ''Failed to create type definition directory: '' ''Failed to write type definition: '' w3 of
                  (Inl e, w4) \<Rightarrow> (Inl e, w4)
                | (Inr _, w4) \<Rightarrow> (Inr typePath, w4))))"

lemma sync_alt:
  "sync cl env rootDir w n =
     with_project cl env w n (\<lambda>comm projectID w1.
       case FetchManifest comm projectID n of
         (Inl e, n') \<Rightarrow> (Inl (ErrWrap ''Failed to fetch manifest: '' e), w1, n')
       | (Inr manifest, n') \<Rightarrow> (case write_synced rootDir manifest w1 of (r, w') \<Rightarrow> (r, w', n')))"
  unfolding sync_def write_synced_def
  by (rule arg_cong [of _ _ "with_project cl env w n"]) (auto simp: fun_eq_iff split: sum.split prod.split)

lemma write_synced_ok:
  assumes h: "fs_healthy w" and root: "is_abs rootDir" and clear: "sync_clear rootDir out w"
    and j: "manifest_json (\<lambda>j. Inr (json_sorted j)) m = Inr j"
  shows "\<exists>w'. write_synced rootDir m w = (Inr out, w') \<and>
    map_of (fs_files w') = (map_of (fs_files w))
      (path_key rootDir @ [''.santokit'', ''manifest.json''] \<mapsto> json_indented j, path_key out \<mapsto> GenerateTypes m)"
proof -
  let ?C = "path_key rootDir @ [''.santokit'']" and ?T = "path_key out"
  let ?M = "?C @ [''manifest.json'']" and ?cache = "path_join [rootDir, ''.santokit'']"
  have p: "plain_elem ''.santokit''" "plain_elem ''manifest.json''" "plain_elem ''stk.config.json''" by (simp_all add: plain_elem_def)
  have C: "path_key ?cache = ?C" by (rule join_names [OF root, THEN conjunct2]) (use p in simp_all)
  have cfg: "path_key (path_join [rootDir, ''stk.config.json'']) = path_key rootDir @ [''stk.config.json'']"
    by (rule join_names [OF root, THEN conjunct2]) (use p in simp_all)
  have "path_key (path_join [?cache, ''manifest.json'']) = path_key ?cache @ [''manifest.json'']"
    by (rule join_names [OF is_abs_join [OF root], THEN conjunct2]) (use p in simp_all)
  then have M: "path_key (path_join [?cache, ''manifest.json'']) = ?M" unfolding C .
  have cl: "\<not> file_in_way w ?C" "\<not> dir_exists w ?M" "path_key (path_dir out) = butlast ?T" "\<not> file_in_way w (butlast ?T)"
      "\<not> dir_exists w ?T" "?T \<notin> set (prefixes_of ?C)" "?M \<notin> set (prefixes_of ?T)" "fst (resolveCodegenOutput rootDir w) = Inr out"
    using clear by (simp_all add: sync_clear_def Let_def)
  have "save_manifest rootDir m w = write_into ?cache (path_join [?cache, ''manifest.json'']) (json_indented j)
      ''Failed to create cache dir: '' ''Failed to write manifest: '' w"
    unfolding save_manifest_def write_into_def Let_def j sum.case ..
  with write_into_ok [OF h, of ?cache "path_join [?cache, ''manifest.json'']", unfolded M, unfolded butlast_snoc, OF C cl(1,2),
      of "json_indented j" "''Failed to create cache dir: ''" "''Failed to write manifest: ''"]
  obtain w2 where
    w2: "save_manifest rootDir m w = (Inr (), w2)" "map_of (fs_files w2) = (map_of (fs_files w))(?M \<mapsto> json_indented j)" "fs_healthy w2"
    and ex: "\<forall>q. dir_exists w2 q \<longleftrightarrow> dir_exists w q \<or> q \<in> set (prefixes_of ?C)"
    by metis
  have "map_of (fs_files w2) (path_key (path_join [rootDir, ''stk.config.json''])) =
      map_of (fs_files w) (path_key (path_join [rootDir, ''stk.config.json'']))"
    unfolding cfg w2(2) by simp
  from resolve_same [OF h w2(3) this] cl(8) obtain w3 where
    w3: "resolveCodegenOutput rootDir w2 = (Inr out, w3)" "same_tree w3 w2" "fs_healthy w3" by auto
  note same = same_tree_eqs [OF w3(2)]
  have "\<not> dir_exists w3 ?T" using ex [rule_format, of ?T] cl(5,6) same by simp
  moreover have "\<not> file_in_way w3 (butlast ?T)"
  proof
    assume "file_in_way w3 (butlast ?T)"
    then obtain q t where q: "butlast ?T = q @ t" "q \<noteq> []" "map_of (fs_files w3) q \<noteq> None" by (auto simp: file_in_way_iff)
    have "?T \<noteq> []" using cl(5) by (auto simp: dir_exists_def top_dir_def)
    then have "?T = q @ t @ [last ?T]" using append_butlast_last_id [of ?T] q(1) by simp
    with q cl(7) have "q \<noteq> ?M" by (auto simp: in_prefixes)
    with q w2(2) w3(2) have "file_in_way w (butlast ?T)" by (auto simp: file_in_way_iff same_tree_def)
    with cl(4) show False ..
  qed
  ultimately obtain w4 where
    "write_into (path_dir out) out (GenerateTypes m) ''Failed to create type definition directory: '' ''Failed to write type definition: '' w3 = (Inr (), w4)"
    "map_of (fs_files w4) = (map_of (fs_files w3))(?T \<mapsto> GenerateTypes m)"
    using write_into_ok [OF w3(3) cl(3)] by blast
  with w2 w3 show ?thesis by (auto simp: write_synced_def same_tree_def)
qed

section \<open>Applying and fetching\<close>

lemma version_text:
  assumes "year_ok (unix t + z)"
  shows "utf8_text (generateVersion z t)"
proof -
  have digits: "list_all ascii (fixed w n)" for w n
    by (induction w arbitrary: n) (simp_all add: ascii_def digit_char_def)
  have "list_all2 fits ws fs \<Longrightarrow> list_all ascii (concat (map2 pad_int ws fs))" for ws fs
  proof (induction ws fs rule: list_all2_induct)
    case (Cons w ws f fs)
    have "pad_int w f = fixed w (nat f)"
      using Cons(1) fits_nat [of w f] by (simp add: fits_def pad_int_fixed)
    with Cons digits [of w "nat f"] show ?case by simp
  qed simp
  from this [OF fields_fit [OF assms]] show ?thesis
    by (simp add: generateVersion_def stamp_fields utf8_text_def to_valid_ascii)
qed

text \<open>The manifest that \<open>stk logic apply\<close> makes of a project.\<close>

definition built_manifest :: "environ \<Rightarrow> fs \<Rightarrow> 'y LogicConfig list \<Rightarrow> (nat \<Rightarrow> go_moment) \<Rightarrow> 'y Cli_Integrator.Manifest" where
  "built_manifest env w configs clock =
     CreateManifest (command_project env w) (if bundle_all configs clock = [] then None else Some (bundle_all configs clock))
       (clock (length configs)) (clock (length configs + 1))"

lemma logic_apply_hub:
  assumes con: "connected E draw addr env w" and cl: "cl = hub_client E draw W addr"
    and project: "ScanLogic (new_scanner rootDir) w = (Inr files, w)" "files \<noteq> []"
      "buildLogicConfigs yaml order rootDir files w = (Inr configs, w)"
    and push: "\<And>c. comm_client c = cl \<Longrightarrow> comm_config c = command_config env w \<Longrightarrow>
      \<exists>h'. PushManifest enc c (built_manifest env w configs clock) n = (Inr (), (h', j)) \<and> Q h'"
  shows "\<exists>h'. logic_apply yaml enc order clock cl env rootDir w n = (Inr (), w, (h', j)) \<and> Q h'"
proof -
  have fs: "fs_faults w = []" and p: "command_project env w \<noteq> []"
    using con by (auto simp: connected_def project_sent_def trim_space_Nil)
  obtain comm where c: "NewFromEnv cl env w = (comm, w)" "comm_client comm = cl" "comm_config comm = command_config env w"
    "resolve_project env comm = command_project env w"
    using NewFromEnv_same [OF fs] by blast
  obtain h' where "PushManifest enc comm (built_manifest env w configs clock) n = (Inr (), (h', j))" "Q h'"
    using push [OF c(2,3)] by blast
  then show ?thesis using c p project by (simp add: logic_apply_def Let_def built_manifest_def)
qed

lemma sync_hub:
  fixes h :: "('r, 'w) hub"
  assumes con: "connected E draw addr env w" and h: "db_healthy (hub_db h)" "sql_reg_ok (hub_db h)"
      "sql_history (hub_db h) (project_sent (command_project env w)) \<noteq> []"
      "last (sql_history (hub_db h) (project_sent (command_project env w))) = m"
    and bs: "list_all text_bundle (Hub_Registry.Manifest.Bundles m)"
    and zone: "time_text W (Hub_Registry.Manifest.CreatedAt m) = Inr tt" "utf8_text tt" "parse_moment tt = Some at" "is_ok (moment_text at)"
    and clear: "is_abs rootDir" "sync_clear rootDir out w"
  shows "\<exists>h' w' j. sync (hub_client E draw W addr) env rootDir w (h, i) = (Inr out, w', (h', Suc i)) \<and>
    manifest_json (\<lambda>j. Inr (json_sorted j)) (fetched_manifest m at) = Inr j \<and>
    map_of (fs_files w') = (map_of (fs_files w))
      (path_key rootDir @ [''.santokit'', ''manifest.json''] \<mapsto> json_indented j,
       path_key out \<mapsto> GenerateTypes (fetched_manifest m at))"
proof -
  obtain j where j: "manifest_json (\<lambda>j. Inr (json_sorted j)) (fetched_manifest m at) = Inr j"
    using fetched_manifest_written [OF zone(4)] by blast
  have "fs_healthy w" using con by (simp add: connected_def fs_healthy_def)
  from write_synced_ok [OF this clear j] obtain w' where wr: "write_synced rootDir (fetched_manifest m at) w = (Inr out, w')"
    "map_of (fs_files w') = (map_of (fs_files w))
      (path_key rootDir @ [''.santokit'', ''manifest.json''] \<mapsto> json_indented j,
       path_key out \<mapsto> GenerateTypes (fetched_manifest m at))" by blast
  have "\<exists>h'. sync (hub_client E draw W addr) env rootDir w (h, i) = (Inr out, w', (h', Suc i))"
    unfolding sync_alt
  proof (rule with_project_rule [OF con])
    fix comm :: "('r, 'w) hub_net Communicator"
    assume "comm_client comm = hub_client E draw W addr" "comm_config comm = command_config env w"
    from FetchManifest_hub [OF con this h bs zone(1-3), of i] wr(1)
    show "\<exists>h'. (case FetchManifest comm (command_project env w) (h, i) of
         (Inl e, n') \<Rightarrow> (Inl (ErrWrap ''Failed to fetch manifest: '' e), w, n')
       | (Inr manifest, n') \<Rightarrow> (case write_synced rootDir manifest w of (r, w') \<Rightarrow> (r, w', n'))) =
        (Inr out, w', (h', Suc i))" by auto
  qed
  with j wr(2) show ?thesis by blast
qed

text \<open>
  Property C9.  What \<open>stk logic apply\<close> uploads is what \<open>stk sync\<close> fetches, over HTTP and through the registry
  and its table.  With a tool connected to a hub whose manifests came in order, both commands succeed
  on a project that builds: the fetched bundles have the names, the code, the hash and the
  configuration of the ones that were built, whatever bytes the code holds, the file of declarations
  holds the text that the built bundles give, and besides it only the saved manifest is written.
  Two things are lost: the version is the hub's, and the time of every bundle becomes the zero time.
  The strings are text and the configuration has no numbers; nothing is in the way of the two files.
\<close>
theorem apply_then_sync:
  fixes h :: "('r, 'w) hub"
  assumes con: "connected E draw addr env w" and ready: "push_ready E (draw i) t h"
    and project: "ScanLogic (new_scanner rootDir) w = (Inr files, w)" "files \<noteq> []"
      "buildLogicConfigs yaml order rootDir files w = (Inr configs, w)"
    and ok: "sendable_manifest enc (built_manifest env w configs clock)" "enc_others enc"
    and zone: "time_text W (cd_later (draw i)) = Inr tt" "utf8_text tt" "parse_moment tt = Some at" "is_ok (moment_text at)"
    and clear: "is_abs rootDir" "sync_clear rootDir out w"
  shows "\<exists>h' h'' w' m j.
    logic_apply yaml enc order clock (hub_client E draw W addr) env rootDir w (h, i) = (Inr (), w, (h', Suc i)) \<and>
    sync (hub_client E draw W addr) env rootDir w (h', Suc i) = (Inr out, w', (h'', Suc (Suc i))) \<and>
    map (bundle_view Inr) (bundle_list m) = map (bundle_view enc) (bundle_list (built_manifest env w configs clock)) \<and>
    Cli_Integrator.Manifest.Version m = generateVersion (he_zone E) (cd_now (draw i)) \<and>
    map Cli_Integrator.Bundle.CreatedAt (bundle_list m) = map (\<lambda>_. zero_moment) (bundle_list m) \<and>
    manifest_json (\<lambda>j. Inr (json_sorted j)) m = Inr j \<and>
    map_of (fs_files w') = (map_of (fs_files w))
      (path_key rootDir @ [''.santokit'', ''manifest.json''] \<mapsto> json_indented j,
       path_key out \<mapsto> GenerateTypes (built_manifest env w configs clock))"
proof -
  let ?cl = "hub_client E draw W addr" and ?b = "built_manifest env w configs clock" and ?ps = "project_sent (command_project env w)"
  have pid: "ProjectID ?b = command_project env w" by (simp add: built_manifest_def CreateManifest_def)
  have bs: "list_all (sendable_bundle enc) (bundle_list ?b)" using ok(1) by (simp add: sendable_manifest_def)
  define stored where "stored u = stored_manifest \<lparr>MID = [], MProjectID = ?ps,
    Hub_Registry.Manifest.Version = generateVersion (he_zone E) (cd_now (draw i)),
    Hub_Registry.Manifest.Bundles = map (hub_bundle enc) (bundle_list ?b), CreatedAt = cd_later (draw i), CreatedBy = u\<rparr>" for u
  have st: "Hub_Registry.Manifest.Bundles (stored u) = map (hub_bundle enc) (bundle_list ?b)"
    "Hub_Registry.Manifest.CreatedAt (stored u) = cd_later (draw i)"
    "Hub_Registry.Manifest.Version (stored u) = generateVersion (he_zone E) (cd_now (draw i))" for u
    using bs hub_bundle_text text_bundle_stored by (auto simp: stored_def stored_manifest_def list_all_iff)
  have tb: "list_all text_bundle (Hub_Registry.Manifest.Bundles (stored u))" for u
    unfolding st using bs hub_bundle_text by (auto simp: list_all_iff)
  have "\<exists>h'. logic_apply yaml enc order clock ?cl env rootDir w (h, i) = (Inr (), w, (h', Suc i)) \<and>
      db_healthy (hub_db h') \<and> sql_reg_ok (hub_db h') \<and> sql_history (hub_db h') ?ps \<noteq> [] \<and>
      (\<exists>u. last (sql_history (hub_db h') ?ps) = stored u)"
    by (rule logic_apply_hub [OF con refl project])
      (use PushManifest_hub [OF con _ _ ready ok(1) pid] in \<open>unfold stored_def, blast\<close>)
  then obtain h' u where ap: "logic_apply yaml enc order clock ?cl env rootDir w (h, i) = (Inr (), w, (h', Suc i))"
    and h': "db_healthy (hub_db h')" "sql_reg_ok (hub_db h')" "sql_history (hub_db h') ?ps \<noteq> []"
      "last (sql_history (hub_db h') ?ps) = stored u"
    by blast
  let ?m = "fetched_manifest (stored u) at"
  have lst: "bundle_list ?m = map (\<lambda>b. fetched_bundle (hub_bundle enc b)) (bundle_list ?b)" by (simp add: bundle_list_fetched st)
  have "map (bundle_view Inr) (bundle_list ?m) = map (bundle_view enc) (bundle_list ?b)"
    unfolding lst using bs view_sent by (auto simp: list_all_iff)
  moreover have "map Cli_Integrator.Bundle.CreatedAt (bundle_list ?m) = map (\<lambda>_. zero_moment) (bundle_list ?m)"
    unfolding lst by (simp add: fetched_bundle_def)
  moreover have "Cli_Integrator.Manifest.Version ?m = generateVersion (he_zone E) (cd_now (draw i))"
    using version_text ready by (simp add: fetched_manifest_def st push_ready_def utf8_text_def)
  moreover note sync_hub [OF con h' tb, unfolded st, OF zone clear, of "Suc i"]
  ultimately show ?thesis using ap types_sent [OF ok(2) bs lst] by metis
qed

text \<open>A bundle of logic can be sent when its configuration can: its hash is text.\<close>

lemma hex_text: "utf8_text (hex_encode s)"
proof -
  have digit: "ascii (hex_digit n)" if "n < 16" for n
    using that by (simp add: ascii_def hex_digit_def)
  have "(of_char c :: nat) div 16 < 16" for c by (simp add: less_mult_imp_div_less)
  with digit [of "of_char c div 16" for c] digit [of "of_char c mod 16" for c]
  have "list_all ascii (hex_byte c)" for c unfolding hex_byte_def Let_def by simp
  then have "list_all ascii (hex_encode s)" by (induction s) (simp_all add: hex_encode_def)
  then show ?thesis by (simp add: utf8_text_def to_valid_ascii)
qed

lemma BundleLogic_sendable:
  assumes "is_ok (moment_text now)" and "utf8_text (CNamespace c)" "utf8_text (CName c)"
    and "any_json enc (AnyMap (logic_bundle_config c)) = Inr j" "settled j" "json_depth j \<le> 90"
  shows "sendable_bundle enc (BundleLogic c now)"
proof -
  have "utf8_text ''sql''" "utf8_text ''js''" "utf8_text []" by (simp_all add: utf8_text_def to_valid_ascii ascii_def)
  then show ?thesis
    using assms hex_text
    by (simp add: sendable_bundle_def BundleLogic_def Let_def config_of_def del: any_json.simps)
qed

text \<open>A project with a file of JavaScript and one of SQL.\<close>

definition draft_file :: ScannedFile where
  "draft_file = \<lparr>SPath = ''/p/logic/hello/_draft.sql'', SType = FileTypeSQL, IsPublic = False\<rparr>"

definition sample_configs :: "unit LogicConfig list" where
  "sample_configs =
     [empty_config\<lparr>CNamespace := ''hello'', CName := ''_draft'', SQL := ''select 1''\<rparr>,
      empty_config\<lparr>CNamespace := ''hello'', CName := ''ping'', JS := ''export''\<rparr>]"

lemma sample_scan: "ScanLogic (new_scanner ''/p'') sample_project = (Inr [draft_file, ping_file], sample_project)"
  by code_simp

lemma sample_build:
  "buildLogicConfigs (\<lambda>s c. Inr c :: unit LogicConfig res) id ''/p'' [draft_file, ping_file] sample_project =
     (Inr sample_configs, sample_project)"
  by code_simp

lemma sample_clear: "sync_clear ''/p'' ''/p/santokit-env.d.ts'' sample_project"
  by code_simp

lemma sample_push_ready: "push_ready (sample_env (\<lambda>_. [])) sample_cd (- 1000000000) (sample_hub [])"
proof -
  have "sql_history (hub_db (sample_hub [])) p = []" "sql_reg_ok (hub_db (sample_hub []))" for p
    by (simp_all add: sql_history_def sql_rows_def sql_reg_ok_def sample_hub_def empty_tables_def select_where_def)
  moreover have "db_healthy (hub_db (sample_hub []))" by (simp add: db_healthy_def sample_hub_def)
  moreover have "unix (- 1000000000) < unix (cd_now sample_cd)" "year_ok (unix (cd_now sample_cd) + he_zone (sample_env (\<lambda>_. [])))"
    "cd_now sample_cd \<le> cd_later sample_cd"
    by code_simp+
  ultimately show ?thesis by (simp add: push_ready_def dbr.older_def)
qed

lemma sample_sendable:
  "sendable_manifest (\<lambda>_. Inr JNull) (built_manifest token_env sample_project sample_configs (\<lambda>_. (0, 0)))"
proof -
  let ?enc = "\<lambda>_ :: unit. Inr JNull :: json res"
  have "list_all (\<lambda>c. utf8_text (CNamespace c) \<and> utf8_text (CName c) \<and>
      (case any_json ?enc (AnyMap (logic_bundle_config c)) of Inr j \<Rightarrow> settled j \<and> json_depth j \<le> 90 | Inl _ \<Rightarrow> False)) sample_configs"
    by code_simp
  moreover have "is_ok (moment_text (0, 0))" by code_simp
  ultimately have "sendable_bundle ?enc (BundleLogic c (0, 0))" if "c \<in> set sample_configs" for c
    using that BundleLogic_sendable [of "(0, 0)" c ?enc]
    by (cases "any_json ?enc (AnyMap (logic_bundle_config c))") (auto simp: list_all_iff simp del: any_json.simps)
  then show ?thesis
    using \<open>is_ok (moment_text (0, 0))\<close>
    by (auto simp: sendable_manifest_def built_manifest_def CreateManifest_def bundle_list_def bundle_all_def list_all_iff
        in_set_enumerate_eq)
qed

theorem apply_then_sync_witness:
  "\<exists>h' h'' w'.
    logic_apply (\<lambda>s c. Inr c :: unit LogicConfig res) (\<lambda>_. Inr JNull) id (\<lambda>_. (0, 0))
      (hub_client (sample_env (\<lambda>_. [])) (\<lambda>_. sample_cd) sample_wire ''https://hub.santokit.dev'') token_env ''/p'' sample_project
      (sample_hub [], 0) = (Inr (), sample_project, (h', 1)) \<and>
    sync (hub_client (sample_env (\<lambda>_. [])) (\<lambda>_. sample_cd) sample_wire ''https://hub.santokit.dev'') token_env ''/p'' sample_project
      (h', 1) = (Inr ''/p/santokit-env.d.ts'', w', (h'', 2)) \<and>
    map_of (fs_files w') (path_key ''/p/santokit-env.d.ts'') =
      Some (GenerateTypes (built_manifest token_env sample_project sample_configs (\<lambda>_. (0, 0))))"
proof -
  have fs: "fs_faults sample_project = []" by (simp add: sample_project_def)
  have two: "[draft_file, ping_file] \<noteq> []" by simp
  have others: "enc_others (\<lambda>_ :: unit. Inr JNull)" by (simp add: enc_others_def)
  have zone: "time_text sample_wire (cd_later sample_cd) = Inr ''2024-01-01T00:00:00Z''" "utf8_text ''2024-01-01T00:00:00Z''"
    "parse_moment ''2024-01-01T00:00:00Z'' = Some (1704067200000000000, 0)" "is_ok (moment_text (1704067200000000000, 0))"
    by code_simp+
  have root: "is_abs ''/p''" by code_simp
  from apply_then_sync [where i = 0 and draw = "\<lambda>_. sample_cd",
      OF sample_connected [OF fs] sample_push_ready sample_scan two sample_build sample_sendable others zone root sample_clear]
  show ?thesis unfolding One_nat_def [symmetric] Suc_1 by (elim ex_forward) auto
qed

end
