(* ===== verification/Spec2Isabelle.thy ===== *)
theory Spec2Isabelle
  imports Hub_Provisioner Hub_Console Cli_Init Cli_Hub_Config Cli_Hub_Schema Cli_Hub_Login Cli_Hub_Manifest
begin

text \<open>
  A verification library for Santokit: the hub (the server under \<open>packages/hub\<close>) and the
  command-line tool \<open>stk\<close> (under \<open>packages/cli\<close>), both in Go.

  The system.  A user writes schema files, configuration files and logic files (SQL or JavaScript
  with a YAML front matter) in a project directory.  \<open>stk\<close> scans and parses the project, makes
  bundles and a manifest of it, and sends them to the hub over HTTP.  The hub authenticates the
  request, keeps manifests, encrypted secrets, configurations, projects and teams in an SQL
  database, plans and applies schema changes with Atlas, and hands bundles on to Redis or a
  directory.  \<open>stk sync\<close> reads the manifest back and generates TypeScript declarations.

  How Go is modelled.  A Go string is a list of bytes, an error a \<open>go_error\<close>, a function that can
  fail returns \<open>go_error + 'a\<close>, a map is an association list whose order stands for the order of
  iteration.  State is passed explicitly: \<open>fs\<close> is the file system with the faults that the operating
  system will raise, \<open>db\<close> the database with the statements that will fail, \<open>hub\<close> the whole server.
  \<open>time.Now()\<close>, random numbers, the environment and the order of map iteration are arguments.  What is
  not in the repository is a parameter: Atlas, Redis, the YAML package, the SQL drivers, the network.
  The standard library is modelled as far as the code uses it.

  The standard library, theories \<open>Go_*\<close>:
    Go_Prelude      packages \<open>strings\<close> and \<open>strconv\<close>, errors, maps;
    Go_Base64       \<open>encoding/base64\<close>, with decoding as the inverse of encoding;
    Go_Crypto       SHA-256, HMAC, AES-256 and GCM, with \<open>Open\<close> as the inverse of \<open>Seal\<close>;
    Go_Json         \<open>encoding/json\<close>: UTF-8, the scanner, the parser (at most 10000 levels, as in Go);
    Go_Json_Write   \<open>json.Marshal\<close> of dynamic values, with the shortest text of a float64;
    Go_Json_Struct  the two layouts of printed values, decoding into structs, and what is read back;
    Go_Time, Go_Moment  the calendar, the layouts of versions and RFC 3339;
    Go_Files, Go_Walk   paths, files, \<open>filepath.Walk\<close> (its fuel, the depth of the file system plus 2,
                    is enough by \<open>Walk_ok\<close>);
    Go_Client       requests that the program sends;
    Go_Url          \<open>net/url\<close> and the checks of \<open>net/http\<close>: what of a request arrives at a server.

  The hub, theories \<open>Hub_*\<close> and \<open>Sql_*\<close> (sources under \<open>packages/hub\<close>):
    Hub_Config      internal/config/config.go: settings from the environment;
    Hub_Http        requests and replies as the handlers see them;
    Hub_Token       api/router.go: tokens and the middleware in front of the protected routes;
    Sql_Store, Sql_Dsn  internal/store/sqlstore: tables, statements, transactions, opening, rebinding;
    Hub_Vault       internal/vault and its two repositories: a refinement of a plain map;
    Hub_ProjectConfig   internal/projectconfig and its table;
    Hub_Registry    internal/registry and its two repositories: versions, pushes, propagation;
    Hub_Projects, Hub_Projects_Db  internal/projects: projects, teams and members, in both modes;
    Hub_Schema      internal/schema: planning and applying, with and without a reachable database;
    Hub_Provisioner internal/provisioner: deployment to the edge;
    Hub_Api         api/router.go and cmd/hub/main.go: every handler, the routes, the wiring;
    Hub_Api_Props   what holds of all calls: who can change what, isolation, consistency;
    Hub_Wire        the hub in bytes: routing of a path, decoding of bodies, encoding of replies, and the
                    client whose network is this hub;
    Hub_Console     internal/console.

  The command-line tool, theories \<open>Cli_*\<close> (sources under \<open>packages/cli/internal\<close>):
    Cli_Scanner     engine/scanner: the files of a project;
    Cli_Parser      engine/parser: front matter, validation;
    Cli_Integrator  engine/integrator: bundles and manifest;
    Cli_Generator   engine/generator: the TypeScript declarations;
    Cli_Userconfig  userconfig: the profiles in the home directory, as JSON;
    Cli_Communicator  engine/communicator: the calls of the hub, as bytes;
    Cli_Logic       commands/logic.go: building the configurations, \<open>logic apply\<close> and \<open>validate\<close>;
    Cli_Profiles    commands/profile.go and project.go;
    Cli_Login       commands/login.go;
    Cli_Commands    commands/config.go, schema.go, secret.go, sync.go;
    Cli_Init        commands/init.go.

  The two together: in Cli_Hub the commands run over the client of Hub_Wire, so that each request and
  answer passes through its bytes, the router, the middleware, the handler, the services and the
  tables (secrets there, configurations in Cli_Hub_Config, schemas in Cli_Hub_Schema, the login in
  Cli_Hub_Login, manifests in Cli_Hub_Manifest over the bundles of Cli_Hub_Bundles).

  The interfaces are locales, each interpreted on the definitions of the model: the repositories of
  the vault, of the registry and of the configuration (interpreted over the maps in memory and over
  the tables), the alphabets of base64, and those of the theories above that state one.  The
  properties rest on the facts of the interpretations.

  What the groups of lemmas show.  For the standard library: round trips (base64, GCM, JSON in both
  layouts, paths), and what a walk visits.  For the hub: each service refines its abstract map or
  table over every repository, under every list of faults; the API changes only what the token and
  the project of a call allow; the database stays consistent.  For the tool: scans and builds find
  exactly the files, independent of the order of maps, and end; saved profiles are loaded back and the
  commands on them refine a map; every command sends only requests to its hub.  For both together:
  the secret commands refine a map, a configuration is shown as it was applied, applying schemas
  leaves nothing to plan, a login with a token of the hub connects the tool, and what
  \<open>logic apply\<close> uploads is what \<open>sync\<close> fetches and makes declarations of.

  Not modelled.  The TypeScript packages (bridge, client, integration tests).  The server loop of
  \<open>cmd/hub\<close>, signal handling and logging.  Registration of the commands with cobra, and the styling
  of what \<open>stk\<close> prints: a command returns its error or the data it shows, without colours and
  markers; the second formatting in \<open>errorf\<close> is left out.  Errors in the middle of reading the rows
  of a query.  A \<open>[]byte\<close> written as a JSON array of numbers.  Symbolic links and file modes.  Of
  the way between tool and hub: TLS, connection errors (the client is a parameter of the tool, and
  Hub_Wire gives the one that answers), the request identifiers and log lines of the middleware, and
  the texts of Go's own errors, which \<open>wire\<close> takes as a function.
\<close>

end
